(* ===== verification/Py_Prelude.thy ===== *)
theory Py_Prelude
  imports Complex_Main "HOL-Library.Multiset" "HOL-Library.List_Lexorder" "HOL-Library.Char_ord"
begin

text \<open>
  Shared vocabulary of the development: the values a pandas table cell can hold, the
  Python exceptions the helpers and the packaging script can raise (as the left side of
  a sum), the list
  primitives of numpy and pandas that several plotting helpers use
  (\<open>Series.head\<close> with Python slice semantics, \<open>Series.unique\<close>,
  \<open>rint\<close>, and the reverse-argsort-reverse descending sort of pandas'
  \<open>nargsort\<close>), and the generic lemmas about them that the component proofs share.
\<close>

named_theorems py_eval "rules that let the simplifier evaluate the model on concrete inputs"

section \<open>Cells, errors, results\<close>

text \<open>
  A cell of a pandas column: a Python/numpy integer, a finite float (modelled exactly
  as a rational), an infinite float (\<open>CInf True\<close> is \<open>inf\<close>, \<open>CInf False\<close> is
  \<open>-inf\<close>), a string, or a missing value (NaN or None).
\<close>

datatype cell = CInt int | CFloat rat | CInf bool | CStr string | CNaN

datatype py_error = KeyError string | TypeError string | AttributeError string
  | FileNotFoundError string

type_synonym 'a result = "py_error + 'a"

definition bindr :: "'a result \<Rightarrow> ('a \<Rightarrow> 'b result) \<Rightarrow> 'b result" where
  "bindr r f = (case r of Inl e \<Rightarrow> Inl e | Inr v \<Rightarrow> f v)"

text \<open>Evaluating an expression elementwise: the first element that raises wins.\<close>

fun mapr :: "('a \<Rightarrow> 'b result) \<Rightarrow> 'a list \<Rightarrow> 'b list result" where
  "mapr f [] = Inr []"
| "mapr f (x # xs) =
     (case f x of Inl e \<Rightarrow> Inl e
      | Inr y \<Rightarrow> (case mapr f xs of Inl e \<Rightarrow> Inl e | Inr ys \<Rightarrow> Inr (y # ys)))"

text \<open>
  The key under which pandas hashes and compares a cell: \<open>1 == 1.0\<close> in Python, so an
  integer and a float of the same value share a key; each infinity and NaN have keys of
  their own.
\<close>

datatype hkey = HNum rat | HInf bool | HStr string | HNaN

fun cell_key :: "cell \<Rightarrow> hkey" where
  "cell_key (CInt i) = HNum (of_int i)"
| "cell_key (CFloat q) = HNum q"
| "cell_key (CInf b) = HInf b"
| "cell_key (CStr s) = HStr s"
| "cell_key CNaN = HNaN"

fun is_na :: "cell \<Rightarrow> bool" where
  "is_na CNaN = True"
| "is_na _ = False"

text \<open>Elementwise \<open>==\<close> of a Series with a scalar: NaN equals nothing, itself included.\<close>

definition py_eq :: "cell \<Rightarrow> cell \<Rightarrow> bool" where
  "py_eq a b \<longleftrightarrow> \<not> is_na a \<and> cell_key a = cell_key b"

section \<open>List primitives\<close>

text \<open>
  \<open>head(n)\<close> is the slice \<open>[:n]\<close>: a negative \<open>n\<close> drops the last \<open>|n|\<close>
  elements instead of failing.
\<close>

definition py_head :: "int \<Rightarrow> 'a list \<Rightarrow> 'a list" where
  "py_head n xs =
     (if 0 \<le> n then take (nat n) xs else take (nat (int (length xs) + n)) xs)"

text \<open>
  \<open>Series.unique()\<close>: one hash-table pass, keeping the first cell of every key in
  order of first appearance (NaN included, once).
\<close>

fun unique_from :: "hkey list \<Rightarrow> cell list \<Rightarrow> cell list" where
  "unique_from seen [] = []"
| "unique_from seen (c # cs) =
     (if cell_key c \<in> set seen then unique_from seen cs
      else c # unique_from (cell_key c # seen) cs)"

definition unique :: "cell list \<Rightarrow> cell list" where
  "unique cs = unique_from [] cs"

text \<open>\<open>arr.take(idx)\<close>: the elements at the given positions.\<close>

definition take_idx :: "nat list \<Rightarrow> 'a list \<Rightarrow> 'a list" where
  "take_idx idx xs = map (\<lambda>i. xs ! i) idx"

section \<open>Rounding\<close>

text \<open>\<open>rint\<close>: to the nearest integer, halves to the even one.\<close>

definition round_half_even :: "rat \<Rightarrow> int" where
  "round_half_even x =
     (let f = \<lfloor>x\<rfloor>; r = x - of_int f in
      if r < 1/2 then f else if 1/2 < r then f + 1 else if even f then f else f + 1)"

text \<open>\<open>rint\<close> of the fraction \<open>p / q\<close> (\<open>q > 0\<close>) in integer arithmetic.\<close>

definition rint_frac :: "int \<Rightarrow> int \<Rightarrow> int" where
  "rint_frac p q =
     (let f = p div q; r = p mod q
      in if 2 * r < q then f else if q < 2 * r then f + 1 else if even f then f else f + 1)"

section \<open>Stable descending sort\<close>

text \<open>
  pandas sorts descending (\<open>nargsort(..., ascending=False)\<close>) by reversing the
  array, sorting it ascending with a stable argsort and reversing the result.
  \<open>sort_key\<close> is HOL's stable insertion sort.
\<close>

definition argsort_desc :: "('a \<Rightarrow> 'k::linorder) \<Rightarrow> 'a list \<Rightarrow> 'a list" where
  "argsort_desc f xs = rev (sort_key f (rev xs))"

text \<open>
  \<open>nargsort\<close> with a stable \<open>argsort\<close>, written directly: the positions of the
  present values in descending order, ties in order, then the positions of the
  missing ones in their original order (\<open>na_position='last'\<close>).
\<close>

definition nargsort_desc :: "'k::linorder option list \<Rightarrow> nat list" where
  "nargsort_desc ks =
     (let ix = zip [0..<length ks] ks;
          non_nan = map (\<lambda>(i, k). (i, the k)) (filter (\<lambda>(i, k). k \<noteq> None) ix);
          nan_idx = map fst (filter (\<lambda>(i, k). k = None) ix)
      in map fst (argsort_desc snd non_nan) @ nan_idx)"

text \<open>
  numpy's \<open>argsort\<close>: a permutation of the positions listing the values in
  ascending order. \<open>sort_values\<close> calls it with \<open>kind='quicksort'\<close> (its
  default), which promises nothing about the order of equal values: numpy runs an
  introsort, or a SIMD sort where the CPU has one. The helpers are therefore modelled
  over any \<open>srt\<close> with \<open>is_argsort srt\<close>. \<open>stable_argsort\<close> is the stable one
  (what the introsort's insertion sort does on short arrays).
\<close>

definition is_argsort :: "('k::linorder list \<Rightarrow> nat list) \<Rightarrow> bool" where
  "is_argsort srt \<longleftrightarrow>
     (\<forall>xs. mset (srt xs) = mset [0..<length xs] \<and> sorted (map (\<lambda>i. xs ! i) (srt xs)))"

definition stable_argsort :: "'k::linorder list \<Rightarrow> nat list" where
  "stable_argsort xs = map fst (sort_key snd (zip [0..<length xs] xs))"

text \<open>
  pandas' \<open>nargsort(items, kind, ascending=False, na_position='last')\<close>: split off
  the missing values, reverse the rest, \<open>argsort\<close> it, reverse the indexer and
  append the positions of the missing values.
\<close>

definition nargsort :: "('k::linorder list \<Rightarrow> nat list) \<Rightarrow> 'k option list \<Rightarrow> nat list" where
  "nargsort srt ks =
     (let ix = zip [0..<length ks] ks;
          non_nans = rev (map (\<lambda>(i, k). (i, the k)) (filter (\<lambda>(i, k). k \<noteq> None) ix));
          indexer = rev (map (\<lambda>j. fst (non_nans ! j)) (srt (map snd non_nans)));
          nan_idx = map fst (filter (\<lambda>(i, k). k = None) ix)
      in indexer @ nan_idx)"

text \<open>The order \<open>nargsort\<close> produces: present values descending, missing values last.\<close>

fun na_last_desc :: "'k::linorder option \<Rightarrow> 'k option \<Rightarrow> bool" where
  "na_last_desc (Some a) (Some b) = (b \<le> a)"
| "na_last_desc (Some a) None = True"
| "na_last_desc None (Some b) = False"
| "na_last_desc None None = True"

text \<open>A reference stable descending sort: insertion before the first element not above.\<close>

fun insort_desc :: "('a \<Rightarrow> 'k::linorder) \<Rightarrow> 'a \<Rightarrow> 'a list \<Rightarrow> 'a list" where
  "insort_desc f x [] = [x]"
| "insort_desc f x (y # ys) = (if f y \<le> f x then x # y # ys else y # insort_desc f x ys)"

definition sort_desc :: "('a \<Rightarrow> 'k::linorder) \<Rightarrow> 'a list \<Rightarrow> 'a list" where
  "sort_desc f xs = foldr (insort_desc f) xs []"

abbreviation sorted_desc :: "('a \<Rightarrow> 'k::linorder) \<Rightarrow> 'a list \<Rightarrow> bool" where
  "sorted_desc f xs \<equiv> sorted_wrt (\<lambda>a b. f b \<le> f a) xs"

section \<open>Lemmas on results, lists and rounding\<close>

lemma bindr_Inl [simp]: "bindr (Inl e) f = Inl e"
  by (simp add: bindr_def)

lemma bindr_Inr [simp]: "bindr (Inr v) f = f v"
  by (simp add: bindr_def)

lemma bindr_eq_Inr: "bindr r f = Inr w \<longleftrightarrow> (\<exists>v. r = Inr v \<and> f v = Inr w)"
  by (cases r) auto

lemma bindr_eq_Inl: "bindr r f = Inl e \<longleftrightarrow> r = Inl e \<or> (\<exists>v. r = Inr v \<and> f v = Inl e)"
  by (cases r) auto

lemma mapr_Inr_all2: "mapr f xs = Inr ys \<Longrightarrow> list_all2 (\<lambda>x y. f x = Inr y) xs ys"
  by (induction xs arbitrary: ys) (auto split: sum.splits)

lemma mapr_map: "(\<And>x. x \<in> set xs \<Longrightarrow> f x = Inr (g x)) \<Longrightarrow> mapr f xs = Inr (map g xs)"
  by (induction xs) auto

lemma mapr_Inl_ex: "mapr f xs = Inl e \<Longrightarrow> \<exists>x\<in>set xs. f x = Inl e"
  by (induction xs) (auto split: sum.splits)

lemma mapr_ex_Inl: "x \<in> set xs \<Longrightarrow> f x = Inl e \<Longrightarrow> \<exists>e'. mapr f xs = Inl e'"
  by (induction xs) (auto split: sum.splits)

lemma length_py_head:
  "length (py_head n xs) = (if 0 \<le> n then min (nat n) (length xs) else nat (int (length xs) + n))"
  by (simp add: py_head_def min.commute)

lemma py_head_take: "\<exists>k. py_head n xs = take k xs"
  by (auto simp: py_head_def)

lemma py_head_nonneg [simp]: "0 \<le> n \<Longrightarrow> py_head n xs = take (nat n) xs"
  by (simp add: py_head_def)

lemma unique_from_subset: "set (unique_from seen cs) \<subseteq> set cs"
  by (induction seen cs rule: unique_from.induct) auto

lemma unique_from_keys:
  "cell_key ` set (unique_from seen cs) = cell_key ` set cs - set seen"
  by (induction seen cs rule: unique_from.induct) auto

lemma unique_from_distinct:
  "distinct (map cell_key (unique_from seen cs)) \<and> set (map cell_key (unique_from seen cs)) \<inter> set seen = {}"
proof (induction seen cs rule: unique_from.induct)
  case (2 seen c cs)
  then show ?case using unique_from_keys [of "cell_key c # seen" cs] by auto
qed simp

lemma unique_keys: "cell_key ` set (unique cs) = cell_key ` set cs"
  using unique_from_keys [of "[]" cs] by (simp add: unique_def)

lemma distinct_unique_keys: "distinct (map cell_key (unique cs))"
  using unique_from_distinct [of "[]" cs] by (simp add: unique_def)

lemma unique_from_snoc:
  "unique_from seen (ys @ [c]) =
     unique_from seen ys @ (if cell_key c \<in> set seen \<union> cell_key ` set ys then [] else [c])"
  by (induction ys arbitrary: seen) auto

lemma unique_snoc:
  "unique (ys @ [c]) = unique ys @ (if cell_key c \<in> cell_key ` set ys then [] else [c])"
  using unique_from_snoc [of "[]" ys c] by (simp add: unique_def)

lemma is_na_key: "is_na c \<longleftrightarrow> cell_key c = HNaN"
  by (cases c) simp_all

lemma round_half_even_err: "\<bar>of_int (round_half_even x) - x\<bar> \<le> 1/2"
proof -
  have "of_int \<lfloor>x\<rfloor> \<le> x" "x < of_int \<lfloor>x\<rfloor> + 1" by linarith+
  then show ?thesis
    unfolding round_half_even_def Let_def by (simp add: abs_if split: if_splits; linarith)
qed

lemma unique_from_first:
  "c \<in> set (unique_from seen cs) \<Longrightarrow> hd (filter (\<lambda>d. cell_key d = cell_key c) cs) = c"
proof (induction seen cs rule: unique_from.induct)
  case (2 seen d ds)
  show ?case
  proof (cases "cell_key d \<in> set seen")
    case True
    with "2.prems" have c: "c \<in> set (unique_from seen ds)" by simp
    then have "cell_key c \<notin> set seen" using unique_from_distinct [of seen ds] by auto
    with True c "2.IH"(1) show ?thesis by auto
  next
    case False
    show ?thesis
    proof (cases "c = d")
      case False': False
      with False "2.prems" have c: "c \<in> set (unique_from (cell_key d # seen) ds)" by simp
      then have "cell_key c \<in> set (map cell_key (unique_from (cell_key d # seen) ds))" by simp
      then have "cell_key c \<noteq> cell_key d" using unique_from_distinct [of "cell_key d # seen" ds] by auto
      with False c "2.IH"(2) show ?thesis by auto
    qed simp
  qed
qed simp

section \<open>Lemmas on the descending sorts\<close>

lemma mset_argsort_desc [simp]: "mset (argsort_desc f xs) = mset xs"
  by (simp add: argsort_desc_def)

lemma length_argsort_desc [simp]: "length (argsort_desc f xs) = length xs"
  by (simp add: argsort_desc_def)

lemma set_argsort_desc [simp]: "set (argsort_desc f xs) = set xs"
  by (simp add: argsort_desc_def)

lemma sorted_argsort_desc: "sorted_desc f (argsort_desc f xs)"
proof -
  have "sorted (map f (sort_key f (rev xs)))" by simp
  then have "sorted_wrt (\<lambda>a b. f a \<le> f b) (sort_key f (rev xs))"
    by (simp add: sorted_map)
  then show ?thesis by (simp add: argsort_desc_def sorted_wrt_rev)
qed

lemma argsort_desc_stable:
  "filter (\<lambda>y. f y = k) (argsort_desc f xs) = filter (\<lambda>y. f y = k) xs"
  by (simp add: argsort_desc_def rev_filter [symmetric] sort_key_stable)

lemma sorted_desc_unique:
  assumes "sorted_desc f ys" and "sorted_desc f zs"
    and "\<And>k. filter (\<lambda>x. f x = k) ys = filter (\<lambda>x. f x = k) zs"
  shows "ys = zs"
  using assms
proof (induction ys arbitrary: zs)
  case Nil
  show ?case
  proof (cases zs)
    case (Cons z zs')
    with Nil.prems(3) [of "f z"] show ?thesis by simp
  qed simp
next
  case (Cons y ys)
  obtain z zs' where zs: "zs = z # zs'"
    using Cons.prems(3) [of "f y"] by (cases zs) auto
  have "y \<in> set (filter (\<lambda>x. f x = f y) (y # ys))" by simp
  then have "y \<in> set zs" unfolding Cons.prems(3) by simp
  then have "f y \<le> f z" using Cons.prems(2) zs by auto
  moreover have "z \<in> set (filter (\<lambda>x. f x = f z) zs)" using zs by simp
  then have "z \<in> set (y # ys)" unfolding Cons.prems(3) [symmetric] by (simp split: if_splits)
  then have "f z \<le> f y" using Cons.prems(1) by auto
  ultimately have fz: "f z = f y" by simp
  with Cons.prems(3) [of "f y"] zs have yz: "y = z"
    and tl: "filter (\<lambda>x. f x = f y) ys = filter (\<lambda>x. f x = f y) zs'" by auto
  have "\<And>k. filter (\<lambda>x. f x = k) ys = filter (\<lambda>x. f x = k) zs'"
    using Cons.prems(3) zs fz tl by (metis (mono_tags, lifting) filter.simps(2) list.inject)
  then have "ys = zs'" using Cons.IH Cons.prems(1,2) zs by simp
  with yz zs show ?case by simp
qed

lemma mset_insort_desc: "mset (insort_desc f x xs) = add_mset x (mset xs)"
  by (induction xs) auto

lemma set_insort_desc: "set (insort_desc f x xs) = insert x (set xs)"
  by (induction xs) auto

lemma sorted_insort_desc: "sorted_desc f xs \<Longrightarrow> sorted_desc f (insort_desc f x xs)"
  by (induction xs) (auto simp: set_insort_desc)

lemma filter_insort_desc:
  "filter (\<lambda>y. f y = k) (insort_desc f x xs) =
     (if f x = k then x # filter (\<lambda>y. f y = k) xs else filter (\<lambda>y. f y = k) xs)"
  by (induction xs) auto

lemma mset_sort_desc [simp]: "mset (sort_desc f xs) = mset xs"
  by (induction xs) (simp_all add: sort_desc_def mset_insort_desc)

lemma sorted_sort_desc: "sorted_desc f (sort_desc f xs)"
  by (induction xs) (simp_all add: sort_desc_def sorted_insort_desc)

lemma sort_desc_stable:
  "filter (\<lambda>y. f y = k) (sort_desc f xs) = filter (\<lambda>y. f y = k) xs"
  by (induction xs) (simp_all add: sort_desc_def filter_insort_desc)

lemma argsort_desc_eq_sort_desc: "argsort_desc f xs = sort_desc f xs"
  by (rule sorted_desc_unique [OF sorted_argsort_desc sorted_sort_desc])
     (simp add: argsort_desc_stable sort_desc_stable)

lemma insort_key_map: "insort_key g (h x) (map h ys) = map h (insort_key (\<lambda>y. g (h y)) x ys)"
  by (induction ys) auto

lemma sort_key_map: "sort_key g (map h ys) = map h (sort_key (\<lambda>y. g (h y)) ys)"
  by (induction ys) (simp_all add: insort_key_map)

lemma argsort_desc_map: "argsort_desc g (map h ys) = map h (argsort_desc (\<lambda>y. g (h y)) ys)"
  by (simp add: argsort_desc_def rev_map sort_key_map)

lemma map_nth_enum:
  "set ps \<subseteq> set (zip [0..<length xs] xs) \<Longrightarrow> map (\<lambda>i. xs ! i) (map fst ps) = map snd ps"
  by (induction ps) (auto simp: set_zip)

lemma map_snd_filter_snd: "map snd (filter (\<lambda>p. P (snd p)) ps) = filter P (map snd ps)"
  by (induction ps) auto

lemma take_idx_nargsort_desc:
  "take_idx (nargsort_desc (map g xs)) xs =
     argsort_desc (\<lambda>x. the (g x)) (filter (\<lambda>x. g x \<noteq> None) xs) @ filter (\<lambda>x. g x = None) xs"
proof -
  define E where "E = zip [0..<length xs] xs"
  define h where "h = (\<lambda>(i::nat, x). (i, g x))"
  have ix: "zip [0..<length (map g xs)] (map g xs) = map h E"
    by (simp add: E_def h_def zip_map2)
  have nn: "map (\<lambda>(i, k). (i, the k)) (filter (\<lambda>(i, k). k \<noteq> None) (map h E))
      = map (\<lambda>(i, x). (i, the (g x))) (filter (\<lambda>(i, x). g x \<noteq> None) E)"
    by (simp add: h_def filter_map comp_def split_def)
  have na: "map fst (filter (\<lambda>(i, k). k = None) (map h E)) = map fst (filter (\<lambda>(i, x). g x = None) E)"
    by (simp add: h_def filter_map comp_def split_def)
  let ?A = "argsort_desc (\<lambda>p. the (g (snd p))) (filter (\<lambda>(i, x). g x \<noteq> None) E)"
  have sA: "set ?A \<subseteq> set E" by auto
  have sB: "set (filter (\<lambda>(i, x). g x = None) E) \<subseteq> set E" by auto
  have "take_idx (nargsort_desc (map g xs)) xs =
      map (\<lambda>i. xs ! i) (map fst ?A) @ map (\<lambda>i. xs ! i) (map fst (filter (\<lambda>(i, x). g x = None) E))"
    unfolding nargsort_desc_def Let_def ix nn na take_idx_def
    by (simp add: argsort_desc_map comp_def split_def)
  also have "\<dots> = map snd ?A @ map snd (filter (\<lambda>(i, x). g x = None) E)"
    using map_nth_enum [OF sA [unfolded E_def]] map_nth_enum [OF sB [unfolded E_def]]
    by (simp add: E_def)
  also have "\<dots> = argsort_desc (\<lambda>x. the (g x)) (map snd (filter (\<lambda>p. g (snd p) \<noteq> None) E))
      @ map snd (filter (\<lambda>p. g (snd p) = None) E)"
    by (simp add: argsort_desc_map split_def)
  also have "\<dots> = argsort_desc (\<lambda>x. the (g x)) (filter (\<lambda>x. g x \<noteq> None) xs) @ filter (\<lambda>x. g x = None) xs"
    using map_snd_filter_snd [of "\<lambda>x. g x \<noteq> None" E] map_snd_filter_snd [of "\<lambda>x. g x = None" E]
    by (simp add: E_def)
  finally show ?thesis .
qed

lemma take_idx_nargsort_desc_Some:
  "take_idx (nargsort_desc (map (\<lambda>x. Some (f x)) xs)) xs = argsort_desc f xs"
  using take_idx_nargsort_desc [of "\<lambda>x. Some (f x)" xs] by simp

subsection \<open>The generic \<open>nargsort\<close>\<close>

lemma set_upt_mset: "mset p = mset [0..<n] \<Longrightarrow> set p = {0..<n}"
  by (metis atLeastLessThan_upt set_mset_mset)

lemma mset_take_idx_perm:
  "mset p = mset [0..<length xs] \<Longrightarrow> mset (take_idx p xs) = mset xs"
proof -
  assume p: "mset p = mset [0..<length xs]"
  have "mset (take_idx p xs) = image_mset (\<lambda>i. xs ! i) (mset p)" by (simp add: take_idx_def)
  also have "\<dots> = mset (map (\<lambda>i. xs ! i) [0..<length xs])" by (simp add: p)
  also have "\<dots> = mset xs" by (simp add: map_nth)
  finally show ?thesis .
qed

lemma is_argsort_stable: "is_argsort stable_argsort"
proof (unfold is_argsort_def, intro allI conjI)
  fix xs :: "'k::linorder list"
  let ?E = "zip [0..<length xs] xs"
  have "mset (map fst (sort_key snd ?E)) = mset (map fst ?E)"
    by (simp only: mset_map mset_sort)
  then show "mset (stable_argsort xs) = mset [0..<length xs]"
    by (simp add: stable_argsort_def)
  have "map (\<lambda>i. xs ! i) (stable_argsort xs) = map snd (sort_key snd ?E)"
    unfolding stable_argsort_def by (rule map_nth_enum) simp
  then show "sorted (map (\<lambda>i. xs ! i) (stable_argsort xs))" by simp
qed

lemma sorted_wrt_na_last_rev_Some:
  "sorted_wrt na_last_desc (rev (map Some zs)) \<longleftrightarrow> sorted zs"
  by (simp add: sorted_wrt_rev sorted_wrt_map)

lemma nargsort_parts:
  fixes ks :: "'k::linorder option list"
  defines "nn \<equiv> rev (map (\<lambda>(i, k). (i, the k)) (filter (\<lambda>(i, k). k \<noteq> None) (zip [0..<length ks] ks)))"
  shows "\<And>p. p \<in> set nn \<Longrightarrow> fst p < length ks \<and> ks ! fst p = Some (snd p)"
  unfolding nn_def by (auto simp: set_zip dest: sym)

lemma sorted_wrt_na_last_None: "\<forall>x\<in>set xs. x = None \<Longrightarrow> sorted_wrt na_last_desc xs"
  by (induction xs) auto

lemma mset_fst_filter_None:
  "mset (map fst (filter (\<lambda>(i, k). k \<noteq> None) xs)) + mset (map fst (filter (\<lambda>(i, k). k = None) xs))
     = mset (map fst xs)"
  by (induction xs) auto

lemma nargsort_perm:
  fixes ks :: "'k::linorder option list"
  assumes "is_argsort srt"
  shows "mset (nargsort srt ks) = mset [0..<length ks]"
proof -
  define ix where "ix = zip [0..<length ks] ks"
  define nn where "nn = rev (map (\<lambda>(i, k). (i, the k)) (filter (\<lambda>(i, k). k \<noteq> None) ix))"
  have p: "mset (srt (map snd nn)) = mset [0..<length (map fst nn)]"
    using assms by (simp add: is_argsort_def)
  have idx: "map (\<lambda>j. fst (nn ! j)) (srt (map snd nn)) = take_idx (srt (map snd nn)) (map fst nn)"
    using set_upt_mset [OF p] by (auto simp: take_idx_def)
  have fn: "map fst nn = rev (map fst (filter (\<lambda>(i, k). k \<noteq> None) ix))"
    by (simp add: nn_def rev_map comp_def split_def)
  have "mset (nargsort srt ks) =
      mset (map (\<lambda>j. fst (nn ! j)) (srt (map snd nn))) + mset (map fst (filter (\<lambda>(i, k). k = None) ix))"
    unfolding nargsort_def Let_def ix_def [symmetric] nn_def [symmetric] mset_append mset_rev ..
  also have "\<dots> = mset (map fst ix)"
    unfolding idx mset_take_idx_perm [OF p] unfolding fn mset_rev by (rule mset_fst_filter_None)
  also have "\<dots> = mset [0..<length ks]"
    by (simp add: ix_def)
  finally show ?thesis .
qed

lemma nargsort_sorted:
  fixes ks :: "'k::linorder option list"
  assumes "is_argsort srt"
  shows "sorted_wrt na_last_desc (map (\<lambda>i. ks ! i) (nargsort srt ks))"
proof -
  define nn where "nn = rev (map (\<lambda>(i, k). (i, the k)) (filter (\<lambda>(i, k). k \<noteq> None) (zip [0..<length ks] ks)))"
  let ?p = "srt (map snd nn)"
  have p: "set ?p = {0..<length nn}" and s: "sorted (map (\<lambda>j. map snd nn ! j) ?p)"
    using assms set_upt_mset [of ?p "length nn"] by (auto simp: is_argsort_def)
  have nnk: "\<And>q. q \<in> set nn \<Longrightarrow> ks ! fst q = Some (snd q)"
    using nargsort_parts [of _ ks] by (simp add: nn_def)
  have A: "map (\<lambda>i. ks ! i) (rev (map (\<lambda>j. fst (nn ! j)) ?p)) = rev (map Some (map (\<lambda>j. map snd nn ! j) ?p))"
    using p by (simp add: rev_map nnk)
  have B: "\<forall>x\<in>set (map (\<lambda>i. ks ! i) (map fst (filter (\<lambda>(i, k). k = None) (zip [0..<length ks] ks)))). x = None"
    by (auto simp: set_zip)
  have C: "\<forall>x\<in>set (rev (map Some zs)). \<forall>y\<in>set ys. y = None \<longrightarrow> na_last_desc x y" for zs ys
    by auto
  show ?thesis
    unfolding nargsort_def Let_def map_append sorted_wrt_append nn_def [symmetric] A
    using B C s sorted_wrt_na_last_rev_Some sorted_wrt_na_last_None by blast
qed

lemma take_idx_stable_argsort: "take_idx (stable_argsort (map f xs)) xs = sort_key f xs"
proof -
  define E where "E = zip [0..<length xs] xs"
  have z: "zip [0..<length (map f xs)] (map f xs) = map (\<lambda>(i, x). (i, f x)) E"
    by (simp add: E_def zip_map2)
  have "take_idx (stable_argsort (map f xs)) xs = map (\<lambda>i. xs ! i) (map fst (sort_key (\<lambda>p. f (snd p)) E))"
    unfolding take_idx_def stable_argsort_def z by (simp add: sort_key_map split_def comp_def)
  also have "\<dots> = map snd (sort_key (\<lambda>p. f (snd p)) E)"
    by (rule map_nth_enum) (simp add: E_def)
  also have "\<dots> = sort_key f xs"
    using sort_key_map [of f snd E, symmetric] by (simp add: E_def)
  finally show ?thesis .
qed

lemma nargsort_stable_argsort: "nargsort stable_argsort ks = nargsort_desc ks"
proof -
  define nn where "nn = map (\<lambda>(i, k). (i, the k)) (filter (\<lambda>(i, k). k \<noteq> None) (zip [0..<length ks] ks))"
  have "map (\<lambda>j. fst (rev nn ! j)) (stable_argsort (map snd (rev nn))) =
      map fst (take_idx (stable_argsort (map snd (rev nn))) (rev nn))"
    by (simp add: take_idx_def)
  also have "\<dots> = map fst (sort_key snd (rev nn))"
    by (simp only: take_idx_stable_argsort)
  finally have c: "map (\<lambda>j. fst (rev nn ! j)) (stable_argsort (map snd (rev nn))) = map fst (sort_key snd (rev nn))" .
  have d: "nargsort_desc ks = map fst (rev (sort_key snd (rev nn)))
      @ map fst (filter (\<lambda>(i, k). k = None) (zip [0..<length ks] ks))"
    unfolding nargsort_desc_def Let_def argsort_desc_def nn_def ..
  have n: "nargsort stable_argsort ks = rev (map (\<lambda>j. fst (rev nn ! j)) (stable_argsort (map snd (rev nn))))
      @ map fst (filter (\<lambda>(i, k). k = None) (zip [0..<length ks] ks))"
    unfolding nargsort_def Let_def nn_def ..
  show ?thesis unfolding d n c rev_map ..
qed

lemma take_idx_map_nth:
  "set p \<subseteq> {0..<length xs} \<Longrightarrow> map g (take_idx p xs) = map (\<lambda>i. map g xs ! i) p"
  by (auto simp: take_idx_def)

lemma mset_take_idx_nargsort:
  "is_argsort srt \<Longrightarrow> mset (take_idx (nargsort srt (map g xs)) xs) = mset xs"
proof -
  assume "is_argsort srt"
  then have "mset (nargsort srt (map g xs)) = mset [0..<length xs]"
    using nargsort_perm [of srt "map g xs"] by simp
  then show ?thesis by (rule mset_take_idx_perm)
qed

lemma sorted_take_idx_nargsort:
  assumes "is_argsort srt"
  shows "sorted_wrt (\<lambda>a b. na_last_desc (g a) (g b)) (take_idx (nargsort srt (map g xs)) xs)"
proof -
  have "set (nargsort srt (map g xs)) = {0..<length xs}"
    using set_upt_mset [OF nargsort_perm [OF assms]] by simp
  then have "map g (take_idx (nargsort srt (map g xs)) xs) = map (\<lambda>i. map g xs ! i) (nargsort srt (map g xs))"
    by (simp add: take_idx_map_nth)
  then show ?thesis
    using nargsort_sorted [OF assms, of "map g xs"] by (simp add: sorted_wrt_map [symmetric])
qed

subsection \<open>Lists by position\<close>

lemma length_take_idx [simp]: "length (take_idx p xs) = length p"
  by (simp add: take_idx_def)

lemma take_idx_upt: "n \<le> length xs \<Longrightarrow> take_idx [0..<n] xs = take n xs"
  by (rule nth_equalityI) (simp_all add: take_idx_def)

lemma take_upt0: "take k [0..<n] = [0..<min k n]"
  by (rule nth_equalityI) simp_all

lemma take_idx_py_head_upt: "take_idx (py_head n [0..<length xs]) xs = py_head n xs"
  by (simp add: py_head_def take_upt0 take_idx_upt min_def) linarith

lemma take_idx_take_idx:
  "set p \<subseteq> {0..<length q} \<Longrightarrow> take_idx p (take_idx q xs) = take_idx (take_idx p q) xs"
  by (auto simp: take_idx_def)

lemma take_idx_head_len:
  "take_idx (py_head tn [0..<length p]) (take_idx p zs) = py_head tn (take_idx p zs)"
  using take_idx_py_head_upt [of tn "take_idx p zs"] by (simp add: take_idx_def)

lemma zip_take_idx:
  "length xs = length ys \<Longrightarrow> set p \<subseteq> {0..<length xs} \<Longrightarrow>
   zip (take_idx p xs) (take_idx p ys) = take_idx p (zip xs ys)"
  by (induction p) (auto simp: take_idx_def)

lemma zip_py_head:
  "length xs = length ys \<Longrightarrow> zip (py_head n xs) (py_head n ys) = py_head n (zip xs ys)"
  by (simp add: py_head_def take_zip)

lemma sorted_wrt_take_drop:
  "sorted_wrt R xs \<Longrightarrow> a \<in> set (take k xs) \<Longrightarrow> b \<in> set (drop k xs) \<Longrightarrow> R a b"
  using sorted_wrt_append [of R "take k xs" "drop k xs"] by simp

lemma sorted_take_drop:
  "sorted_wrt R xs \<Longrightarrow> a \<in> set (take k xs) \<Longrightarrow> b \<in> set xs \<Longrightarrow> b \<notin> set (take k xs) \<Longrightarrow> R a b"
  by (metis append_take_drop_id sorted_wrt_append Un_iff set_append)

lemma sorted_wrt_py_head: "sorted_wrt R xs \<Longrightarrow> sorted_wrt R (py_head n xs)"
  using py_head_take [of n xs] sorted_wrt_take by metis

lemma mset_py_head_subseteq: "mset (py_head n xs) \<subseteq># mset xs"
proof -
  obtain k where "py_head n xs = take k xs" using py_head_take by blast
  then show ?thesis by (metis append_take_drop_id mset_append mset_subset_eq_add_left)
qed

lemma mset_minus_py_head:
  "\<exists>k. py_head n xs = take k xs \<and> mset xs - mset (py_head n xs) = mset (drop k xs)"
proof -
  obtain k where k: "py_head n xs = take k xs" using py_head_take by blast
  have "mset xs = mset (take k xs) + mset (drop k xs)"
    by (simp flip: mset_append)
  then show ?thesis using k by auto
qed

lemma length_nargsort: "is_argsort srt \<Longrightarrow> length (nargsort srt ks) = length ks"
  using arg_cong [OF nargsort_perm [of srt ks], of size] by simp

lemma set_nargsort: "is_argsort srt \<Longrightarrow> set (nargsort srt ks) = {0..<length ks}"
  using set_upt_mset [OF nargsort_perm [of srt ks]] by simp

section \<open>Evaluating rationals and \<open>rint\<close> by simplification\<close>

lemma quotient_of_int_div: "quotient_of (of_int a / of_int b) = Rat.normalize (a, b)"
  by (simp add: Fract_of_int_quotient [symmetric] quotient_of_Fract)

lemma quotient_of_numeral_eval [py_eval]:
  "quotient_of (numeral a / numeral b) = Rat.normalize (numeral a, numeral b)"
  "quotient_of (- (numeral a / numeral b)) = Rat.normalize (- numeral a, numeral b)"
  "quotient_of (1 / numeral b) = Rat.normalize (1, numeral b)"
  "quotient_of (- (1 / numeral b)) = Rat.normalize (- 1, numeral b)"
  using quotient_of_int_div [of "numeral a" "numeral b"] quotient_of_int_div [of "- numeral a" "numeral b"]
    quotient_of_int_div [of 1 "numeral b"] quotient_of_int_div [of "- 1" "numeral b"]
  by simp_all

lemma frac_half_less: "0 < (q::int) \<Longrightarrow> (of_int r / of_int q < (1/2::rat)) = (2 * r < q)"
proof -
  assume "0 < q"
  then have "(of_int r / of_int q < (1/2::rat)) = (of_int (2 * r) < (of_int q :: rat))"
    by (simp add: field_simps)
  then show ?thesis by (simp only: of_int_less_iff)
qed

lemma frac_half_greater: "0 < (q::int) \<Longrightarrow> ((1/2::rat) < of_int r / of_int q) = (q < 2 * r)"
proof -
  assume "0 < q"
  then have "((1/2::rat) < of_int r / of_int q) = ((of_int q :: rat) < of_int (2 * r))"
    by (simp add: field_simps)
  then show ?thesis by (simp only: of_int_less_iff)
qed

lemma round_half_even_of_int [simp]: "round_half_even (of_int k) = k"
  by (simp add: round_half_even_def)

lemma round_half_even_frac:
  assumes q: "0 < q"
  shows "round_half_even (of_int p / of_int q) = rint_frac p q"
proof -
  define x where "x = (of_int p / of_int q :: rat)"
  have fl: "\<lfloor>x\<rfloor> = p div q" by (simp add: x_def floor_divide_of_int_eq)
  have eq: "x - of_int (p div q) = of_int (p mod q) / of_int q"
    using q by (simp add: x_def field_simps) (metis of_int_add of_int_mult div_mult_mod_eq add.commute mult.commute)
  have "(x - of_int (p div q) < 1/2 \<longleftrightarrow> 2 * (p mod q) < q)
      \<and> (1/2 < x - of_int (p div q) \<longleftrightarrow> q < 2 * (p mod q))"
    by (simp only: eq frac_half_less [OF q] frac_half_greater [OF q])
  then show ?thesis by (simp add: round_half_even_def rint_frac_def fl Let_def flip: x_def)
qed

lemma round_half_even_eval:
  "round_half_even x = (let (p, q) = quotient_of x in rint_frac p q)"
proof -
  obtain p q where pq: "quotient_of x = (p, q)" by (cases "quotient_of x")
  then have q: "0 < q" and xe: "x = of_int p / of_int q"
    using quotient_of_denom_pos quotient_of_div by blast+
  have "round_half_even x = rint_frac p q" unfolding xe by (rule round_half_even_frac [OF q])
  then show ?thesis by (simp add: pq)
qed

lemma round_half_even_numeral [py_eval]:
  "round_half_even (numeral a / numeral b) = rint_frac (numeral a) (numeral b)"
  "round_half_even (- (numeral a / numeral b)) = rint_frac (- numeral a) (numeral b)"
  "round_half_even (1 / numeral b) = rint_frac 1 (numeral b)"
  "round_half_even (- (1 / numeral b)) = rint_frac (- 1) (numeral b)"
  "round_half_even (numeral a) = numeral a"
  "round_half_even (- numeral a) = - numeral a"
  "round_half_even 0 = 0"
  "round_half_even 1 = 1"
  "round_half_even (- 1) = - 1"
  using round_half_even_frac [of "numeral b" "numeral a"] round_half_even_frac [of "numeral b" "- numeral a"]
    round_half_even_frac [of "numeral b" 1] round_half_even_frac [of "numeral b" "- 1"]
    round_half_even_of_int [of "numeral a"] round_half_even_of_int [of "- numeral a"]
    round_half_even_of_int [of 0] round_half_even_of_int [of 1] round_half_even_of_int [of "- 1"]
  by simp_all

declare rint_frac_def [py_eval] Rat.normalize_def [py_eval] gcd_code_int [py_eval] upt_conv_Cons [py_eval] Let_def [py_eval] power_int_def [py_eval] power_one_over [py_eval]
  take_idx_def [py_eval] py_head_def [py_eval] unique_def [py_eval] nargsort_desc_def [py_eval]
  argsort_desc_def [py_eval] py_eq_def [py_eval] bindr_def [py_eval] stable_argsort_def [py_eval]
  nargsort_def [py_eval]

subsection \<open>Sums of elementwise bounds\<close>

lemma sum_list_list_all2_dist:
  "list_all2 (\<lambda>c y. \<bar>y - f c\<bar> \<le> (b::'a::linordered_idom)) cs ys
   \<Longrightarrow> \<bar>sum_list ys - sum_list (map f cs)\<bar> \<le> of_nat (length cs) * b"
proof (induction rule: list_all2_induct)
  case (Cons c cs y ys)
  have "\<bar>(y - f c) + (sum_list ys - sum_list (map f cs))\<bar>
        \<le> \<bar>y - f c\<bar> + \<bar>sum_list ys - sum_list (map f cs)\<bar>" by (rule abs_triangle_ineq)
  with Cons show ?case by (simp add: algebra_simps)
qed simp

lemma length_filter_key:
  "distinct (map f us) \<Longrightarrow> k \<in> f ` set us \<Longrightarrow> length (filter (\<lambda>u. f u = k) us) = 1"
proof (induction us)
  case (Cons u us)
  show ?case
  proof (cases "f u = k")
    case True
    have "f u \<notin> f ` set us" using Cons.prems(1) by simp
    then have "\<forall>x\<in>set us. f x \<noteq> k" using True by (blast intro: rev_image_eqI)
    then have "filter (\<lambda>u. f u = k) us = []" by (simp add: filter_empty_conv)
    with True show ?thesis by simp
  next
    case False
    with Cons show ?thesis by auto
  qed
qed simp

lemma sum_list_indicator: "(\<Sum>u\<leftarrow>us. if P u then 1 else 0) = length (filter P us)"
  by (induction us) auto

lemma sum_list_take_le: "sum_list (take k (xs :: nat list)) \<le> sum_list xs"
  by (metis append_take_drop_id sum_list_append le_add1)

end
