(* ===== verification/Frame.thy ===== *)
theory Frame
  imports Py_Prelude
begin

text \<open>
  The pandas objects the helpers read: a \<open>Series\<close> is a dtype and a list of cells; a
  \<open>DataFrame\<close> is an ordered list of named series of one common length. Row labels
  (the index) are not modelled: rows are addressed by position, which is all the
  helpers observe. The operations are the ones the helpers call: \<open>df[name]\<close>
  (\<open>KeyError\<close> when the column is missing), \<open>df.take(positions)\<close> and
  \<open>df.head(n)\<close>. The invariant \<open>frame_wf\<close> (distinct column names, equal
  lengths, every cell of the series' dtype) is kept by both row operations.
\<close>

datatype dtype = Int64 | Float64 | Object

record series =
  s_dtype :: dtype
  s_values :: "cell list"

record frame =
  fcols :: "(string \<times> series) list"
  nrows :: nat

fun conforms :: "dtype \<Rightarrow> cell \<Rightarrow> bool" where
  "conforms Int64 c = (case c of CInt _ \<Rightarrow> True | _ \<Rightarrow> False)"
| "conforms Float64 c = (case c of CFloat _ \<Rightarrow> True | CInf _ \<Rightarrow> True | CNaN \<Rightarrow> True | _ \<Rightarrow> False)"
| "conforms Object c = True"

definition series_wf :: "series \<Rightarrow> bool" where
  "series_wf s \<longleftrightarrow> list_all (conforms (s_dtype s)) (s_values s)"

definition frame_wf :: "frame \<Rightarrow> bool" where
  "frame_wf df \<longleftrightarrow> distinct (map fst (fcols df))
     \<and> (\<forall>(n, s) \<in> set (fcols df). length (s_values s) = nrows df \<and> series_wf s)"

text \<open>\<open>df[name]\<close>.\<close>

definition get_col :: "frame \<Rightarrow> string \<Rightarrow> series result" where
  "get_col df name =
     (case map_of (fcols df) name of None \<Rightarrow> Inl (KeyError name) | Some s \<Rightarrow> Inr s)"

text \<open>\<open>df.take(idx)\<close>: the rows at the given positions, in that order, in every column.\<close>

definition take_series :: "nat list \<Rightarrow> series \<Rightarrow> series" where
  "take_series idx s = s\<lparr>s_values := take_idx idx (s_values s)\<rparr>"

definition take_rows :: "nat list \<Rightarrow> frame \<Rightarrow> frame" where
  "take_rows idx df =
     \<lparr>fcols = map (\<lambda>(n, s). (n, take_series idx s)) (fcols df), nrows = length idx\<rparr>"

text \<open>\<open>df.head(n)\<close> is \<open>df.iloc[:n]\<close>: the first rows by Python slice semantics.\<close>

definition head_frame :: "int \<Rightarrow> frame \<Rightarrow> frame" where
  "head_frame n df = take_rows (py_head n [0..<nrows df]) df"

text \<open>The row at a position, as the list of its cells in column order.\<close>

definition row_at :: "frame \<Rightarrow> nat \<Rightarrow> cell list" where
  "row_at df i = map (\<lambda>(n, s). s_values s ! i) (fcols df)"

definition rows :: "frame \<Rightarrow> cell list list" where
  "rows df = map (row_at df) [0..<nrows df]"

section \<open>Lemmas\<close>

lemma get_col_Inr: "get_col df name = Inr s \<longleftrightarrow> map_of (fcols df) name = Some s"
  by (simp add: get_col_def split: option.splits)

lemma get_col_missing: "name \<notin> fst ` set (fcols df) \<Longrightarrow> get_col df name = Inl (KeyError name)"
  unfolding get_col_def by (subst map_of_eq_None_iff [THEN iffD2]) simp_all

lemma get_col_Inl: "get_col df name = Inl e \<Longrightarrow> e = KeyError name"
  by (simp add: get_col_def split: option.splits)

lemma get_col_wf:
  "frame_wf df \<Longrightarrow> get_col df name = Inr s \<Longrightarrow> length (s_values s) = nrows df \<and> series_wf s"
  by (auto simp: get_col_Inr frame_wf_def dest!: map_of_SomeD)

lemma map_of_map_snd:
  "map_of (map (\<lambda>(n, s). (n, f s)) xs) k = map_option f (map_of xs k)"
  by (induction xs) auto

lemma get_col_take_rows:
  "get_col (take_rows idx df) name = map_sum id (take_series idx) (get_col df name)"
  by (simp add: get_col_def take_rows_def map_of_map_snd split: option.splits)

lemma s_dtype_take_series [simp]: "s_dtype (take_series idx s) = s_dtype s"
  by (simp add: take_series_def)

lemma s_values_take_series [simp]: "s_values (take_series idx s) = take_idx idx (s_values s)"
  by (simp add: take_series_def)

lemma take_idx_nth: "i < length idx \<Longrightarrow> take_idx idx xs ! i = xs ! (idx ! i)"
  by (simp add: take_idx_def)

lemma set_take_idx: "\<forall>i\<in>set idx. i < length xs \<Longrightarrow> set (take_idx idx xs) \<subseteq> set xs"
  by (auto simp: take_idx_def)

lemma series_wf_take:
  "series_wf s \<Longrightarrow> \<forall>i\<in>set idx. i < length (s_values s) \<Longrightarrow> series_wf (take_series idx s)"
  using set_take_idx [of idx "s_values s"]
  by (auto simp: series_wf_def list_all_iff)

lemma fst_take_rows [simp]: "map fst (fcols (take_rows idx df)) = map fst (fcols df)"
  by (simp add: take_rows_def comp_def split_def)

lemma nrows_take_rows [simp]: "nrows (take_rows idx df) = length idx"
  by (simp add: take_rows_def)

lemma take_rows_wf:
  assumes "frame_wf df" and "\<forall>i\<in>set idx. i < nrows df"
  shows "frame_wf (take_rows idx df)"
proof -
  have "\<And>n s. (n, s) \<in> set (fcols df) \<Longrightarrow>
          length (take_idx idx (s_values s)) = length idx \<and> series_wf (take_series idx s)"
    using assms by (auto simp: frame_wf_def take_idx_def intro!: series_wf_take)
  then show ?thesis
    using assms(1) unfolding frame_wf_def
    by (auto simp: take_rows_def comp_def split_def)
qed

lemma nrows_head_frame:
  "nrows (head_frame n df) = (if 0 \<le> n then min (nat n) (nrows df) else nat (int (nrows df) + n))"
  by (simp add: head_frame_def length_py_head)

lemma head_frame_wf: "frame_wf df \<Longrightarrow> frame_wf (head_frame n df)"
proof -
  assume wf: "frame_wf df"
  obtain k where "py_head n [0..<nrows df] = take k [0..<nrows df]"
    using py_head_take by blast
  then have "\<forall>i\<in>set (py_head n [0..<nrows df]). i < nrows df"
    by (auto dest: in_set_takeD)
  with wf show ?thesis by (simp add: head_frame_def take_rows_wf)
qed

lemma row_at_take_rows:
  "i < length idx \<Longrightarrow> row_at (take_rows idx df) i = row_at df (idx ! i)"
  by (simp add: row_at_def take_rows_def comp_def split_def take_idx_nth)

lemma rows_take_rows: "rows (take_rows idx df) = map (row_at df) idx"
  by (rule nth_equalityI) (simp_all add: rows_def row_at_take_rows)

lemma get_col_head_sorted:
  "get_col (head_frame n (take_rows p df)) name =
     map_sum id (\<lambda>s. s\<lparr>s_values := take_idx (py_head n [0..<length p]) (take_idx p (s_values s))\<rparr>)
       (get_col df name)"
  by (cases "get_col df name") (simp_all add: head_frame_def get_col_take_rows take_series_def)

lemma get_col_Inl_iff: "get_col df name = Inl e \<longleftrightarrow> name \<notin> fst ` set (fcols df) \<and> e = KeyError name"
  by (auto simp: get_col_def simp flip: map_of_eq_None_iff split: option.splits)

lemma get_col_Inr_mem: "get_col df name = Inr s \<Longrightarrow> name \<in> fst ` set (fcols df)"
  by (auto simp: get_col_def split: option.splits dest: map_of_SomeD intro: rev_image_eqI)

lemma rows_take_rows_perm:
  "mset p = mset [0..<nrows df] \<Longrightarrow> mset (rows (take_rows p df)) = mset (rows df)"
  unfolding rows_take_rows by (simp add: rows_def)

end
