(* ===== verification/Py_Float.thy ===== *)
theory Py_Float
  imports Py_Prelude
begin

text \<open>
  Python floats and numpy \<open>float64\<close> are IEEE 754 binary64 numbers. A double is
  modelled by its exact rational value; \<open>to_double\<close> rounds a rational to the nearest
  double, halves to even (53-bit significand, subnormals below \<open>2^-1022\<close>, unbounded
  exponent; overflow to infinity is the separate test \<open>overflows\<close>). IEEE division and multiplication are correctly
  rounded, so \<open>a / b\<close> on doubles is \<open>to_double (a / b)\<close>. \<open>np.round(x, d)\<close>
  multiplies by \<open>10.0**d\<close>, applies \<open>rint\<close> and divides by \<open>10.0**d\<close>, each
  step rounded to a double. The lemmas bound the rounding error (half a unit in the
  last place, so at most \<open>|x| / 2^53\<close> above the subnormal range) and show that
  integers below \<open>2^53\<close> are doubles.
\<close>

text \<open>Number of binary digits of \<open>n > 0\<close>.\<close>

function bitlen :: "int \<Rightarrow> nat" where
  "bitlen n = (if n \<le> 0 then 0 else Suc (bitlen (n div 2)))"
  by pat_completeness auto
termination
  by (relation "measure (\<lambda>n. nat n)") auto

text \<open>For \<open>p, q > 0\<close>: the exponent \<open>e\<close> with \<open>2^e \<le> p / q < 2^(e+1)\<close>.\<close>

definition frac_exp :: "int \<Rightarrow> int \<Rightarrow> int" where
  "frac_exp p q =
     (let d = int (bitlen p) - int (bitlen q)
      in if (if 0 \<le> d then q * 2 ^ nat d \<le> p else q \<le> p * 2 ^ nat (- d)) then d else d - 1)"

definition bin_exp :: "rat \<Rightarrow> int" where
  "bin_exp a = (let (p, q) = quotient_of a in frac_exp p q)"

text \<open>The exponent of the last significand bit of the double nearest to \<open>x\<close>.\<close>

definition ulp_exp :: "rat \<Rightarrow> int" where
  "ulp_exp x = max (bin_exp \<bar>x\<bar> - 52) (-1074)"

definition to_double :: "rat \<Rightarrow> rat" where
  "to_double x =
     (if x = 0 then 0
      else sgn x * of_int (round_half_even (\<bar>x\<bar> / 2 powi ulp_exp x)) * 2 powi ulp_exp x)"

text \<open>
  The same rounding on a fraction \<open>p / q\<close> (\<open>q > 0\<close>) in integer arithmetic: the
  routine the evaluation lemmas use; \<open>to_double_frac\<close> shows it equal to
  \<open>to_double\<close>.
\<close>

definition double_of_frac :: "int \<Rightarrow> int \<Rightarrow> rat" where
  "double_of_frac p q =
     (if p = 0 then 0
      else let a = \<bar>p\<bar>; u = max (frac_exp a q - 52) (-1074);
               m = (if u \<le> 0 then rint_frac (a * 2 ^ nat (- u)) q else rint_frac a (q * 2 ^ nat u))
           in of_int (sgn p * m) * 2 powi u)"

definition is_double :: "rat \<Rightarrow> bool" where
  "is_double x \<longleftrightarrow> to_double x = x"

definition fmul :: "rat \<Rightarrow> rat \<Rightarrow> rat" where
  "fmul a b = to_double (a * b)"

definition fdiv :: "rat \<Rightarrow> rat \<Rightarrow> rat" where
  "fdiv a b = to_double (a / b)"

definition np_round :: "nat \<Rightarrow> rat \<Rightarrow> rat" where
  "np_round d x =
     (let f = to_double (10 ^ d) in fdiv (of_int (round_half_even (fmul x f))) f)"

text \<open>
  An operation overflows to an infinity when its exact result, rounded with an unbounded
  exponent, reaches \<open>2^1024\<close> in magnitude, i.e. lies beyond the largest finite double
  \<open>(2 - 2^-52) * 2^1023\<close> by half a unit in the last place or more.
\<close>

definition overflows :: "rat \<Rightarrow> bool" where
  "overflows x \<longleftrightarrow> 2 ^ 1024 \<le> \<bar>to_double x\<bar>"

declare bitlen.simps [simp del]

declare bitlen.simps [py_eval] frac_exp_def [py_eval] double_of_frac_def [py_eval]
  is_double_def [py_eval] fmul_def [py_eval] fdiv_def [py_eval] np_round_def [py_eval]

section \<open>Rounding error\<close>

lemma bitlen_bounds: "0 < n \<Longrightarrow> 2 ^ (bitlen n - 1) \<le> n \<and> n < 2 ^ bitlen n"
proof (induction n rule: bitlen.induct)
  case (1 n)
  show ?case
  proof (cases "n div 2 = 0")
    case True
    with "1.prems" have "n = 1" by linarith
    then show ?thesis by (simp add: bitlen.simps)
  next
    case False
    with "1.prems" have pos: "0 < n div 2" by linarith
    with "1.IH" "1.prems" have ih: "2 ^ (bitlen (n div 2) - 1) \<le> n div 2 \<and> n div 2 < 2 ^ bitlen (n div 2)"
      by simp
    have b: "bitlen n = Suc (bitlen (n div 2))" using "1.prems" by (simp add: bitlen.simps)
    have "0 < bitlen (n div 2)" using pos by (simp add: bitlen.simps)
    then have x2: "2 ^ bitlen (n div 2) = (2::int) * 2 ^ (bitlen (n div 2) - 1)"
      by (metis Suc_diff_1 power_Suc)
    have dm: "2 * (n div 2) \<le> n \<and> n \<le> 2 * (n div 2) + 1" by presburger
    define X where "X = (2::int) ^ (bitlen (n div 2) - 1)"
    have "X \<le> n div 2 \<and> n div 2 < 2 * X" using ih x2 by (simp add: X_def)
    then have "2 * X \<le> n \<and> n < 2 * (2 * X)" using dm by linarith
    then show ?thesis using b x2 by (simp add: X_def)
  qed
qed

lemma powi2_pos [simp]: "0 < (2::rat) powi e"
  by (simp add: power_int_def)

lemma powi2_diff: "(2::rat) powi (int m - int k) = 2 ^ m / 2 ^ k"
  by (simp add: power_int_diff)

lemma frac_exp_bounds:
  assumes p: "0 < p" and q: "0 < q"
  shows "2 powi frac_exp p q \<le> (of_int p / of_int q :: rat) \<and> of_int p / of_int q < (2::rat) powi (frac_exp p q + 1)"
proof -
  define a where "a = (of_int p / of_int q :: rat)"
  define lp where "lp = bitlen p"
  define lq where "lq = bitlen q"
  have bp: "2 ^ (lp - 1) \<le> p \<and> p < 2 ^ lp" using bitlen_bounds [OF p] by (simp add: lp_def)
  have bq: "2 ^ (lq - 1) \<le> q \<and> q < 2 ^ lq" using bitlen_bounds [OF q] by (simp add: lq_def)
  have lp1: "1 \<le> lp" using bp by (cases lp) auto
  have lq1: "1 \<le> lq" using bq by (cases lq) auto
  define d where "d = int lp - int lq"
  have up: "a < 2 powi (d + 1)"
  proof -
    have "(of_int p :: rat) < 2 ^ lp" using bp by (metis of_int_less_iff of_int_numeral of_int_power)
    moreover have "(2::rat) ^ (lq - 1) \<le> of_int q" using bq by (metis of_int_le_iff of_int_numeral of_int_power)
    ultimately have "of_int p / of_int q < (2::rat) ^ lp / 2 ^ (lq - 1)"
      using p by (intro frac_less) simp_all
    moreover have "d + 1 = int lp - int (lq - 1)" using lq1 by (simp add: d_def)
    ultimately show ?thesis by (simp add: a_def powi2_diff)
  qed
  have low: "2 powi (d - 1) < a"
  proof -
    have "(2::rat) ^ (lp - 1) \<le> of_int p" using bp by (metis of_int_le_iff of_int_numeral of_int_power)
    moreover have "(of_int q :: rat) < 2 ^ lq" using bq by (metis of_int_less_iff of_int_numeral of_int_power)
    ultimately have "(2::rat) ^ (lp - 1) / 2 ^ lq < of_int p / of_int q"
      using q by (intro frac_less2) simp_all
    moreover have "d - 1 = int (lp - 1) - int lq" using lp1 by (simp add: d_def)
    ultimately show ?thesis by (simp add: a_def powi2_diff)
  qed
  have cmp: "(if 0 \<le> d then q * 2 ^ nat d \<le> p else q \<le> p * 2 ^ nat (- d)) \<longleftrightarrow> 2 powi d \<le> a"
  proof (cases "0 \<le> d")
    case True
    then have "(2 powi d \<le> a) = ((of_int (q * 2 ^ nat d) :: rat) \<le> of_int p)"
      using q by (simp add: a_def power_int_def field_simps)
    then have "(2 powi d \<le> a) = (q * 2 ^ nat d \<le> p)" by (simp only: of_int_le_iff)
    with True show ?thesis by simp
  next
    case False
    then have "(2 powi d \<le> a) = ((of_int q :: rat) \<le> of_int (p * 2 ^ nat (- d)))"
      using q by (simp add: a_def power_int_def field_simps)
    then have "(2 powi d \<le> a) = (q \<le> p * 2 ^ nat (- d))" by (simp only: of_int_le_iff)
    with False show ?thesis by simp
  qed
  have be: "frac_exp p q = (if 2 powi d \<le> a then d else d - 1)"
    unfolding frac_exp_def Let_def cmp [symmetric] by (simp add: d_def lp_def lq_def)
  show ?thesis
  proof (cases "2 powi d \<le> a")
    case True
    with be up show ?thesis by (simp add: a_def)
  next
    case False
    with be low show ?thesis by (simp add: a_def)
  qed
qed


lemma bin_exp_bounds:
  assumes "0 < a"
  shows "2 powi bin_exp a \<le> a \<and> a < 2 powi (bin_exp a + 1)"
proof -
  obtain p q where pq: "quotient_of a = (p, q)" by (cases "quotient_of a")
  then have q: "0 < q" and a: "a = of_int p / of_int q"
    using quotient_of_denom_pos quotient_of_div by blast+
  with assms have p: "0 < p" by (simp add: zero_less_divide_iff)
  have "bin_exp a = frac_exp p q" by (simp add: bin_exp_def pq)
  with frac_exp_bounds [OF p q] a show ?thesis by simp
qed

lemma exp_unique:
  assumes "2 powi e \<le> a" "a < 2 powi (e + 1)" "2 powi e' \<le> a" "a < (2::rat) powi (e' + 1)"
  shows "e = e'"
proof (rule ccontr)
  assume "e \<noteq> e'"
  then consider "e + 1 \<le> e'" | "e' + 1 \<le> e" by linarith
  then show False
  proof cases
    case 1
    then have "(2::rat) powi (e + 1) \<le> 2 powi e'" by (intro power_int_increasing) simp_all
    with assms show False by simp
  next
    case 2
    then have "(2::rat) powi (e' + 1) \<le> 2 powi e" by (intro power_int_increasing) simp_all
    with assms show False by simp
  qed
qed

lemma bin_exp_frac: "0 < p \<Longrightarrow> 0 < q \<Longrightarrow> bin_exp (of_int p / of_int q) = frac_exp p q"
  using bin_exp_bounds [of "of_int p / of_int q"] frac_exp_bounds [of p q]
  by (intro exp_unique [of _ "of_int p / of_int q"]) (simp_all add: zero_less_divide_iff)

lemma to_double_err: "\<bar>to_double x - x\<bar> \<le> 2 powi ulp_exp x / 2"
proof (cases "x = 0")
  case False
  define U where "U = (2::rat) powi ulp_exp x"
  have U: "0 < U" by (simp add: U_def)
  define m where "m = round_half_even (\<bar>x\<bar> / U)"
  have "\<bar>of_int m - \<bar>x\<bar> / U\<bar> \<le> 1/2" unfolding m_def by (rule round_half_even_err)
  then have "\<bar>of_int m * U - \<bar>x\<bar>\<bar> \<le> U / 2"
    using U by (simp add: field_simps abs_le_iff) 
  moreover have "to_double x - x = sgn x * (of_int m * U - \<bar>x\<bar>)"
    using False by (simp add: to_double_def U_def m_def algebra_simps abs_mult_sgn)
  ultimately show ?thesis by (simp add: U_def abs_mult abs_sgn_eq False)
qed (simp add: to_double_def less_imp_le)

lemma to_double_rel:
  assumes "x = 0 \<or> 2 powi (-1022) \<le> \<bar>x\<bar>"
  shows "\<bar>to_double x - x\<bar> \<le> \<bar>x\<bar> / 2 ^ 53"
proof (cases "x = 0")
  case False
  with assms have low: "2 powi (-1022) \<le> \<bar>x\<bar>" by simp
  have e: "2 powi bin_exp \<bar>x\<bar> \<le> \<bar>x\<bar>" "\<bar>x\<bar> < 2 powi (bin_exp \<bar>x\<bar> + 1)"
    using bin_exp_bounds [of "\<bar>x\<bar>"] False by simp_all
  have "-1022 \<le> bin_exp \<bar>x\<bar>"
  proof (rule ccontr)
    assume "\<not> -1022 \<le> bin_exp \<bar>x\<bar>"
    then have "(2::rat) powi (bin_exp \<bar>x\<bar> + 1) \<le> 2 powi (-1022)"
      by (intro power_int_increasing) simp_all
    with e low show False by simp
  qed
  then have "ulp_exp x = bin_exp \<bar>x\<bar> - 52" by (simp add: ulp_exp_def)
  then have "(2::rat) powi ulp_exp x / 2 = 2 powi bin_exp \<bar>x\<bar> / 2 ^ 53"
    by (simp add: power_int_diff)
  also have "\<dots> \<le> \<bar>x\<bar> / 2 ^ 53" using e by (simp add: divide_right_mono)
  finally show ?thesis using to_double_err [of x] by simp
qed (simp add: to_double_def)

lemma to_double_int:
  assumes "\<bar>n\<bar> < 2 ^ 53"
  shows "to_double (of_int n) = of_int n"
proof (cases "n = 0")
  case False
  define a where "a = (of_int \<bar>n\<bar> :: rat)"
  have a1: "1 \<le> a" using False by (simp add: a_def)
  have a53: "a < 2 powi 53" using assms by (simp add: a_def)
  define e where "e = bin_exp a"
  have be: "2 powi e \<le> a" "a < 2 powi (e + 1)" using bin_exp_bounds [of a] a1 by (simp_all add: e_def)
  have "e < 53"
  proof (rule ccontr)
    assume "\<not> e < 53"
    then have "(2::rat) powi 53 \<le> 2 powi e" by (intro power_int_increasing) simp_all
    with be a53 show False by simp
  qed
  moreover have "0 \<le> e"
  proof (rule ccontr)
    assume "\<not> 0 \<le> e"
    then have "(2::rat) powi (e + 1) \<le> 2 powi 0" by (intro power_int_increasing) simp_all
    with be a1 show False by simp
  qed
  ultimately have u: "ulp_exp (of_int n) = e - 52" by (simp add: ulp_exp_def e_def a_def)
  define k where "k = nat (52 - e)"
  have uk: "e - 52 = - int k" using \<open>e < 53\<close> by (simp add: k_def)
  have "\<bar>of_int n\<bar> / 2 powi ulp_exp (of_int n) = (of_int (\<bar>n\<bar> * 2 ^ k) :: rat)"
    by (simp add: u uk power_int_minus field_simps)
  then have r: "round_half_even (\<bar>of_int n\<bar> / 2 powi ulp_exp (of_int n)) = \<bar>n\<bar> * 2 ^ k"
    by (simp only: round_half_even_of_int)
  have "to_double (of_int n) = sgn (of_int n) * of_int (\<bar>n\<bar> * 2 ^ k) * 2 powi (- int k)"
    using False unfolding to_double_def r by (simp add: u uk)
  also have "\<dots> = of_int n"
    by (simp add: power_int_minus field_simps abs_mult_sgn)
  finally show ?thesis .
qed (simp add: to_double_def)

lemma to_double_frac:
  assumes q: "0 < q"
  shows "to_double (of_int p / of_int q) = double_of_frac p q"
proof (cases "p = 0")
  case True
  then show ?thesis
    by (simp add: to_double_def double_of_frac_def)
next
  case False
  define x where "x = (of_int p / of_int q :: rat)"
  define u where "u = max (frac_exp \<bar>p\<bar> q - 52) (-1074)"
  have x0: "x \<noteq> 0" using False q
    by (simp add: x_def)
  have ax: "\<bar>x\<bar> = of_int \<bar>p\<bar> / of_int q" using q unfolding x_def abs_divide
    by (simp)
  have "bin_exp \<bar>x\<bar> = frac_exp \<bar>p\<bar> q" using False q bin_exp_frac [of "\<bar>p\<bar>" q] unfolding ax
    by (simp)
  then have ue: "ulp_exp x = u"
    by (simp add: ulp_exp_def u_def)
  have m: "round_half_even (\<bar>x\<bar> / 2 powi u) =
     (if u \<le> 0 then rint_frac (\<bar>p\<bar> * 2 ^ nat (- u)) q else rint_frac \<bar>p\<bar> (q * 2 ^ nat u))"
  proof (cases "u \<le> 0")
    case True
    then have "\<bar>x\<bar> / 2 powi u = of_int (\<bar>p\<bar> * 2 ^ nat (- u)) / of_int q"
      by (simp add: ax power_int_def field_simps)
    with True show ?thesis using round_half_even_frac [OF q, of "\<bar>p\<bar> * 2 ^ nat (- u)"]
      by (simp)
  next
    case False
    then have "\<bar>x\<bar> / 2 powi u = of_int \<bar>p\<bar> / of_int (q * 2 ^ nat u)"
      by (simp add: ax power_int_def field_simps)
    moreover have "0 < q * 2 ^ nat u" using q
      by (simp)
    ultimately show ?thesis using False round_half_even_frac [of "q * 2 ^ nat u" "\<bar>p\<bar>"]
      by (simp)
  qed
  have sg: "sgn x = of_int (sgn p)" using q
    by (simp add: x_def sgn_if zero_less_divide_iff)
  have dof: "double_of_frac p q = of_int (sgn p * (if u \<le> 0 then rint_frac (\<bar>p\<bar> * 2 ^ nat (- u)) q
      else rint_frac \<bar>p\<bar> (q * 2 ^ nat u))) * 2 powi u"
    using False unfolding double_of_frac_def Let_def u_def by (simp only: if_False)
  have "to_double x = sgn x * of_int (round_half_even (\<bar>x\<bar> / 2 powi u)) * 2 powi u"
    using x0 by (simp add: to_double_def ue)
  also have "\<dots> = double_of_frac p q"
    by (simp add: dof m sg)
  finally have "to_double x = double_of_frac p q" .
  then show ?thesis by (simp only: x_def)
qed

lemma to_double_numeral [py_eval]:
  "to_double (numeral a / numeral b) = double_of_frac (numeral a) (numeral b)"
  "to_double (- (numeral a / numeral b)) = double_of_frac (- numeral a) (numeral b)"
  "to_double (1 / numeral b) = double_of_frac 1 (numeral b)"
  "to_double (- (1 / numeral b)) = double_of_frac (- 1) (numeral b)"
  "to_double (numeral a) = double_of_frac (numeral a) 1"
  "to_double (- numeral a) = double_of_frac (- numeral a) 1"
  "to_double 1 = double_of_frac 1 1"
  "to_double (- 1) = double_of_frac (- 1) 1"
  using to_double_frac [of "numeral b" "numeral a"] to_double_frac [of "numeral b" "- numeral a"]
    to_double_frac [of "numeral b" 1] to_double_frac [of "numeral b" "- 1"]
    to_double_frac [of 1 "numeral a"] to_double_frac [of 1 "- numeral a"]
    to_double_frac [of 1 1] to_double_frac [of 1 "- 1"]
  by simp_all

lemma to_double_zero [simp, py_eval]: "to_double 0 = 0"
  by (simp add: to_double_def)

subsection \<open>Relative error away from the subnormal range\<close>

lemma round_half_even_nonneg: "0 \<le> y \<Longrightarrow> 0 \<le> round_half_even y"
proof -
  assume y: "0 \<le> y"
  have "(of_int (- 1) :: rat) < of_int (round_half_even y)"
    using round_half_even_err [of y] y unfolding abs_le_iff by simp
  then have "- 1 < round_half_even y" by (simp only: of_int_less_iff)
  then show ?thesis by linarith
qed

lemma to_double_nonneg: "0 \<le> x \<Longrightarrow> 0 \<le> to_double x"
  by (simp add: to_double_def round_half_even_nonneg)

lemma tiny_bound: "(2::rat) powi (-1022) \<le> 1 / 2 ^ 60"
proof -
  have h: "(2::rat) powi (-1022) \<le> 2 powi (-60)" by (rule power_int_increasing) simp_all
  have e: "(2::rat) powi (-60) = 1 / 2 ^ 60" by (simp add: power_int_def power_one_over)
  show ?thesis using h by (simp only: e)
qed

lemma to_double_rel_big:
  "x = 0 \<or> 1 / 2 ^ 60 \<le> \<bar>x\<bar> \<Longrightarrow> \<bar>to_double x - x\<bar> \<le> \<bar>x\<bar> / 2 ^ 53"
  using tiny_bound by (intro to_double_rel) auto

lemma to_double_within:
  assumes "x = 0 \<or> 1 / 2 ^ 60 \<le> \<bar>x\<bar>" and "\<bar>x\<bar> \<le> m"
  shows "x - m / 2 ^ 53 \<le> to_double x \<and> to_double x \<le> x + m / 2 ^ 53"
proof -
  have "\<bar>x\<bar> / 2 ^ 53 \<le> m / 2 ^ 53" using assms(2) by (rule divide_right_mono) simp
  with to_double_rel_big [OF assms(1)] have "\<bar>to_double x - x\<bar> \<le> m / 2 ^ 53" by (rule order_trans)
  then show ?thesis unfolding abs_diff_le_iff by simp
qed

lemma to_double_10000: "to_double 10000 = 10000"
  using to_double_int [of 10000] by simp

subsection \<open>Overflow\<close>

text \<open>Magnitudes up to \<open>2^1023\<close> never overflow; beyond \<open>2^1024 (1 + 2^-52)\<close> they always do.\<close>

lemma not_overflows [py_eval]:
  assumes "x = 0 \<or> 1 / 2 ^ 60 \<le> \<bar>x\<bar>" and "\<bar>x\<bar> \<le> 2 ^ 1023"
  shows "overflows x = False"
proof -
  have "x - \<bar>x\<bar> / 2 ^ 53 \<le> to_double x \<and> to_double x \<le> x + \<bar>x\<bar> / 2 ^ 53"
    using assms(1) by (rule to_double_within) simp
  then have "\<bar>to_double x\<bar> < 2 ^ 1024"
    using assms(2) unfolding abs_less_iff by (cases "0 \<le> x") (simp_all add: abs_if; linarith)+
  then show ?thesis by (simp add: overflows_def)
qed

lemma overflows_big:
  assumes "2 ^ 1024 * (1 + 1 / 2 ^ 52) \<le> \<bar>x\<bar>"
  shows "overflows x"
proof -
  have "x = 0 \<or> 1 / 2 ^ 60 \<le> \<bar>x\<bar>" using assms by simp
  then have "x - \<bar>x\<bar> / 2 ^ 53 \<le> to_double x \<and> to_double x \<le> x + \<bar>x\<bar> / 2 ^ 53"
    by (rule to_double_within) simp
  then have "2 ^ 1024 \<le> \<bar>to_double x\<bar>"
    using assms by (cases "0 \<le> x") (simp_all add: abs_if; linarith)+
  then show ?thesis by (simp add: overflows_def)
qed

subsection \<open>Monotonicity\<close>

text \<open>
  Rounding to the nearest double, ties to even, is monotone; so are the float64
  product, quotient and \<open>np.round\<close> on non-negative arguments.
\<close>

lemma round_half_even_floor: "\<lfloor>x\<rfloor> \<le> round_half_even x \<and> round_half_even x \<le> \<lfloor>x\<rfloor> + 1"
  by (simp add: round_half_even_def Let_def)

lemma round_half_even_mono:
  assumes xy: "x \<le> y"
  shows "round_half_even x \<le> round_half_even y"
proof (cases "\<lfloor>x\<rfloor> < \<lfloor>y\<rfloor>")
  case True
  then show ?thesis using round_half_even_floor [of x] round_half_even_floor [of y] by linarith
next
  case False
  with floor_mono [OF xy] have eq: "\<lfloor>y\<rfloor> = \<lfloor>x\<rfloor>" by linarith
  show ?thesis
    using xy unfolding round_half_even_def Let_def eq by (simp split: if_splits; linarith)
qed

lemma powi2_nonneg_int: "0 \<le> k \<Longrightarrow> (2::rat) powi k = of_int (2 ^ nat k)"
  by (simp add: power_int_def)

lemma powi2_div: "(2::rat) powi a / 2 powi b = 2 powi (a - b)"
  by (simp add: power_int_diff)

lemma to_double_pos:
  "0 < x \<Longrightarrow> to_double x = of_int (round_half_even (x / 2 powi ulp_exp x)) * 2 powi ulp_exp x"
  by (simp add: to_double_def)

text \<open>Rounding a value in \<open>[2^e, 2^(e+1))\<close> at unit \<open>2^u\<close>, \<open>u \<le> e\<close>: the result lies in \<open>[2^e, 2^max (e+1) u]\<close>.\<close>

lemma round_at_unit_bounds:
  assumes lo: "2 powi e \<le> z" and hi: "z < 2 powi (e + 1)" and ue: "u \<le> B" and eB: "e + 1 \<le> B"
  shows "of_int (round_half_even (z / 2 powi u)) * 2 powi u \<le> (2::rat) powi B"
proof -
  have "z / 2 powi u \<le> 2 powi B / 2 powi u"
    using hi power_int_increasing [of "e + 1" B "2::rat"] eB
    by (intro divide_right_mono) simp_all
  also have "\<dots> = of_int (2 ^ nat (B - u))" using ue by (simp add: powi2_div powi2_nonneg_int)
  finally have "round_half_even (z / 2 powi u) \<le> 2 ^ nat (B - u)"
    using round_half_even_mono round_half_even_of_int by metis
  then have "(of_int (round_half_even (z / 2 powi u)) :: rat) \<le> of_int (2 ^ nat (B - u))"
    by (simp only: of_int_le_iff)
  also have "\<dots> = 2 powi B / 2 powi u" using ue by (simp add: powi2_div powi2_nonneg_int)
  finally show ?thesis by (simp add: field_simps)
qed

lemma round_at_unit_lower:
  assumes lo: "2 powi e \<le> z" and ue: "u \<le> e"
  shows "(2::rat) powi e \<le> of_int (round_half_even (z / 2 powi u)) * 2 powi u"
proof -
  have "of_int (2 ^ nat (e - u)) = 2 powi e / (2::rat) powi u" using ue by (simp add: powi2_div powi2_nonneg_int)
  also have "\<dots> \<le> z / 2 powi u" using lo by (intro divide_right_mono) simp_all
  finally have "2 ^ nat (e - u) \<le> round_half_even (z / 2 powi u)"
    using round_half_even_mono round_half_even_of_int by metis
  then have le: "(of_int (2 ^ nat (e - u)) :: rat) \<le> of_int (round_half_even (z / 2 powi u))"
    by (simp only: of_int_le_iff)
  have eq: "(of_int (2 ^ nat (e - u)) :: rat) = 2 powi e / 2 powi u"
    using ue by (simp add: powi2_div powi2_nonneg_int)
  have "2 powi e / 2 powi u \<le> (of_int (round_half_even (z / 2 powi u)) :: rat)"
    using le unfolding eq .
  then show ?thesis by (simp add: pos_divide_le_eq)
qed

lemma to_double_mono:
  assumes x0: "0 \<le> x" and xy: "x \<le> y"
  shows "to_double x \<le> to_double y"
proof (cases "x = 0")
  case True
  then show ?thesis using xy by (simp add: to_double_nonneg)
next
  case False
  with x0 have xp: "0 < x" by simp
  with xy have yp: "0 < y" by simp
  define ex where "ex = bin_exp x"
  define ey where "ey = bin_exp y"
  have bx: "2 powi ex \<le> x" "x < 2 powi (ex + 1)" using bin_exp_bounds [OF xp] by (simp_all add: ex_def)
  have by': "2 powi ey \<le> y" "y < 2 powi (ey + 1)" using bin_exp_bounds [OF yp] by (simp_all add: ey_def)
  have "ex \<le> ey"
  proof (rule ccontr)
    assume "\<not> ex \<le> ey"
    then have "(2::rat) powi (ey + 1) \<le> 2 powi ex" by (intro power_int_increasing) simp_all
    with bx by' xy show False by simp
  qed
  define ux where "ux = ulp_exp x"
  define uy where "uy = ulp_exp y"
  have ux: "ux = max (ex - 52) (-1074)" and uy: "uy = max (ey - 52) (-1074)"
    using xp yp by (simp_all add: ux_def uy_def ulp_exp_def ex_def ey_def)
  have tx: "to_double x = of_int (round_half_even (x / 2 powi ux)) * 2 powi ux"
    using xp by (simp add: to_double_pos ux_def)
  have ty: "to_double y = of_int (round_half_even (y / 2 powi uy)) * 2 powi uy"
    using yp by (simp add: to_double_pos uy_def)
  show ?thesis
  proof (cases "ux = uy")
    case True
    have "x / 2 powi ux \<le> y / 2 powi ux" using xy by (intro divide_right_mono) simp_all
    then have "round_half_even (x / 2 powi ux) \<le> round_half_even (y / 2 powi ux)"
      by (rule round_half_even_mono)
    then have "(of_int (round_half_even (x / 2 powi ux)) :: rat) \<le> of_int (round_half_even (y / 2 powi ux))"
      by (simp only: of_int_le_iff)
    then show ?thesis using True tx ty by (simp add: mult_right_mono)
  next
    case False
    with \<open>ex \<le> ey\<close> ux uy have lt: "ux < uy" "uy = ey - 52" "ex < ey" by auto
    define B where "B = max (ex + 1) ux"
    have "to_double x \<le> 2 powi B"
      unfolding tx using bx by (rule round_at_unit_bounds) (simp_all add: B_def)
    also have "\<dots> \<le> 2 powi ey"
      using lt by (intro power_int_increasing) (simp_all add: B_def)
    also have "\<dots> \<le> to_double y"
      unfolding ty using by'(1) by (rule round_at_unit_lower) (simp add: lt)
    finally show ?thesis .
  qed
qed

lemma fmul_mono: "0 \<le> a \<Longrightarrow> a \<le> b \<Longrightarrow> 0 \<le> c \<Longrightarrow> fmul a c \<le> fmul b c"
  unfolding fmul_def by (intro to_double_mono mult_right_mono) simp_all

lemma fdiv_mono: "0 \<le> a \<Longrightarrow> a \<le> b \<Longrightarrow> 0 \<le> c \<Longrightarrow> fdiv a c \<le> fdiv b c"
  unfolding fdiv_def by (intro to_double_mono divide_right_mono) simp_all

lemma fmul_nonneg: "0 \<le> a \<Longrightarrow> 0 \<le> c \<Longrightarrow> 0 \<le> fmul a c"
  unfolding fmul_def by (simp add: to_double_nonneg)

lemma fdiv_nonneg: "0 \<le> a \<Longrightarrow> 0 \<le> c \<Longrightarrow> 0 \<le> fdiv a c"
  unfolding fdiv_def by (simp add: to_double_nonneg)

lemma to_double_10_pow_nonneg: "0 \<le> to_double (10 ^ d)"
  by (simp add: to_double_nonneg)

lemma np_round_nonneg: "0 \<le> a \<Longrightarrow> 0 \<le> np_round d a"
  unfolding np_round_def Let_def
  by (intro fdiv_nonneg to_double_10_pow_nonneg)
     (simp add: round_half_even_nonneg fmul_nonneg to_double_10_pow_nonneg)

lemma np_round_mono: "0 \<le> a \<Longrightarrow> a \<le> b \<Longrightarrow> np_round d a \<le> np_round d b"
  unfolding np_round_def Let_def
proof (intro fdiv_mono to_double_10_pow_nonneg)
  assume "0 \<le> a" "a \<le> b"
  then have "round_half_even (fmul a (to_double (10 ^ d))) \<le> round_half_even (fmul b (to_double (10 ^ d)))"
    by (intro round_half_even_mono fmul_mono to_double_10_pow_nonneg)
  then show "(of_int (round_half_even (fmul a (to_double (10 ^ d)))) :: rat)
      \<le> of_int (round_half_even (fmul b (to_double (10 ^ d))))" by (simp only: of_int_le_iff)
  show "0 \<le> (of_int (round_half_even (fmul a (to_double (10 ^ d)))) :: rat)"
    using \<open>0 \<le> a\<close> by (simp add: round_half_even_nonneg fmul_nonneg to_double_10_pow_nonneg)
qed

end
