(* ===== verification/Py_Format.thy ===== *)
theory Py_Format
  imports Py_Float
begin

text \<open>
  How Python turns a cell into text (\<open>str(x)\<close>, \<open>'{}'.format(x)\<close>,
  \<open>astype(str)\<close>) and how \<open>np.round\<close> acts on a single cell. Integers print in
  decimal. A float (a double, see \<open>Py_Float\<close>) prints as \<open>repr\<close> does: the
  fewest significant digits (at most 17) that read back as the same double, in fixed
  notation when the decimal point position \<open>decpt\<close> satisfies
  \<open>-4 < decpt \<le> 16\<close>, with a trailing \<open>.0\<close> for integral values, and in
  exponent notation (\<open>1e-05\<close>, \<open>1.5e+16\<close>) otherwise. Digit arithmetic is on
  \<open>int\<close>, whose numerals the kernel evaluates in binary.
\<close>

definition digit_char :: "int \<Rightarrow> char" where
  "digit_char d = ''0123456789'' ! nat d"

text \<open>Decimal digits of \<open>n \<ge> 0\<close>, most significant first.\<close>

function digits_int :: "int \<Rightarrow> string" where
  "digits_int n =
     (if n < 10 then [digit_char n] else digits_int (n div 10) @ [digit_char (n mod 10)])"
  by pat_completeness auto
termination
  by (relation "measure (\<lambda>n. nat n)") auto

definition int_repr :: "int \<Rightarrow> string" where
  "int_repr i = (if i < 0 then CHR ''-'' # digits_int (- i) else digits_int i)"

definition pow10 :: "int \<Rightarrow> rat" where
  "pow10 e = (if 0 \<le> e then 10 ^ nat e else 1 / 10 ^ nat (- e))"

text \<open>For \<open>q > 0\<close>: the exponent \<open>E\<close> with \<open>10^E \<le> q < 10^(E+1)\<close>.\<close>

definition dec_exp :: "rat \<Rightarrow> int" where
  "dec_exp q =
     (let (a, b) = quotient_of q;
          d = int (length (digits_int a)) - int (length (digits_int b))
      in if pow10 d \<le> q then d else d - 1)"

text \<open>
  For \<open>a > 0\<close>: \<open>a\<close> rounded to \<open>k\<close> significant decimal digits (halves to
  even), as \<open>(m, p)\<close> standing for \<open>m * 10^p\<close>.
\<close>

definition round_sig :: "nat \<Rightarrow> rat \<Rightarrow> int \<times> int" where
  "round_sig k a =
     (let p = dec_exp a - int k + 1 in (round_half_even (a / pow10 p), p))"

definition dec_val :: "int \<times> int \<Rightarrow> rat" where
  "dec_val mp = of_int (fst mp) * pow10 (snd mp)"

text \<open>
  \<open>repr\<close> picks the fewest significant digits (at most 17) whose decimal reads back
  as the same double.
\<close>

definition shortest_digits :: "rat \<Rightarrow> int \<times> int" where
  "shortest_digits a =
     (case find (\<lambda>k. to_double (dec_val (round_sig k a)) = a) [1..<18] of
        Some k \<Rightarrow> round_sig k a
      | None \<Rightarrow> round_sig 17 a)"

function strip_mp :: "int \<times> int \<Rightarrow> int \<times> int" where
  "strip_mp (m, p) = (if 0 < m \<and> m mod 10 = 0 then strip_mp (m div 10, p + 1) else (m, p))"
  by pat_completeness auto
termination
  by (relation "measure (\<lambda>(m, p). nat m)") auto

definition exp_repr :: "int \<Rightarrow> string" where
  "exp_repr x =
     (if x < 0 then CHR ''-'' else CHR ''+'')
       # (let ds = digits_int \<bar>x\<bar> in if length ds < 2 then CHR ''0'' # ds else ds)"

definition format_digits :: "string \<Rightarrow> int \<Rightarrow> string" where
  "format_digits d decpt =
     (if -4 < decpt \<and> decpt \<le> 16 then
        (if decpt \<le> 0 then ''0.'' @ replicate (nat (- decpt)) CHR ''0'' @ d
         else if length d \<le> nat decpt then d @ replicate (nat decpt - length d) CHR ''0'' @ ''.0''
         else take (nat decpt) d @ ''.'' @ drop (nat decpt) d)
      else take 1 d @ (if 1 < length d then ''.'' @ drop 1 d else [])
             @ ''e'' @ exp_repr (decpt - 1))"

definition float_repr :: "rat \<Rightarrow> string" where
  "float_repr q =
     (if q = 0 then ''0.0''
      else let (m, p) = strip_mp (shortest_digits \<bar>q\<bar>); ds = digits_int m
           in (if q < 0 then ''-'' else []) @ format_digits ds (int (length ds) + p))"

text \<open>\<open>str(x)\<close> of a cell; infinities print as \<open>inf\<close> and \<open>-inf\<close>, a missing value as \<open>nan\<close>.\<close>

fun py_str :: "cell \<Rightarrow> string" where
  "py_str (CInt i) = int_repr i"
| "py_str (CFloat q) = float_repr q"
| "py_str (CInf b) = (if b then ''inf'' else ''-inf'')"
| "py_str (CStr s) = s"
| "py_str CNaN = ''nan''"

text \<open>
  \<open>np.round(x, d)\<close> on one value: integers are returned unchanged, floats rounded
  as \<open>np_round\<close> unless the scaling \<open>x * 10.0**d\<close> overflows, in which case the
  infinity of the sign of \<open>x\<close> comes out of \<open>rint\<close> and the division; infinities
  and NaN stay as they are, and a string raises \<open>TypeError\<close>.
\<close>

definition rint_type_error :: py_error where
  "rint_type_error = TypeError ''ufunc rint not supported for the input types''"

fun np_round_cell :: "nat \<Rightarrow> cell \<Rightarrow> cell result" where
  "np_round_cell d (CInt i) = Inr (CInt i)"
| "np_round_cell d (CFloat q) =
     Inr (if overflows (q * to_double (10 ^ d)) then CInf (0 < q) else CFloat (np_round d q))"
| "np_round_cell d (CInf b) = Inr (CInf b)"
| "np_round_cell d (CStr s) = Inl rint_type_error"
| "np_round_cell d CNaN = Inr CNaN"

declare digits_int.simps [simp del] strip_mp.simps [simp del]

declare digit_char_def [py_eval] digits_int.simps [py_eval] int_repr_def [py_eval] pow10_def [py_eval]
  dec_exp_def [py_eval] round_sig_def [py_eval] dec_val_def [py_eval] shortest_digits_def [py_eval]
  strip_mp.simps [py_eval] exp_repr_def [py_eval] format_digits_def [py_eval] float_repr_def [py_eval]

lemma replicate_numeral_eval [py_eval]:
  "replicate (numeral k) x = x # replicate (pred_numeral k) x"
  by (simp add: numeral_eq_Suc)

end
