(* ===== verification/Plotly.thy ===== *)
theory Plotly
  imports Py_Prelude
begin

text \<open>
  The plotly graph objects the helpers build (\<open>go.Layout\<close>, \<open>go.Bar\<close>,
  \<open>go.Histogram\<close>, \<open>go.Box\<close>, \<open>go.Figure\<close>), as records holding exactly the
  attributes the helpers set; an attribute the code leaves unset is \<open>None\<close>.
  \<open>iplot(fig)\<close> only renders, so a helper is modelled as the function from its
  arguments to the figure it hands to \<open>iplot\<close> (or the exception it raises first).
  This theory also holds \<open>generate_layout_bar\<close>
  (\<^verbatim>\<open>src/Plotting/HelperFunctionsPlotlyPlotting.py\<close>), the layout both bar
  helpers share.
\<close>

record font =
  font_family :: "string option"
  font_size :: "nat option"
  font_color :: "string option"

record axis =
  ax_title :: "string option"
  ax_titlefont :: "font option"
  ax_tickfont :: "font option"

record layout =
  lay_autosize :: "bool option"
  lay_width :: "nat option"
  lay_height :: "nat option"
  lay_title :: "string option"
  lay_titlefont :: "font option"
  lay_xaxis :: "axis option"
  lay_yaxis :: "axis option"
  lay_font :: "font option"
  lay_barmode :: "string option"

record bar_trace =
  bar_name :: "string option"
  bar_x :: "cell list"
  bar_y :: "cell list"
  bar_text :: "cell list"
  bar_textposition :: "string option"
  bar_marker_color :: "string option"

record hist_trace =
  hist_x :: "cell list"
  hist_marker_color :: "string option"

record box_trace =
  box_y :: "cell list"
  box_name :: cell

datatype trace = Bar bar_trace | Histogram hist_trace | Box box_trace

record figure =
  fig_data :: "trace list"
  fig_layout :: layout

text \<open>\<open>go.Layout(title=t)\<close>: only the title set.\<close>

definition title_layout :: "string \<Rightarrow> layout" where
  "title_layout t =
     \<lparr>lay_autosize = None, lay_width = None, lay_height = None, lay_title = Some t,
      lay_titlefont = None, lay_xaxis = None, lay_yaxis = None, lay_font = None,
      lay_barmode = None\<rparr>"

definition courier_14_black :: font where
  "courier_14_black =
     \<lparr>font_family = Some ''Courier New, monospace'', font_size = Some 14, font_color = Some ''black''\<rparr>"

definition generate_layout_bar :: "string \<Rightarrow> layout" where
  "generate_layout_bar col_name =
     \<lparr>lay_autosize = Some False, lay_width = Some 800, lay_height = Some 600,
      lay_title = Some (''Distribution of '' @ col_name @ '' column''),
      lay_titlefont = Some courier_14_black,
      lay_xaxis = Some \<lparr>ax_title = None, ax_titlefont = None, ax_tickfont = Some courier_14_black\<rparr>,
      lay_yaxis = Some \<lparr>ax_title = Some ''Percentage'',
                        ax_titlefont = Some \<lparr>font_family = None, font_size = Some 14,
                                             font_color = Some ''black''\<rparr>,
                        ax_tickfont = Some courier_14_black\<rparr>,
      lay_font = Some \<lparr>font_family = Some ''Courier New, monospace'', font_size = Some 12,
                       font_color = Some ''white''\<rparr>,
      lay_barmode = None\<rparr>"

declare title_layout_def [py_eval] courier_14_black_def [py_eval] generate_layout_bar_def [py_eval]

end
