(* ===== verification/CountBar.thy ===== *)
theory CountBar
  imports Frame Py_Format Plotly
begin

text \<open>
  \<open>plot_count_bar(dataframe_name, col_name, top_n=None)\<close>
  (\<^verbatim>\<open>src/Plotting/HelperFunctionsPlotlyPlotting.py\<close>): the frequency bar chart of
  one categorical column. \<open>value_counts\<close> models pandas' \<open>Series.value_counts()\<close>:
  missing values dropped, one entry per distinct value in order of first appearance,
  then \<open>sort_values(ascending=False)\<close>, i.e. \<open>nargsort\<close> with numpy's
  \<open>argsort(kind='quicksort')\<close>, the parameter \<open>srt\<close>. \<open>top_n\<close> keeps
  the first rows by \<open>Series.head\<close>; the bar heights are
  \<open>np.round(counts / counts.sum(), 4) * 100\<close> in float64 arithmetic and each bar is
  labelled \<open>'{}%'.format(height)\<close>.
\<close>

definition count_in :: "cell list \<Rightarrow> cell \<Rightarrow> nat" where
  "count_in vs k = length (filter (\<lambda>c. cell_key c = cell_key k) vs)"

definition value_counts :: "(nat list \<Rightarrow> nat list) \<Rightarrow> series \<Rightarrow> (cell \<times> nat) list" where
  "value_counts srt s =
     (let vs = filter (\<lambda>c. \<not> is_na c) (s_values s);
          cs = map (\<lambda>k. (k, count_in vs k)) (unique vs)
      in take_idx (nargsort srt (map (\<lambda>kc. Some (snd kc)) cs)) cs)"

text \<open>\<open>np.round(temp.values.astype(float) / temp.values.sum(), 4) * 100\<close>.\<close>

definition count_percentages :: "nat list \<Rightarrow> rat list" where
  "count_percentages cs =
     (let total = to_double (of_nat (sum_list cs))
      in map (\<lambda>c. fmul (np_round 4 (fdiv (to_double (of_nat c)) total)) 100) cs)"

definition percent_label :: "rat \<Rightarrow> cell" where
  "percent_label y = CStr (float_repr y @ ''%'')"

definition count_bar_trace :: "(cell \<times> nat) list \<Rightarrow> bar_trace" where
  "count_bar_trace temp =
     (let ys = count_percentages (map snd temp)
      in \<lparr>bar_name = None, bar_x = map (\<lambda>kc. CStr (py_str (fst kc))) temp,
          bar_y = map CFloat ys, bar_text = map percent_label ys,
          bar_textposition = Some ''auto'', bar_marker_color = Some ''#0047AB''\<rparr>)"

definition plot_count_bar ::
  "(nat list \<Rightarrow> nat list) \<Rightarrow> frame \<Rightarrow> string \<Rightarrow> int option \<Rightarrow> figure result" where
  "plot_count_bar srt df col_name top_n =
     bindr (get_col df col_name) (\<lambda>s.
       let temp = value_counts srt s;
           temp' = (case top_n of None \<Rightarrow> temp | Some n \<Rightarrow> py_head n temp)
       in Inr \<lparr>fig_data = [Bar (count_bar_trace temp')],
               fig_layout = generate_layout_bar col_name\<rparr>)"

text \<open>
  The column of the running example: a city column with a missing value, as
  \<open>pd.DataFrame({'city': ['A', 'A', np.nan, 'B', 'C', 'A']})\<close>.
\<close>

definition city_col :: series where
  "city_col = \<lparr>s_dtype = Object,
     s_values = [CStr ''A'', CStr ''A'', CNaN, CStr ''B'', CStr ''C'', CStr ''A'']\<rparr>"

definition city_frame :: frame where
  "city_frame = \<lparr>fcols = [(''city'', city_col)], nrows = 6\<rparr>"

declare count_in_def [py_eval] value_counts_def [py_eval] count_percentages_def [py_eval]
  percent_label_def [py_eval] count_bar_trace_def [py_eval] plot_count_bar_def [py_eval]
  city_col_def [py_eval] city_frame_def [py_eval] get_col_def [py_eval]


section \<open>Lemmas on value counts\<close>

abbreviation non_na :: "series \<Rightarrow> cell list" where
  "non_na s \<equiv> filter (\<lambda>c. \<not> is_na c) (s_values s)"

lemma value_counts_perm:
  "is_argsort srt \<Longrightarrow>
   mset (value_counts srt s) = mset (map (\<lambda>k. (k, count_in (non_na s) k)) (unique (non_na s)))"
  unfolding value_counts_def Let_def by (rule mset_take_idx_nargsort)

lemma set_value_counts:
  "is_argsort srt \<Longrightarrow>
   set (value_counts srt s) = (\<lambda>k. (k, count_in (non_na s) k)) ` set (unique (non_na s))"
proof -
  assume "is_argsort srt"
  then have "set_mset (mset (value_counts srt s)) =
      set_mset (mset (map (\<lambda>k. (k, count_in (non_na s) k)) (unique (non_na s))))"
    by (simp only: value_counts_perm)
  then show ?thesis by simp
qed

lemma sorted_value_counts:
  "is_argsort srt \<Longrightarrow> sorted_wrt (\<lambda>a b. snd b \<le> snd a) (value_counts srt s)"
  unfolding value_counts_def Let_def
  using sorted_take_idx_nargsort [of srt "\<lambda>kc. Some (snd kc)"
      "map (\<lambda>k. (k, count_in (non_na s) k)) (unique (non_na s))"]
  by simp

text \<open>With the stable kernel the sort is the reverse-sort-reverse of \<open>argsort_desc\<close>.\<close>

lemma value_counts_stable:
  "value_counts stable_argsort s =
     argsort_desc snd (map (\<lambda>k. (k, count_in (non_na s) k)) (unique (non_na s)))"
  unfolding value_counts_def Let_def nargsort_stable_argsort
  by (rule take_idx_nargsort_desc_Some)

lemma count_in_pos: "k \<in> set vs \<Longrightarrow> 0 < count_in vs k"
  by (auto simp: count_in_def filter_empty_conv)

lemma length_value_counts:
  assumes "is_argsort srt"
  shows "length (value_counts srt s) = card (cell_key ` {c \<in> set (s_values s). \<not> is_na c})"
proof -
  have "length (value_counts srt s) = length (map cell_key (unique (non_na s)))"
    using arg_cong [OF value_counts_perm [OF assms, of s], of size] by simp
  also have "\<dots> = card (cell_key ` set (unique (non_na s)))"
    using distinct_card [OF distinct_unique_keys] by simp
  finally show ?thesis by (simp add: unique_keys)
qed

lemma length_count_percentages [simp]: "length (count_percentages cs) = length cs"
  by (simp add: count_percentages_def Let_def)

text \<open>The rounding chain of one bar height stays within half a unit of the fourth decimal
  of the exact share (in percent) plus the float64 errors, for totals below \<open>2^53\<close>.\<close>

lemma percent_err:
  fixes c t :: nat
  assumes ct: "c \<le> t" and t0: "0 < t" and tb: "t < 2 ^ 53"
  shows "\<bar>fmul (np_round 4 (fdiv (to_double (of_nat c)) (to_double (of_nat t)))) 100
            - 100 * of_nat c / of_nat t\<bar> \<le> 1 / 200 + 1 / 2 ^ 40"
proof -
  have tc: "to_double (of_nat c) = of_nat c" "to_double (of_nat t) = of_nat t"
    using to_double_int [of "int c"] to_double_int [of "int t"] ct tb by simp_all
  have e: "(2::rat) ^ 53 = 9007199254740992" "(2::rat) ^ 40 = 1099511627776"
    "(2::rat) ^ 60 = 1152921504606846976" by simp_all
  define x where "x = (of_nat c / of_nat t :: rat)"
  have x01: "0 \<le> x" "x \<le> 1" using ct t0 by (simp_all add: x_def)
  have xlow: "x = 0 \<or> 1 / 2 ^ 53 \<le> x"
  proof (cases "c = 0")
    case False
    then have "(1::rat) \<le> of_nat c" by simp
    then have "(1::rat) / of_nat t \<le> x" unfolding x_def by (rule divide_right_mono) simp
    moreover have "(of_nat t :: rat) < of_nat (2 ^ 53)" using tb by (simp only: of_nat_less_iff)
    then have "(of_nat t :: rat) \<le> 2 ^ 53" by simp
    then have "(1::rat) / 2 ^ 53 \<le> 1 / of_nat t" by (rule divide_left_mono) (use t0 in simp_all)
    ultimately show ?thesis by simp
  qed (simp add: x_def)
  define q where "q = to_double x"
  have q: "x - x / 2 ^ 53 \<le> q" "q \<le> x + x / 2 ^ 53"
    using to_double_rel_big [of x] xlow x01 unfolding abs_diff_le_iff q_def by auto
  have q0: "0 \<le> q" using x01 by (simp add: q_def to_double_nonneg)
  have qlow: "q * 10000 = 0 \<or> 1 / 2 ^ 60 \<le> \<bar>q * 10000\<bar>"
  proof (cases "x = 0")
    case True
    then show ?thesis by (simp add: q_def)
  next
    case False
    with xlow have "1 / 2 ^ 53 \<le> x" by simp
    with q(1) q0 show ?thesis by simp
  qed
  define a where "a = to_double (q * 10000)"
  have a: "q * 10000 - q * 10000 / 2 ^ 53 \<le> a" "a \<le> q * 10000 + q * 10000 / 2 ^ 53"
    using to_double_rel_big [OF qlow] q0 unfolding abs_diff_le_iff a_def by auto
  define r where "r = round_half_even a"
  have r: "a - 1 / 2 \<le> of_int r" "of_int r \<le> a + 1 / 2"
    using round_half_even_err [of a] unfolding abs_diff_le_iff r_def by auto
  have rabs: "- 20001 \<le> (of_int r :: rat)" "(of_int r :: rat) \<le> 20001"
    using r a q q0 x01 unfolding e by linarith+
  have rlow: "of_int r / (10000::rat) = 0 \<or> 1 / 2 ^ 60 \<le> \<bar>of_int r / (10000::rat)\<bar>"
  proof (cases "r = 0")
    case False
    then have "1 \<le> \<bar>(of_int r::rat)\<bar>" by linarith
    then show ?thesis by simp
  qed simp
  define b where "b = to_double (of_int r / 10000)"
  have b: "\<bar>b - of_int r / 10000\<bar> \<le> \<bar>of_int r / 10000\<bar> / 2 ^ 53"
    using to_double_rel_big [OF rlow] by (simp add: b_def)
  have b2: "of_int r / 10000 - 3 / 2 ^ 53 \<le> b \<and> b \<le> of_int r / 10000 + 3 / 2 ^ 53"
    unfolding b_def using rabs by (intro to_double_within rlow) (simp add: abs_le_iff; linarith)
  have babs: "- 3 \<le> b" "b \<le> 3" using b2 rabs unfolding e by linarith+
  have blow: "b * 100 = 0 \<or> 1 / 2 ^ 60 \<le> \<bar>b * 100\<bar>"
  proof (cases "r = 0")
    case True
    then show ?thesis by (simp add: b_def)
  next
    case False
    then consider "1 \<le> (of_int r::rat)" | "(of_int r::rat) \<le> - 1" by linarith
    then show ?thesis using b2 unfolding e by cases (simp_all add: abs_if; linarith)+
  qed
  define y where "y = to_double (b * 100)"
  have y: "b * 100 - 300 / 2 ^ 53 \<le> y \<and> y \<le> b * 100 + 300 / 2 ^ 53"
    unfolding y_def using babs by (intro to_double_within blow) (simp add: abs_le_iff; linarith)
  have main: "\<bar>y - 100 * x\<bar> \<le> 1 / 200 + 1 / 2 ^ 40"
    using y b2 r a q x01 q0 unfolding abs_diff_le_iff e by (intro conjI; linarith)
  have "fmul (np_round 4 (fdiv (to_double (of_nat c)) (to_double (of_nat t)))) 100 = y"
    by (simp add: tc fmul_def fdiv_def np_round_def to_double_10000 x_def q_def a_def r_def b_def y_def)
  with main show ?thesis by (simp add: x_def)
qed

lemma sum_list_share:
  "sum_list (map (\<lambda>c. 100 * of_nat c / t) cs) = 100 * of_nat (sum_list cs) / (t::rat)"
  by (induction cs) (simp_all add: add_divide_distrib distrib_left)

lemma plot_count_bar_Inr:
  "get_col df col = Inr s \<Longrightarrow>
   plot_count_bar srt df col top_n =
     Inr \<lparr>fig_data = [Bar (count_bar_trace (case top_n of None \<Rightarrow> value_counts srt s
                                                 | Some n \<Rightarrow> py_head n (value_counts srt s)))],
          fig_layout = generate_layout_bar col\<rparr>"
  by (simp add: plot_count_bar_def Let_def)

lemma get_col_city: "get_col city_frame ''city'' = Inr city_col"
  by (simp add: get_col_def city_frame_def)

lemma value_counts_city:
  "value_counts stable_argsort city_col = [(CStr ''A'', 3), (CStr ''B'', 1), (CStr ''C'', 1)]"
  by (simp add: py_eval cong: let_weak_cong)

lemma count_percentages_sorted:
  "sorted_wrt (\<lambda>a b. b \<le> a) cs \<Longrightarrow> sorted_wrt (\<lambda>a b. b \<le> a) (count_percentages cs)"
proof -
  define T where "T = to_double (of_nat (sum_list cs))"
  have T: "0 \<le> T" by (simp add: T_def to_double_nonneg)
  have mono: "fmul (np_round 4 (fdiv (to_double (of_nat c)) T)) 100
      \<le> fmul (np_round 4 (fdiv (to_double (of_nat d)) T)) 100" if "c \<le> d" for c d :: nat
    using that T
    by (intro fmul_mono np_round_mono fdiv_mono to_double_mono np_round_nonneg fdiv_nonneg to_double_nonneg)
       simp_all
  assume "sorted_wrt (\<lambda>a b. b \<le> a) cs"
  then show ?thesis
    unfolding count_percentages_def Let_def T_def [symmetric] sorted_wrt_map
    by (rule sorted_wrt_mono_rel [rotated]) (simp add: mono)
qed

lemma count_percentages_err:
  assumes "0 < sum_list cs" and "sum_list cs < 2 ^ 53"
  shows "list_all2 (\<lambda>c y. \<bar>y - 100 * of_nat c / of_nat (sum_list cs)\<bar> \<le> 1 / 200 + 1 / 2 ^ 40)
           cs (count_percentages cs)
         \<and> \<bar>sum_list (count_percentages cs) - 100\<bar> \<le> of_nat (length cs) * (1 / 200 + 1 / 2 ^ 40)"
proof -
  have all: "list_all2 (\<lambda>c y. \<bar>y - 100 * of_nat c / of_nat (sum_list cs)\<bar> \<le> 1 / 200 + 1 / 2 ^ 40)
           cs (count_percentages cs)"
    unfolding count_percentages_def Let_def list_all2_map2 list_all2_same
  proof
    fix c assume "c \<in> set cs"
    then show "\<bar>fmul (np_round 4 (fdiv (to_double (of_nat c)) (to_double (of_nat (sum_list cs))))) 100
                - 100 * of_nat c / of_nat (sum_list cs)\<bar> \<le> 1 / 200 + 1 / 2 ^ 40"
      using assms by (intro percent_err) (simp_all add: member_le_sum_list)
  qed
  have "sum_list (map (\<lambda>c. 100 * of_nat c / of_nat (sum_list cs)) cs) = (100::rat)"
  proof -
    have "(of_nat (sum_list cs) :: rat) \<noteq> 0" using assms(1) by (simp only: of_nat_eq_0_iff)
    then show ?thesis by (simp add: sum_list_share)
  qed
  with sum_list_list_all2_dist [OF all] show ?thesis using all by simp
qed

lemma sum_count_in:
  "distinct (map cell_key us) \<Longrightarrow> cell_key ` set vs \<subseteq> cell_key ` set us \<Longrightarrow>
   (\<Sum>u\<leftarrow>us. count_in vs u) = length vs"
proof (induction vs)
  case (Cons v vs)
  have "count_in (v # vs) = (\<lambda>u. (if cell_key u = cell_key v then 1 else 0) + count_in vs u)"
    by (auto simp: count_in_def)
  then have "(\<Sum>u\<leftarrow>us. count_in (v # vs) u)
      = length (filter (\<lambda>u. cell_key u = cell_key v) us) + (\<Sum>u\<leftarrow>us. count_in vs u)"
    by (simp add: sum_list_addf sum_list_indicator)
  also have "length (filter (\<lambda>u. cell_key u = cell_key v) us) = 1"
    using Cons.prems by (intro length_filter_key) auto
  finally show ?case using Cons by simp
qed (simp add: count_in_def)

lemma sum_value_counts:
  "is_argsort srt \<Longrightarrow> sum_list (map snd (value_counts srt s)) = length (non_na s)"
proof -
  assume "is_argsort srt"
  define vc where "vc = value_counts srt s"
  define ys where "ys = map (\<lambda>k. (k, count_in (non_na s) k)) (unique (non_na s))"
  have "mset (map snd vc) = image_mset snd (mset vc)" by (rule mset_map)
  also have "\<dots> = image_mset snd (mset ys)"
    unfolding vc_def ys_def by (simp only: value_counts_perm [OF \<open>is_argsort srt\<close>])
  also have "\<dots> = mset (map snd ys)" by (rule mset_map [symmetric])
  finally have "sum_mset (mset (map snd vc)) = sum_mset (mset (map snd ys))" by (rule arg_cong)
  then have "sum_list (map snd (value_counts srt s))
      = sum_list (map snd (map (\<lambda>k. (k, count_in (non_na s) k)) (unique (non_na s))))"
    unfolding sum_mset_sum_list vc_def ys_def .
  also have "\<dots> = length (non_na s)"
    using sum_count_in [OF distinct_unique_keys, of "non_na s" "non_na s"] unique_keys [of "non_na s"]
    by (simp add: comp_def)
  finally show ?thesis .
qed

lemma value_counts_pos:
  "is_argsort srt \<Longrightarrow> kc \<in> set (value_counts srt s) \<Longrightarrow> 0 < snd kc"
proof -
  assume srt: "is_argsort srt" and kc: "kc \<in> set (value_counts srt s)"
  then obtain k where "k \<in> set (unique (non_na s))" "kc = (k, count_in (non_na s) k)"
    by (auto simp: set_value_counts)
  then show ?thesis by (metis count_in_pos subsetD unique_from_subset unique_def snd_conv)
qed

lemma value_counts_nonempty:
  "is_argsort srt \<Longrightarrow> c \<in> set (s_values s) \<Longrightarrow> \<not> is_na c \<Longrightarrow> value_counts srt s \<noteq> []"
proof -
  assume srt: "is_argsort srt" and "c \<in> set (s_values s)" "\<not> is_na c"
  then have "cell_key c \<in> cell_key ` set (unique (non_na s))" by (simp add: unique_keys)
  then have "set (unique (non_na s)) \<noteq> {}" by auto
  then show ?thesis by (metis set_value_counts [OF srt] image_is_empty set_empty)
qed

section \<open>Properties of \<open>plot_count_bar\<close>\<close>

text \<open>
  C1. Whatever order numpy's sort leaves equal counts in, \<open>value_counts\<close> counts
  every distinct non-missing value once: its keys are pairwise distinct, they are
  exactly the keys of the non-missing cells, and each count is the positive number of
  non-missing cells with that key.
\<close>

theorem value_counts_spec:
  assumes "is_argsort srt"
  shows "distinct (map (\<lambda>kc. cell_key (fst kc)) (value_counts srt s)) \<and>
   (\<lambda>kc. cell_key (fst kc)) ` set (value_counts srt s) = cell_key ` {c \<in> set (s_values s). \<not> is_na c} \<and>
   (\<forall>kc \<in> set (value_counts srt s).
      0 < snd kc \<and> snd kc = length (filter (\<lambda>c. \<not> is_na c \<and> cell_key c = cell_key (fst kc)) (s_values s)))"
proof (intro conjI ballI)
  have "mset (map (\<lambda>kc. cell_key (fst kc)) (value_counts srt s)) = mset (map cell_key (unique (non_na s)))"
    using value_counts_perm [OF assms, of s] by (simp add: image_mset.compositionality comp_def)
  then show "distinct (map (\<lambda>kc. cell_key (fst kc)) (value_counts srt s))"
    using distinct_unique_keys mset_eq_imp_distinct_iff by blast
  show "(\<lambda>kc. cell_key (fst kc)) ` set (value_counts srt s) = cell_key ` {c \<in> set (s_values s). \<not> is_na c}"
    using unique_keys [of "non_na s"] by (simp add: set_value_counts [OF assms] image_image)
next
  fix kc assume "kc \<in> set (value_counts srt s)"
  then obtain k where k: "k \<in> set (unique (non_na s))" and kc: "kc = (k, count_in (non_na s) k)"
    by (auto simp: set_value_counts [OF assms])
  have "k \<in> set (non_na s)"
    using k unique_from_subset [of "[]" "non_na s"] by (auto simp: unique_def)
  then show "0 < snd kc" by (simp add: kc count_in_pos)
  show "snd kc = length (filter (\<lambda>c. \<not> is_na c \<and> cell_key c = cell_key (fst kc)) (s_values s))"
    by (simp add: kc count_in_def conj_commute)
qed

theorem value_counts_spec_witness:
  "(CStr ''A'', 3) \<in> set (value_counts stable_argsort city_col) \<and>
   3 = length (filter (\<lambda>c. \<not> is_na c \<and> cell_key c = cell_key (CStr ''A'')) (s_values city_col))"
  using value_counts_spec [OF is_argsort_stable, of city_col] by (simp add: value_counts_city)

text \<open>C2. For every \<open>argsort\<close> kernel the counts of \<open>value_counts\<close> are in descending order.\<close>

theorem value_counts_sorted:
  "is_argsort srt \<Longrightarrow> sorted_wrt (\<lambda>a b. snd b \<le> snd a) (value_counts srt s)"
  unfolding value_counts_def Let_def
  using sorted_take_idx_nargsort [of srt "\<lambda>kc. Some (snd kc)"
      "map (\<lambda>k. (k, count_in (non_na s) k)) (unique (non_na s))"]
  by simp

theorem value_counts_sorted_witness:
  "sorted_wrt (\<lambda>a b. snd b \<le> snd a) [(CStr ''A'', 3::nat), (CStr ''B'', 1), (CStr ''C'', 1)]"
  using value_counts_sorted [OF is_argsort_stable, of city_col] by (simp add: value_counts_city)

text \<open>
  C3. For every \<open>argsort\<close> kernel and every \<open>top_n\<close>, the bar heights of
  \<open>plot_count_bar\<close> descend from left to right: the float64 arithmetic of
  \<open>np.round(counts / total, 4) * 100\<close> is monotone, so it cannot reorder the
  sorted counts.
\<close>

theorem plot_count_bar_heights_sorted:
  assumes "is_argsort srt" and "plot_count_bar srt df col tn = Inr fig"
  shows "\<exists>bt ys. fig_data fig = [Bar bt] \<and> bar_y bt = map CFloat ys \<and> sorted_wrt (\<lambda>a b. b \<le> a) ys"
proof -
  obtain s where s: "get_col df col = Inr s"
    using assms(2) by (cases "get_col df col") (simp_all add: plot_count_bar_def)
  define temp where "temp = (case tn of None \<Rightarrow> value_counts srt s | Some n \<Rightarrow> py_head n (value_counts srt s))"
  have "sorted_wrt (\<lambda>a b. snd b \<le> snd a) temp"
    using sorted_value_counts [OF assms(1), of s] sorted_wrt_py_head
    by (cases tn) (simp_all add: temp_def)
  then have "sorted_wrt (\<lambda>a b. b \<le> a) (map snd temp)" by (simp add: sorted_wrt_map)
  then have "sorted_wrt (\<lambda>a b. b \<le> a) (count_percentages (map snd temp))" by (rule count_percentages_sorted)
  moreover have "fig = \<lparr>fig_data = [Bar (count_bar_trace temp)], fig_layout = generate_layout_bar col\<rparr>"
    using assms(2) by (simp add: plot_count_bar_Inr [OF s] temp_def)
  ultimately show ?thesis by (auto simp: count_bar_trace_def Let_def)
qed

theorem plot_count_bar_heights_sorted_witness:
  "\<exists>fig. plot_count_bar stable_argsort city_frame ''city'' (Some 2) = Inr fig
     \<and> (\<exists>bt ys. fig_data fig = [Bar bt] \<and> bar_y bt = map CFloat ys \<and> sorted_wrt (\<lambda>a b. b \<le> a) ys)"
proof -
  obtain fig where f: "plot_count_bar stable_argsort city_frame ''city'' (Some 2) = Inr fig"
    by (simp add: plot_count_bar_Inr [OF get_col_city])
  show ?thesis using plot_count_bar_heights_sorted [OF is_argsort_stable f] f by blast
qed

text \<open>
  C4. \<open>plot_count_bar\<close> fails exactly when the column is missing, and then with
  \<open>KeyError(col_name)\<close> raised by \<open>dataframe_name[col_name]\<close>.
\<close>

theorem plot_count_bar_error:
  "plot_count_bar srt df col top_n = Inl e \<longleftrightarrow> e = KeyError col \<and> col \<notin> fst ` set (fcols df)"
  by (auto simp: plot_count_bar_def get_col_def Let_def simp flip: map_of_eq_None_iff
           split: option.splits)

theorem plot_count_bar_error_witness:
  "plot_count_bar stable_argsort city_frame ''town'' None = Inl (KeyError ''town'')"
  using plot_count_bar_error [of stable_argsort city_frame "''town''" None "KeyError ''town''"]
  by (simp add: city_frame_def)

text \<open>
  C5. With \<open>top_n = n \<ge> 0\<close> the chart has one bar per value among the \<open>n\<close> most
  frequent, \<open>min n d\<close> bars for \<open>d\<close> distinct non-missing values, under the layout of
  \<open>generate_layout_bar\<close>.
\<close>

theorem plot_count_bar_top_n:
  assumes "is_argsort srt" and "get_col df col = Inr s" and "0 \<le> n"
  shows "\<exists>bt. plot_count_bar srt df col (Some n) = Inr \<lparr>fig_data = [Bar bt], fig_layout = generate_layout_bar col\<rparr>
            \<and> bar_x bt = map (\<lambda>kc. CStr (py_str (fst kc))) (take (nat n) (value_counts srt s))
            \<and> length (bar_y bt) = min (nat n) (card (cell_key ` {c \<in> set (s_values s). \<not> is_na c}))"
  using assms
  by (simp add: plot_count_bar_Inr length_value_counts [OF assms(1)] count_bar_trace_def Let_def)

theorem plot_count_bar_top_n_witness:
  "\<exists>bt. plot_count_bar stable_argsort city_frame ''city'' (Some 2) =
          Inr \<lparr>fig_data = [Bar bt], fig_layout = generate_layout_bar ''city''\<rparr>
     \<and> bar_x bt = [CStr ''A'', CStr ''B'']"
  using plot_count_bar_top_n [OF is_argsort_stable get_col_city, of 2] by (auto simp: value_counts_city)

text \<open>
  C6. With a stable sort, values with equal counts keep the order in which they first
  appear in the column. \<open>kind='quicksort'\<close> does not promise this in general.
\<close>

theorem value_counts_ties:
  "map fst (filter (\<lambda>kc. snd kc = n) (value_counts stable_argsort s)) =
     filter (\<lambda>k. count_in (non_na s) k = n) (unique (non_na s))"
  unfolding value_counts_stable argsort_desc_stable by (simp add: filter_map comp_def)

text \<open>
  C7. With the stable kernel, sorting the counts through \<open>nargsort\<close> (reverse,
  \<open>argsort\<close>, reverse) computes the same list as a descending insertion sort that
  keeps ties in order.
\<close>

theorem value_counts_eq_sort_desc:
  "value_counts stable_argsort s =
     sort_desc snd (map (\<lambda>k. (k, count_in (non_na s) k)) (unique (non_na s)))"
  by (simp add: value_counts_stable argsort_desc_eq_sort_desc)

text \<open>
  C8. A negative \<open>top_n = -k\<close> does not mean ``no limit'' or an error: as a Python
  slice, \<open>head(-k)\<close> drops the \<open>k\<close> least frequent values.
\<close>

theorem plot_count_bar_negative_top_n:
  assumes "get_col df col = Inr s" and "n < 0"
  shows "\<exists>bt. plot_count_bar srt df col (Some n) = Inr \<lparr>fig_data = [Bar bt], fig_layout = generate_layout_bar col\<rparr>
            \<and> bar_x bt = map (\<lambda>kc. CStr (py_str (fst kc)))
                             (take (length (value_counts srt s) - nat (- n)) (value_counts srt s))"
proof -
  have "nat (int (length (value_counts srt s)) + n) = length (value_counts srt s) - nat (- n)"
    using \<open>n < 0\<close> by linarith
  with assms show ?thesis by (simp add: plot_count_bar_Inr py_head_def count_bar_trace_def Let_def)
qed

theorem plot_count_bar_negative_top_n_witness:
  "\<exists>bt. plot_count_bar stable_argsort city_frame ''city'' (Some (-1)) =
          Inr \<lparr>fig_data = [Bar bt], fig_layout = generate_layout_bar ''city''\<rparr>
     \<and> bar_x bt = [CStr ''A'', CStr ''B'']"
  using plot_count_bar_negative_top_n [OF get_col_city, of "-1" stable_argsort]
  by (auto simp: value_counts_city)

text \<open>
  C9. When the column has a non-missing value and fewer than \<open>2^53\<close> cells, and
  \<open>top_n\<close> is \<open>None\<close> or positive, the bar heights add up to 100 up to
  \<open>1/200 + 2^-40\<close> per bar. They do so also when \<open>head(top_n)\<close> drops values:
  the percentages are shares of the values shown, not of the column.
\<close>

theorem plot_count_bar_heights_sum:
  assumes srt: "is_argsort srt" and s: "get_col df col = Inr s"
    and na: "\<exists>c\<in>set (s_values s). \<not> is_na c"
    and big: "length (s_values s) < 2 ^ 53"
    and tn: "\<forall>n. tn = Some n \<longrightarrow> 0 < n"
  shows "\<exists>bt ys. plot_count_bar srt df col tn
                   = Inr \<lparr>fig_data = [Bar bt], fig_layout = generate_layout_bar col\<rparr>
           \<and> bar_y bt = map CFloat ys
           \<and> \<bar>sum_list ys - 100\<bar> \<le> of_nat (length ys) * (1 / 200 + 1 / 2 ^ 40)"
proof -
  define vc where "vc = value_counts srt s"
  define temp where "temp = (case tn of None \<Rightarrow> vc | Some n \<Rightarrow> py_head n vc)"
  have vne: "vc \<noteq> []" using na value_counts_nonempty [OF srt] by (auto simp: vc_def)
  obtain k where k: "temp = take k vc" and k0: "0 < k"
  proof (cases tn)
    case None then show ?thesis using that [of "length vc"] vne by (simp add: temp_def)
  next
    case (Some n) then show ?thesis using that [of "nat n"] tn by (simp add: temp_def)
  qed
  have "temp \<noteq> []" using k0 vne by (simp add: k)
  then have x: "hd temp \<in> set temp" by (rule hd_in_set)
  then have "hd temp \<in> set vc" unfolding k by (rule in_set_takeD)
  then have "0 < snd (hd temp)" unfolding vc_def by (rule value_counts_pos [OF srt])
  moreover have "snd (hd temp) \<le> sum_list (map snd temp)" using x by (simp add: member_le_sum_list)
  ultimately have pos: "0 < sum_list (map snd temp)" by (rule less_le_trans)
  have "sum_list (map snd temp) \<le> length (non_na s)"
    using sum_list_take_le [of k "map snd vc"] sum_value_counts [OF srt, of s]
    by (simp add: k take_map vc_def)
  also have "\<dots> \<le> length (s_values s)" by simp
  finally have lt: "sum_list (map snd temp) < 2 ^ 53" using big by simp
  have len: "length (count_percentages (map snd temp)) = length (map snd temp)"
    by (simp add: count_percentages_def Let_def)
  show ?thesis
  proof (intro exI conjI)
    show "plot_count_bar srt df col tn
            = Inr \<lparr>fig_data = [Bar (count_bar_trace temp)], fig_layout = generate_layout_bar col\<rparr>"
      unfolding temp_def vc_def by (rule plot_count_bar_Inr [OF s])
    show "bar_y (count_bar_trace temp) = map CFloat (count_percentages (map snd temp))"
      by (simp add: count_bar_trace_def Let_def)
    show "\<bar>sum_list (count_percentages (map snd temp)) - 100\<bar>
            \<le> of_nat (length (count_percentages (map snd temp))) * (1 / 200 + 1 / 2 ^ 40)"
      using count_percentages_err [OF pos lt] unfolding len by (rule conjunct2)
  qed
qed

theorem plot_count_bar_heights_sum_witness:
  "\<exists>bt ys. plot_count_bar stable_argsort city_frame ''city'' (Some 2)
             = Inr \<lparr>fig_data = [Bar bt], fig_layout = generate_layout_bar ''city''\<rparr>
     \<and> bar_y bt = map CFloat ys
     \<and> \<bar>sum_list ys - 100\<bar> \<le> of_nat (length ys) * (1 / 200 + 1 / 2 ^ 40)"
  by (rule plot_count_bar_heights_sum [OF is_argsort_stable get_col_city])
     (simp_all add: city_col_def)

text \<open>
  C29. When the shown counts have a positive total below \<open>2^53\<close>, every bar height
  \<open>np.round(c / total, 4) * 100\<close> is within \<open>1/200 + 2^-40\<close> of the exact percentage
  \<open>100 c / total\<close>, so the heights of the bars add up to 100 up to that error per bar.
\<close>

theorem count_percentages_bounds:
  assumes "0 < sum_list cs" and "sum_list cs < 2 ^ 53"
  shows "list_all2 (\<lambda>c y. \<bar>y - 100 * of_nat c / of_nat (sum_list cs)\<bar> \<le> 1 / 200 + 1 / 2 ^ 40)
           cs (count_percentages cs)
         \<and> \<bar>sum_list (count_percentages cs) - 100\<bar> \<le> of_nat (length cs) * (1 / 200 + 1 / 2 ^ 40)"
  using assms by (rule count_percentages_err)

theorem count_percentages_bounds_witness:
  "list_all2 (\<lambda>c y. \<bar>y - 100 * of_nat c / of_nat (sum_list [3, 1, 1::nat])\<bar> \<le> 1 / 200 + 1 / 2 ^ 40)
     [3, 1, 1] (count_percentages [3, 1, 1])
   \<and> \<bar>sum_list (count_percentages [3, 1, 1]) - 100\<bar> \<le> 3 * (1 / 200 + 1 / 2 ^ 40)"
proof -
  have h: "0 < sum_list [3, 1, 1::nat]" "sum_list [3, 1, 1::nat] < 2 ^ 53" by simp_all
  from count_percentages_bounds [OF h] show ?thesis by (simp only: length_Cons list.size) simp
qed

end
