(* ===== verification/PlotBar.thy ===== *)
theory PlotBar
  imports Frame Py_Format Plotly
begin

text \<open>
  \<open>plot_bar(dataframe_name, cat_col_name, num_col_name, top_n=20)\<close>
  (\<^verbatim>\<open>src/Plotting/HelperFunctionsPlotlyPlotting.py\<close>): one bar per row of the
  table, largest values first. The rows are sorted by
  \<open>DataFrame.sort_values(by=num_col_name, ascending=False)\<close>, modelled as
  \<open>sort_values_desc\<close>: the column is looked up (\<open>KeyError\<close>), its cells are turned
  into sort keys (\<open>skey\<close>: numbers and strings, ordered as Python orders them; a
  missing value has no key and goes last), a column mixing strings and numbers
  raises \<open>TypeError\<close>, and otherwise every column is permuted by \<open>nargsort\<close>
  with numpy's \<open>argsort(kind='quicksort')\<close> as the parameter \<open>srt\<close>. Then
  \<open>head(top_n)\<close> keeps the first rows, both columns are read, and each value is
  labelled \<open>'{}%'.format(np.round(i, 2))\<close> (\<open>bar_label\<close>). The Python default
  \<open>top_n=20\<close> is the argument 20.
\<close>

section \<open>Sort keys\<close>

text \<open>
  What \<open>sort_values\<close> compares: numbers by value with \<open>-inf\<close> below and \<open>inf\<close>
  above every finite number (\<open>SInf False\<close>, \<open>SInf True\<close>), strings by code points
  (lexicographically). Python cannot compare a string with a number; such a column
  is rejected before sorting, so the order between the two kinds below is never used.
\<close>

datatype skey = SNum rat | SInf bool | SStr string

instantiation skey :: linorder
begin

fun less_eq_skey :: "skey \<Rightarrow> skey \<Rightarrow> bool" where
  "less_eq_skey (SNum a) (SNum b) = (a \<le> b)"
| "less_eq_skey (SNum a) (SInf q) = q"
| "less_eq_skey (SInf p) (SNum b) = (\<not> p)"
| "less_eq_skey (SInf p) (SInf q) = (p \<longrightarrow> q)"
| "less_eq_skey (SStr s) (SStr t) = (s \<le> t)"
| "less_eq_skey (SStr s) _ = False"
| "less_eq_skey _ (SStr t) = True"

definition less_skey :: "skey \<Rightarrow> skey \<Rightarrow> bool" where
  "less_skey a b \<longleftrightarrow> a \<le> b \<and> \<not> b \<le> a"

instance
proof
  fix x y z :: skey
  show "(x < y) = (x \<le> y \<and> \<not> y \<le> x)" by (simp add: less_skey_def)
  show "x \<le> x" by (cases x) simp_all
  show "x \<le> y \<Longrightarrow> y \<le> z \<Longrightarrow> x \<le> z" by (cases x; cases y; cases z) auto
  show "x \<le> y \<Longrightarrow> y \<le> x \<Longrightarrow> x = y" by (cases x; cases y) auto
  show "x \<le> y \<or> y \<le> x" by (cases x; cases y) auto
qed

end

text \<open>The key of a cell; \<open>None\<close> for a missing value.\<close>

fun sort_key_cell :: "cell \<Rightarrow> skey option" where
  "sort_key_cell (CInt i) = Some (SNum (of_int i))"
| "sort_key_cell (CFloat q) = Some (SNum q)"
| "sort_key_cell (CInf b) = Some (SInf b)"
| "sort_key_cell (CStr s) = Some (SStr s)"
| "sort_key_cell CNaN = None"

fun is_num_key :: "skey option \<Rightarrow> bool" where
  "is_num_key (Some (SNum a)) = True"
| "is_num_key (Some (SInf b)) = True"
| "is_num_key _ = False"

fun is_str_key :: "skey option \<Rightarrow> bool" where
  "is_str_key (Some (SStr s)) = True"
| "is_str_key _ = False"

definition mixed_keys :: "skey option list \<Rightarrow> bool" where
  "mixed_keys ks \<longleftrightarrow> list_ex is_num_key ks \<and> list_ex is_str_key ks"

section \<open>\<open>sort_values\<close> and \<open>plot_bar\<close>\<close>

text \<open>\<open>df.sort_values(by=by, ascending=False)\<close> (\<open>na_position='last'\<close>).\<close>

definition sort_values_desc :: "(skey list \<Rightarrow> nat list) \<Rightarrow> string \<Rightarrow> frame \<Rightarrow> frame result" where
  "sort_values_desc srt by df =
     bindr (get_col df by) (\<lambda>s.
       let ks = map sort_key_cell (s_values s)
       in if mixed_keys ks then Inl (TypeError ''< not supported between str and a number'')
          else Inr (take_rows (nargsort srt ks) df))"

text \<open>\<open>'{}%'.format(np.round(i, 2))\<close> for one value \<open>i\<close> of the numeric column.\<close>

definition bar_label :: "cell \<Rightarrow> cell result" where
  "bar_label c = bindr (np_round_cell 2 c) (\<lambda>r. Inr (CStr (py_str r @ ''%'')))"

definition plot_bar ::
  "(skey list \<Rightarrow> nat list) \<Rightarrow> frame \<Rightarrow> string \<Rightarrow> string \<Rightarrow> int \<Rightarrow> figure result" where
  "plot_bar srt df cat_col_name num_col_name top_n =
     bindr (sort_values_desc srt num_col_name df) (\<lambda>df1.
       let df2 = head_frame top_n df1 in
       bindr (get_col df2 cat_col_name) (\<lambda>x.
       bindr (get_col df2 num_col_name) (\<lambda>y.
       bindr (mapr bar_label (s_values y)) (\<lambda>text.
         Inr \<lparr>fig_data = [Bar \<lparr>bar_name = None, bar_x = s_values x, bar_y = s_values y,
                                bar_text = text, bar_textposition = Some ''auto'',
                                bar_marker_color = Some ''#0047AB''\<rparr>],
              fig_layout = generate_layout_bar cat_col_name\<rparr>))))"

text \<open>A small table for the examples: three items and an integer quantity.\<close>

definition shop_frame :: frame where
  "shop_frame = \<lparr>fcols = [(''item'', \<lparr>s_dtype = Object, s_values = [CStr ''a'', CStr ''b'', CStr ''c'']\<rparr>),
                          (''qty'', \<lparr>s_dtype = Int64, s_values = [CInt 3, CInt 7, CInt 5]\<rparr>)],
                 nrows = 3\<rparr>"

declare less_eq_skey.simps [py_eval] less_skey_def [py_eval] sort_key_cell.simps [py_eval]
  is_num_key.simps [py_eval] is_str_key.simps [py_eval] mixed_keys_def [py_eval]
  sort_values_desc_def [py_eval] bar_label_def [py_eval] plot_bar_def [py_eval] shop_frame_def [py_eval]
  head_frame_def [py_eval] take_rows_def [py_eval] take_series_def [py_eval]

section \<open>Lemmas\<close>

lemma sort_values_desc_ok:
  "get_col df by = Inr s \<Longrightarrow> \<not> mixed_keys (map sort_key_cell (s_values s)) \<Longrightarrow>
   sort_values_desc srt by df = Inr (take_rows (nargsort srt (map sort_key_cell (s_values s))) df)"
  by (simp add: sort_values_desc_def)

lemma plot_bar_ok:
  assumes srt: "is_argsort srt" and num: "get_col df num = Inr ys" and cat: "get_col df cat = Inr xs"
    and nm: "\<not> mixed_keys (map sort_key_cell (s_values ys))"
  defines "p \<equiv> nargsort srt (map sort_key_cell (s_values ys))"
  shows "plot_bar srt df cat num tn =
     bindr (mapr bar_label (py_head tn (take_idx p (s_values ys)))) (\<lambda>text.
       Inr \<lparr>fig_data = [Bar \<lparr>bar_name = None, bar_x = py_head tn (take_idx p (s_values xs)),
                              bar_y = py_head tn (take_idx p (s_values ys)),
                              bar_text = text, bar_textposition = Some ''auto'',
                              bar_marker_color = Some ''#0047AB''\<rparr>],
            fig_layout = generate_layout_bar cat\<rparr>)"
proof -
  have lp: "length p = length (take_idx p zs)" for zs :: "cell list"
    by (simp add: take_idx_def)
  have hx: "take_idx (py_head tn [0..<length p]) (take_idx p zs) = py_head tn (take_idx p zs)" for zs :: "cell list"
    using take_idx_py_head_upt [of tn "take_idx p zs"] by (simp only: lp [of zs])
  show ?thesis
    using num cat nm
    by (simp add: plot_bar_def sort_values_desc_ok p_def [symmetric] get_col_head_sorted hx Let_def)
qed

lemma plot_bar_eq:
  "plot_bar srt df cat num tn =
     bindr (get_col df num) (\<lambda>ys.
       if mixed_keys (map sort_key_cell (s_values ys))
       then Inl (TypeError ''< not supported between str and a number'')
       else bindr (get_col df cat) (\<lambda>xs.
         let p = nargsort srt (map sort_key_cell (s_values ys)) in
         bindr (mapr bar_label (py_head tn (take_idx p (s_values ys)))) (\<lambda>text.
           Inr \<lparr>fig_data = [Bar \<lparr>bar_name = None, bar_x = py_head tn (take_idx p (s_values xs)),
                                  bar_y = py_head tn (take_idx p (s_values ys)),
                                  bar_text = text, bar_textposition = Some ''auto'',
                                  bar_marker_color = Some ''#0047AB''\<rparr>],
                fig_layout = generate_layout_bar cat\<rparr>)))"
  by (cases "get_col df num"; cases "get_col df cat")
     (simp_all add: plot_bar_def sort_values_desc_def get_col_head_sorted take_idx_head_len Let_def)

lemma plot_bar_Inr:
  assumes "plot_bar srt df cat num tn = Inr fig"
  obtains ys xs tx where "get_col df num = Inr ys" and "get_col df cat = Inr xs"
    and "\<not> mixed_keys (map sort_key_cell (s_values ys))"
    and "mapr bar_label (py_head tn (take_idx (nargsort srt (map sort_key_cell (s_values ys))) (s_values ys))) = Inr tx"
    and "fig = \<lparr>fig_data = [Bar \<lparr>bar_name = None,
              bar_x = py_head tn (take_idx (nargsort srt (map sort_key_cell (s_values ys))) (s_values xs)),
              bar_y = py_head tn (take_idx (nargsort srt (map sort_key_cell (s_values ys))) (s_values ys)),
              bar_text = tx, bar_textposition = Some ''auto'', bar_marker_color = Some ''#0047AB''\<rparr>],
            fig_layout = generate_layout_bar cat\<rparr>"
  using assms unfolding plot_bar_eq Let_def
  by (auto simp: bindr_eq_Inr split: if_splits)

lemma get_col_shop_item: "get_col shop_frame ''item'' = Inr \<lparr>s_dtype = Object, s_values = [CStr ''a'', CStr ''b'', CStr ''c'']\<rparr>"
  by (simp add: get_col_def shop_frame_def)

lemma get_col_shop_qty: "get_col shop_frame ''qty'' = Inr \<lparr>s_dtype = Int64, s_values = [CInt 3, CInt 7, CInt 5]\<rparr>"
  by (simp add: get_col_def shop_frame_def)

lemma plot_bar_shop:
  "plot_bar stable_argsort shop_frame ''item'' ''qty'' 2 =
     Inr \<lparr>fig_data = [Bar \<lparr>bar_name = None, bar_x = [CStr ''b'', CStr ''c''], bar_y = [CInt 7, CInt 5],
            bar_text = [CStr ''7%'', CStr ''5%''], bar_textposition = Some ''auto'',
            bar_marker_color = Some ''#0047AB''\<rparr>],
          fig_layout = generate_layout_bar ''item''\<rparr>"
  by (simp add: py_eval get_col_def cong: let_weak_cong)

lemma sort_values_desc_Inr:
  assumes "sort_values_desc srt by df = Inr df'"
  obtains s where "get_col df by = Inr s" and "\<not> mixed_keys (map sort_key_cell (s_values s))"
    and "df' = take_rows (nargsort srt (map sort_key_cell (s_values s))) df"
  using assms by (cases "get_col df by") (auto simp: sort_values_desc_def Let_def split: if_splits)

lemma wf_shop_frame: "frame_wf shop_frame"
  by (simp add: frame_wf_def series_wf_def shop_frame_def)

lemma bar_label_Inl:
  "bar_label c = Inl e \<longleftrightarrow> (\<exists>s. c = CStr s) \<and> e = rint_type_error"
  by (cases c) (auto simp: bar_label_def)


lemma plot_bar_wf_lengths:
  "frame_wf df \<Longrightarrow> get_col df num = Inr ys \<Longrightarrow> get_col df cat = Inr xs \<Longrightarrow>
   length (s_values xs) = nrows df \<and> length (s_values ys) = nrows df"
  using get_col_wf by blast

section \<open>Properties of \<open>plot_bar\<close>\<close>

text \<open>C11. For every \<open>argsort\<close> kernel the bars come in descending order of value, missing values last.\<close>

theorem plot_bar_sorted:
  assumes "is_argsort srt" and "plot_bar srt df cat num tn = Inr fig"
  shows "\<exists>bt. fig_data fig = [Bar bt] \<and>
           sorted_wrt (\<lambda>a b. na_last_desc (sort_key_cell a) (sort_key_cell b)) (bar_y bt)"
  using assms(2)
proof (rule plot_bar_Inr)
  fix ys xs tx
  assume "fig = \<lparr>fig_data = [Bar \<lparr>bar_name = None,
              bar_x = py_head tn (take_idx (nargsort srt (map sort_key_cell (s_values ys))) (s_values xs)),
              bar_y = py_head tn (take_idx (nargsort srt (map sort_key_cell (s_values ys))) (s_values ys)),
              bar_text = tx, bar_textposition = Some ''auto'', bar_marker_color = Some ''#0047AB''\<rparr>],
            fig_layout = generate_layout_bar cat\<rparr>"
  then show ?thesis
    using sorted_wrt_py_head [OF sorted_take_idx_nargsort [OF assms(1), of sort_key_cell "s_values ys"]]
    by simp
qed

theorem plot_bar_sorted_witness:
  "sorted_wrt (\<lambda>a b. na_last_desc (sort_key_cell a) (sort_key_cell b)) [CInt 7, CInt 5]"
  using plot_bar_sorted [OF is_argsort_stable plot_bar_shop] by simp

text \<open>
  C12. With \<open>top_n = n \<ge> 0\<close> on a well-formed table the chart has
  \<open>min n rows\<close> bars, as many categories as values.
\<close>

theorem plot_bar_count:
  assumes "is_argsort srt" and "frame_wf df" and "0 \<le> tn" and "plot_bar srt df cat num tn = Inr fig"
  shows "\<exists>bt. fig_data fig = [Bar bt] \<and> length (bar_x bt) = min (nat tn) (nrows df)
           \<and> length (bar_y bt) = min (nat tn) (nrows df)"
  using assms(4)
proof (rule plot_bar_Inr)
  fix ys xs tx
  assume num: "get_col df num = Inr ys" and cat: "get_col df cat = Inr xs"
    and fig: "fig = \<lparr>fig_data = [Bar \<lparr>bar_name = None,
              bar_x = py_head tn (take_idx (nargsort srt (map sort_key_cell (s_values ys))) (s_values xs)),
              bar_y = py_head tn (take_idx (nargsort srt (map sort_key_cell (s_values ys))) (s_values ys)),
              bar_text = tx, bar_textposition = Some ''auto'', bar_marker_color = Some ''#0047AB''\<rparr>],
            fig_layout = generate_layout_bar cat\<rparr>"
  have "length (s_values ys) = nrows df" using get_col_wf [OF assms(2) num] by simp
  then show ?thesis
    using assms(3) by (simp add: fig length_py_head length_nargsort [OF assms(1)])
qed

theorem plot_bar_count_witness:
  "length [CStr ''b'', CStr ''c''] = min (nat 2) (nrows shop_frame)"
  using plot_bar_count [OF is_argsort_stable wf_shop_frame _ plot_bar_shop] by simp

text \<open>
  C13. \<open>head(top_n)\<close> after the descending sort keeps the largest values: every
  value shown is at least every value of the column left out (missing values count
  as smallest).
\<close>

theorem plot_bar_top:
  assumes "is_argsort srt" and "plot_bar srt df cat num tn = Inr fig" and "fig_data fig = [Bar bt]"
    and "get_col df num = Inr ys" and "a \<in> set (bar_y bt)" and "b \<in># mset (s_values ys) - mset (bar_y bt)"
  shows "na_last_desc (sort_key_cell a) (sort_key_cell b)"
  using assms(2)
proof (rule plot_bar_Inr)
  fix ys' xs tx
  assume num: "get_col df num = Inr ys'"
    and fig: "fig = \<lparr>fig_data = [Bar \<lparr>bar_name = None,
              bar_x = py_head tn (take_idx (nargsort srt (map sort_key_cell (s_values ys'))) (s_values xs)),
              bar_y = py_head tn (take_idx (nargsort srt (map sort_key_cell (s_values ys'))) (s_values ys')),
              bar_text = tx, bar_textposition = Some ''auto'', bar_marker_color = Some ''#0047AB''\<rparr>],
            fig_layout = generate_layout_bar cat\<rparr>"
  define L where "L = take_idx (nargsort srt (map sort_key_cell (s_values ys))) (s_values ys)"
  have y: "bar_y bt = py_head tn L" using assms(3,4) num by (auto simp: fig L_def)
  have mL: "mset L = mset (s_values ys)"
    unfolding L_def by (rule mset_take_idx_nargsort [OF assms(1)])
  obtain k where k: "py_head tn L = take k L" and d: "mset L - mset (py_head tn L) = mset (drop k L)"
    using mset_minus_py_head by blast
  have "a \<in> set (take k L)" "b \<in> set (drop k L)"
    using assms(5,6) y k d mL by (simp_all flip: set_mset_mset)
  then show ?thesis
    using sorted_wrt_take_drop [OF sorted_take_idx_nargsort [OF assms(1), of sort_key_cell "s_values ys"]]
    by (simp add: L_def)
qed

theorem plot_bar_top_witness:
  "na_last_desc (sort_key_cell (CInt 5)) (sort_key_cell (CInt 3))"
  using plot_bar_top [OF is_argsort_stable plot_bar_shop _ _, of _ "\<lparr>s_dtype = Int64, s_values = [CInt 3, CInt 7, CInt 5]\<rparr>" "CInt 5" "CInt 3"]
  by (simp add: get_col_def shop_frame_def)

text \<open>
  C14. Sorting and truncating move whole rows: on a well-formed table every bar pairs
  a category with the value of its own row, and no row is shown twice.
\<close>

theorem plot_bar_rows:
  assumes "is_argsort srt" and "frame_wf df" and "plot_bar srt df cat num tn = Inr fig"
    and "fig_data fig = [Bar bt]" and "get_col df cat = Inr xs" and "get_col df num = Inr ys"
  shows "mset (zip (bar_x bt) (bar_y bt)) \<subseteq># mset (zip (s_values xs) (s_values ys))"
  using assms(3)
proof (rule plot_bar_Inr)
  fix ys' xs' tx
  assume num: "get_col df num = Inr ys'" and cat: "get_col df cat = Inr xs'"
    and fig: "fig = \<lparr>fig_data = [Bar \<lparr>bar_name = None,
              bar_x = py_head tn (take_idx (nargsort srt (map sort_key_cell (s_values ys'))) (s_values xs')),
              bar_y = py_head tn (take_idx (nargsort srt (map sort_key_cell (s_values ys'))) (s_values ys')),
              bar_text = tx, bar_textposition = Some ''auto'', bar_marker_color = Some ''#0047AB''\<rparr>],
            fig_layout = generate_layout_bar cat\<rparr>"
  define p where "p = nargsort srt (map sort_key_cell (s_values ys))"
  have len: "length (s_values xs) = length (s_values ys)"
    using plot_bar_wf_lengths [OF assms(2,6,5)] by simp
  have sp: "set p \<subseteq> {0..<length (s_values xs)}" and mp: "mset p = mset [0..<length (zip (s_values xs) (s_values ys))]"
    using nargsort_perm [OF assms(1), of "map sort_key_cell (s_values ys)"] set_nargsort [OF assms(1)] len
    by (simp_all add: p_def)
  have "zip (bar_x bt) (bar_y bt) = py_head tn (take_idx p (zip (s_values xs) (s_values ys)))"
    using assms(4-6) num cat
    by (auto simp: fig p_def [symmetric] zip_py_head zip_take_idx [OF len sp])
  then show ?thesis
    using mset_py_head_subseteq mset_take_idx_perm [OF mp] by metis
qed

theorem plot_bar_rows_witness:
  "mset (zip [CStr ''b'', CStr ''c''] [CInt 7, CInt 5]) \<subseteq>#
     mset (zip [CStr ''a'', CStr ''b'', CStr ''c''] [CInt 3, CInt 7, CInt 5])"
  using plot_bar_rows [OF is_argsort_stable wf_shop_frame plot_bar_shop _ get_col_shop_item get_col_shop_qty] by simp



text \<open>
  C16. Each bar is labelled \<open>'{}%'.format(np.round(y, 2))\<close> of its own value:
  the labels follow the values one to one.
\<close>

theorem plot_bar_labels:
  assumes "plot_bar srt df cat num tn = Inr fig" and "fig_data fig = [Bar bt]"
  shows "list_all2 (\<lambda>y t. bar_label y = Inr t) (bar_y bt) (bar_text bt)"
  using assms(1)
proof (rule plot_bar_Inr)
  fix ys xs tx
  assume m: "mapr bar_label (py_head tn (take_idx (nargsort srt (map sort_key_cell (s_values ys))) (s_values ys))) = Inr tx"
    and fig: "fig = \<lparr>fig_data = [Bar \<lparr>bar_name = None,
              bar_x = py_head tn (take_idx (nargsort srt (map sort_key_cell (s_values ys))) (s_values xs)),
              bar_y = py_head tn (take_idx (nargsort srt (map sort_key_cell (s_values ys))) (s_values ys)),
              bar_text = tx, bar_textposition = Some ''auto'', bar_marker_color = Some ''#0047AB''\<rparr>],
            fig_layout = generate_layout_bar cat\<rparr>"
  show ?thesis using mapr_Inr_all2 [OF m] assms(2) by (auto simp: fig)
qed

theorem plot_bar_labels_witness:
  "list_all2 (\<lambda>y t. bar_label y = Inr t) [CInt 7, CInt 5] [CStr ''7%'', CStr ''5%'']"
  using plot_bar_labels [OF plot_bar_shop] by simp

text \<open>
  C30. For every \<open>argsort\<close> kernel, \<open>sort_values(by=..., ascending=False)\<close> maps a
  well-formed frame to a well-formed frame with the same columns in the same order whose
  rows are a permutation of the input's rows.
\<close>

theorem sort_values_desc_wf:
  assumes srt: "is_argsort srt" and wf: "frame_wf df" and ok: "sort_values_desc srt by df = Inr df'"
  shows "frame_wf df' \<and> map fst (fcols df') = map fst (fcols df) \<and> mset (rows df') = mset (rows df)"
  using ok
proof (rule sort_values_desc_Inr)
  fix s
  assume col: "get_col df by = Inr s"
    and df': "df' = take_rows (nargsort srt (map sort_key_cell (s_values s))) df"
  have len: "length (s_values s) = nrows df" using get_col_wf [OF wf col] by simp
  have mp: "mset (nargsort srt (map sort_key_cell (s_values s))) = mset [0..<nrows df]"
    using nargsort_perm [OF srt] len by simp
  have "\<forall>i\<in>set (nargsort srt (map sort_key_cell (s_values s))). i < nrows df"
    using set_nargsort [OF srt] len by simp
  then show ?thesis
    using take_rows_wf [OF wf] rows_take_rows_perm [OF mp] by (simp add: df')
qed

theorem sort_values_desc_wf_witness:
  "frame_wf (take_rows [1, 2, 0] shop_frame)
   \<and> map fst (fcols (take_rows [1, 2, 0] shop_frame)) = map fst (fcols shop_frame)
   \<and> mset (rows (take_rows [1, 2, 0] shop_frame)) = mset (rows shop_frame)"
proof -
  have "sort_values_desc stable_argsort ''qty'' shop_frame = Inr (take_rows [1, 2, 0] shop_frame)"
    by (simp add: py_eval get_col_def cong: let_weak_cong)
  from sort_values_desc_wf [OF is_argsort_stable wf_shop_frame this] show ?thesis .
qed

text \<open>
  C10. A finite value whose hundredfold lies beyond the largest double (from
  \<open>2^1024 (1 + 2^-52) / 100\<close>, about \<open>1.8e306\<close>, on) is labelled \<open>inf%\<close> or
  \<open>-inf%\<close>: \<open>np.round(x, 2)\<close> overflows in its scaling step \<open>x * 100.0\<close>, and the
  label is the one of the infinity of the same sign.
\<close>

theorem bar_label_overflow:
  assumes "2 ^ 1024 * (1 + 1 / 2 ^ 52) \<le> 100 * \<bar>x\<bar>"
  shows "bar_label (CFloat x) = bar_label (CInf (0 < x))
    \<and> bar_label (CInf (0 < x)) = Inr (CStr ((if 0 < x then [] else ''-'') @ ''inf%''))"
proof -
  have "overflows (x * to_double (10 ^ 2))"
    using assms by (intro overflows_big) (simp add: to_double_int [of 100, simplified] abs_mult)
  then show ?thesis by (simp add: bar_label_def)
qed

theorem bar_label_overflow_witness:
  "bar_label (CFloat (2 ^ 1020)) = Inr (CStr ''inf%'')"
  using bar_label_overflow [of "2 ^ 1020"] by simp

end
