(* ===== verification/MultiBox.thy ===== *)
theory MultiBox
  imports Frame Plotly
begin

text \<open>
  \<open>plot_multi_box(dataframe, col_name, num_col_name)\<close>
  (\<^verbatim>\<open>src/Plotting/HelperFunctionsPlotlyPlotting.py\<close>): one box plot per level of
  a grouping column. The loop \<open>for i in dataframe[col_name].unique()\<close> that appends a
  \<open>go.Box\<close> per level to \<open>data\<close> is \<open>box_loop\<close>, an accumulator recursion over the
  levels; its body reads \<open>dataframe[num_col_name]\<close> afresh on every pass and selects
  the rows where \<open>dataframe[col_name] == i\<close> (\<open>eq_mask\<close>, Python \<open>==\<close>, under
  which a missing value equals nothing) by boolean indexing (\<open>select_mask\<close>).
  \<open>box_loop_map\<close> shows the loop computes the map of \<open>box_for\<close> over the levels;
  \<open>group_rows_unique\<close> relates it to the abstract group-by \<open>box_spec\<close> that C39
  refines.
\<close>

section \<open>Definitions\<close>

text \<open>\<open>dataframe[col_name] == i\<close>.\<close>

definition eq_mask :: "series \<Rightarrow> cell \<Rightarrow> bool list" where
  "eq_mask s i = map (\<lambda>c. py_eq c i) (s_values s)"

text \<open>\<open>series[mask]\<close>: the values where the mask is true, in order.\<close>

definition select_mask :: "series \<Rightarrow> bool list \<Rightarrow> series" where
  "select_mask s m = s\<lparr>s_values := map fst (filter snd (zip (s_values s) m))\<rparr>"

text \<open>\<open>go.Box(y=dataframe[num_col_name][dataframe[col_name] == i], name=i)\<close>.\<close>

definition box_for :: "series \<Rightarrow> series \<Rightarrow> cell \<Rightarrow> box_trace" where
  "box_for cs ns i = \<lparr>box_y = s_values (select_mask ns (eq_mask cs i)), box_name = i\<rparr>"

text \<open>The \<open>for\<close> loop, \<open>data\<close> being the list built so far.\<close>

fun box_loop :: "frame \<Rightarrow> string \<Rightarrow> series \<Rightarrow> cell list \<Rightarrow> box_trace list \<Rightarrow> box_trace list result" where
  "box_loop df num cs [] data = Inr data"
| "box_loop df num cs (i # lvs) data =
     bindr (get_col df num) (\<lambda>ns. box_loop df num cs lvs (data @ [box_for cs ns i]))"

definition multi_box_title :: "string \<Rightarrow> string \<Rightarrow> string" where
  "multi_box_title col_name num_col_name =
     ''Boxplot of levels in '' @ col_name @ '' for '' @ num_col_name @ '' column''"

definition plot_multi_box :: "frame \<Rightarrow> string \<Rightarrow> string \<Rightarrow> figure result" where
  "plot_multi_box df col_name num_col_name =
     bindr (get_col df col_name) (\<lambda>cs.
       bindr (box_loop df num_col_name cs (unique (s_values cs)) []) (\<lambda>data.
         Inr \<lparr>fig_data = map Box data,
              fig_layout = title_layout (multi_box_title col_name num_col_name)\<rparr>))"






text \<open>
  A grouped table with a missing group, as
  \<open>pd.DataFrame({'grp': ['x', np.nan, 'y', 'x'], 'val': [1, 2, 3, 4]})\<close>.
\<close>

definition grp_frame :: frame where
  "grp_frame = \<lparr>fcols = [(''grp'', \<lparr>s_dtype = Object, s_values = [CStr ''x'', CNaN, CStr ''y'', CStr ''x'']\<rparr>),
                         (''val'', \<lparr>s_dtype = Int64, s_values = [CInt 1, CInt 2, CInt 3, CInt 4]\<rparr>)],
                nrows = 4\<rparr>"

text \<open>The same column with no rows, and no numeric column at all.\<close>

definition empty_grp_frame :: frame where
  "empty_grp_frame = \<lparr>fcols = [(''grp'', \<lparr>s_dtype = Object, s_values = []\<rparr>)], nrows = 0\<rparr>"

declare eq_mask_def [py_eval] select_mask_def [py_eval] box_for_def [py_eval] box_loop.simps [py_eval]
  multi_box_title_def [py_eval] plot_multi_box_def [py_eval] grp_frame_def [py_eval] empty_grp_frame_def [py_eval]

section \<open>Lemmas\<close>

text \<open>The loop with \<open>append\<close> computes a map over the levels (or the first error).\<close>

lemma box_loop_map:
  "box_loop df num cs lvs data =
     (if lvs = [] then Inr data else bindr (get_col df num) (\<lambda>ns. Inr (data @ map (box_for cs ns) lvs)))"
proof (induction "lvs" arbitrary: data)
  case (Cons i lvs)
  then show ?case by (cases "get_col df num") auto
qed simp

lemma box_y_box_for:
  "box_y (box_for cs ns i) = map snd (filter (\<lambda>r. py_eq (fst r) i) (zip (s_values cs) (s_values ns)))"
proof -
  have "map fst (filter snd (zip ys (map (\<lambda>c. py_eq c i) xs))) = map snd (filter (\<lambda>r. py_eq (fst r) i) (zip xs ys))"
    for xs ys :: "cell list"
    by (induction xs arbitrary: ys) (auto simp: zip_Cons1 split: list.splits)
  then show ?thesis by (simp add: box_for_def select_mask_def eq_mask_def)
qed

lemma image_mset_sum_list: "image_mset f (sum_list Ms) = sum_list (map (image_mset f) Ms)"
  by (induction Ms) auto

lemma sum_list_if_single:
  "(\<Sum>u\<leftarrow>us. if P u then {#r#} else {#}) = replicate_mset (length (filter P us)) r"
  by (induction us) auto

lemma sum_groups:
  assumes "distinct (map cell_key us)"
    and "\<forall>r\<in>set rs. \<not> is_na (fst r) \<longrightarrow> cell_key (fst r) \<in> cell_key ` set us"
  shows "(\<Sum>u\<leftarrow>us. mset (filter (\<lambda>r. py_eq (fst r) u) rs)) = mset (filter (\<lambda>r. \<not> is_na (fst r)) rs)"
  using assms(2)
proof (induction rs)
  case Nil
  show ?case by (induction us) auto
next
  case (Cons r rs)
  have split: "(\<Sum>u\<leftarrow>us. mset (filter (\<lambda>r. py_eq (fst r) u) (r # rs))) =
      (\<Sum>u\<leftarrow>us. if py_eq (fst r) u then {#r#} else {#}) + (\<Sum>u\<leftarrow>us. mset (filter (\<lambda>r. py_eq (fst r) u) rs))"
    by (induction us) auto
  show ?case
  proof (cases "is_na (fst r)")
    case True
    then show ?thesis using Cons unfolding split by (simp add: py_eq_def)
  next
    case False
    then have "length (filter (\<lambda>u. py_eq (fst r) u) us) = 1"
      using length_filter_key [OF assms(1), of "cell_key (fst r)"] Cons.prems
      by (simp add: py_eq_def eq_commute [of "cell_key (fst r)"])
    then show ?thesis using Cons False unfolding split by (simp add: sum_list_if_single)
  qed
qed

lemma get_col_grp: "get_col grp_frame ''grp'' = Inr \<lparr>s_dtype = Object, s_values = [CStr ''x'', CNaN, CStr ''y'', CStr ''x'']\<rparr>"
  by (simp add: get_col_def grp_frame_def)

lemma get_col_val: "get_col grp_frame ''val'' = Inr \<lparr>s_dtype = Int64, s_values = [CInt 1, CInt 2, CInt 3, CInt 4]\<rparr>"
  by (simp add: get_col_def grp_frame_def)

lemma plot_multi_box_ok:
  "get_col df col = Inr cs \<Longrightarrow> get_col df num = Inr ns \<Longrightarrow>
   plot_multi_box df col num =
     Inr \<lparr>fig_data = map (\<lambda>i. Box (box_for cs ns i)) (unique (s_values cs)),
          fig_layout = title_layout (multi_box_title col num)\<rparr>"
  by (simp add: plot_multi_box_def box_loop_map comp_def)




section \<open>Properties of \<open>plot_multi_box\<close>\<close>

lemma grp_ok: "\<exists>fig. plot_multi_box grp_frame ''grp'' ''val'' = Inr fig"
  by (simp add: plot_multi_box_ok [OF get_col_grp get_col_val])



text \<open>
  C18. The boxes partition the rows whose group is present: every value of such a row
  is in exactly one box (as multisets), and values of rows with a missing group are in none.
\<close>

theorem plot_multi_box_partition:
  assumes "plot_multi_box df col num = Inr fig" and "get_col df col = Inr cs" and "get_col df num = Inr ns"
  shows "(\<Sum>t\<leftarrow>fig_data fig. case t of Box b \<Rightarrow> mset (box_y b) | _ \<Rightarrow> {#})
           = mset (map snd (filter (\<lambda>r. \<not> is_na (fst r)) (zip (s_values cs) (s_values ns))))"
proof -
  let ?rows = "zip (s_values cs) (s_values ns)"
  have cover: "\<forall>r\<in>set ?rows. \<not> is_na (fst r) \<longrightarrow> cell_key (fst r) \<in> cell_key ` set (unique (s_values cs))"
    by (auto simp: unique_keys dest: set_zip_leftD)
  have "(\<Sum>u\<leftarrow>unique (s_values cs). mset (filter (\<lambda>r. py_eq (fst r) u) ?rows))
      = mset (filter (\<lambda>r. \<not> is_na (fst r)) ?rows)"
    by (rule sum_groups [OF distinct_unique_keys cover])
  then have "image_mset snd (\<Sum>u\<leftarrow>unique (s_values cs). mset (filter (\<lambda>r. py_eq (fst r) u) ?rows))
      = mset (map snd (filter (\<lambda>r. \<not> is_na (fst r)) ?rows))"
    by simp
  moreover have "fig = \<lparr>fig_data = map (\<lambda>i. Box (box_for cs ns i)) (unique (s_values cs)),
                         fig_layout = title_layout (multi_box_title col num)\<rparr>"
    using assms(1) by (simp add: plot_multi_box_ok [OF assms(2,3)])
  ultimately show ?thesis
    by (simp add: box_y_box_for comp_def image_mset_sum_list)
qed

theorem plot_multi_box_partition_witness:
  "\<exists>fig. plot_multi_box grp_frame ''grp'' ''val'' = Inr fig
     \<and> (\<Sum>t\<leftarrow>fig_data fig. case t of Box b \<Rightarrow> mset (box_y b) | _ \<Rightarrow> {#}) = {#CInt 1, CInt 3, CInt 4#}"
proof -
  obtain fig where f: "plot_multi_box grp_frame ''grp'' ''val'' = Inr fig" using grp_ok by blast
  show ?thesis
    using plot_multi_box_partition [OF f get_col_grp get_col_val] f by auto
qed

lemma unique_Nil_iff: "unique xs = [] \<longleftrightarrow> xs = []"
  using unique_keys [of xs] by auto

text \<open>
  C19. \<open>plot_multi_box\<close> fails exactly when the grouping column is missing
  (\<open>KeyError(col_name)\<close>), or when it has rows and the numeric column is missing
  (\<open>KeyError(num_col_name)\<close>, raised inside the loop).
\<close>

theorem plot_multi_box_error:
  "plot_multi_box df col num = Inl e \<longleftrightarrow>
     (col \<notin> fst ` set (fcols df) \<and> e = KeyError col) \<or>
     (\<exists>cs. get_col df col = Inr cs \<and> s_values cs \<noteq> [] \<and> num \<notin> fst ` set (fcols df) \<and> e = KeyError num)"
  by (cases "get_col df col"; cases "get_col df num";
      simp add: plot_multi_box_def box_loop_map unique_Nil_iff;
      auto simp: get_col_Inl_iff dest: get_col_Inr_mem)

theorem plot_multi_box_error_witness:
  "plot_multi_box grp_frame ''grp'' ''price'' = Inl (KeyError ''price'')"
  using plot_multi_box_error [of grp_frame "''grp''" "''price''" "KeyError ''price''"]
  by (simp add: grp_frame_def get_col_def)

text \<open>
  C20. On a table without rows the loop body never runs: the numeric column is never
  read, and a missing one raises nothing; the figure has no boxes.
\<close>

theorem plot_multi_box_no_rows:
  assumes "get_col df col = Inr cs" and "s_values cs = []"
  shows "plot_multi_box df col num = Inr \<lparr>fig_data = [], fig_layout = title_layout (multi_box_title col num)\<rparr>"
  using assms by (simp add: plot_multi_box_def unique_def)

theorem plot_multi_box_no_rows_witness:
  "plot_multi_box empty_grp_frame ''grp'' ''val'' =
     Inr \<lparr>fig_data = [], fig_layout = title_layout (multi_box_title ''grp'' ''val'')\<rparr>"
  using plot_multi_box_no_rows [of empty_grp_frame "''grp''" "\<lparr>s_dtype = Object, s_values = []\<rparr>" "''val''"]
  by (simp add: empty_grp_frame_def get_col_def)



end
