(* ===== verification/GroupedBar.thy ===== *)
theory GroupedBar
  imports Frame Py_Format Plotly
begin

text \<open>
  \<open>plot_grouped_bar(dataframe, index_col, col1, col2)\<close>
  (\<^verbatim>\<open>src/Plotting/HelperFunctionsPlotlyPlotting.py\<close>): two bar series,
  \<open>raw\<close> and \<open>shadow removed\<close>, side by side over an index column. The three
  columns are read in the order of the code (\<open>KeyError\<close> for the first missing),
  then \<open>np.round(y1, 2)\<close> and \<open>np.round(y2, 2)\<close>, which on a Series is
  \<open>Series.round\<close> (\<open>round_series\<close>): an \<open>object\<close> column raises
  \<open>TypeError\<close>, integers are kept and floats rounded as \<open>np_round\<close>. The figure
  is built with the default layout and then changed in place by
  \<open>fig.update_layout(barmode='group', title=...)\<close> (\<open>update_layout\<close>).
\<close>

section \<open>Definitions\<close>

text \<open>\<open>Series.round(decimals)\<close>.\<close>

definition object_round_error :: py_error where
  "object_round_error = TypeError ''Expected numeric dtype, got object instead.''"

definition round_series :: "nat \<Rightarrow> series \<Rightarrow> series result" where
  "round_series d s =
     (if s_dtype s = Object then Inl object_round_error
      else bindr (mapr (np_round_cell d) (s_values s)) (\<lambda>vs. Inr (s\<lparr>s_values := vs\<rparr>)))"

text \<open>The layout of \<open>go.Figure(data)\<close>: nothing set.\<close>

definition empty_layout :: layout where
  "empty_layout =
     \<lparr>lay_autosize = None, lay_width = None, lay_height = None, lay_title = None,
      lay_titlefont = None, lay_xaxis = None, lay_yaxis = None, lay_font = None, lay_barmode = None\<rparr>"

text \<open>\<open>fig.update_layout(barmode=..., title=...)\<close>: the two attributes replaced, the rest kept.\<close>

definition update_layout :: "string \<Rightarrow> string \<Rightarrow> figure \<Rightarrow> figure" where
  "update_layout barmode title fig =
     fig\<lparr>fig_layout := (fig_layout fig)\<lparr>lay_barmode := Some barmode, lay_title := Some title\<rparr>\<rparr>"

definition grouped_title :: "string \<Rightarrow> string \<Rightarrow> string \<Rightarrow> string" where
  "grouped_title col1 col2 index_col =
     ''Grouped bar chart for '' @ col1 @ '' and '' @ col2 @ '' columns, compared on '' @ index_col"

text \<open>\<open>go.Bar(name=name, x=x, y=y, text=t, textposition='auto')\<close>.\<close>

definition named_bar :: "string \<Rightarrow> series \<Rightarrow> series \<Rightarrow> series \<Rightarrow> trace" where
  "named_bar name x y t =
     Bar \<lparr>bar_name = Some name, bar_x = s_values x, bar_y = s_values y, bar_text = s_values t,
          bar_textposition = Some ''auto'', bar_marker_color = None\<rparr>"

definition plot_grouped_bar :: "frame \<Rightarrow> string \<Rightarrow> string \<Rightarrow> string \<Rightarrow> figure result" where
  "plot_grouped_bar df index_col col1 col2 =
     bindr (get_col df index_col) (\<lambda>x.
     bindr (get_col df col1) (\<lambda>y1.
     bindr (get_col df col2) (\<lambda>y2.
     bindr (round_series 2 y1) (\<lambda>text_y1.
     bindr (round_series 2 y2) (\<lambda>text_y2.
       let data = [named_bar ''raw'' x y1 text_y1, named_bar ''shadow removed'' x y2 text_y2];
           fig = \<lparr>fig_data = data, fig_layout = empty_layout\<rparr>
       in Inr (update_layout ''group'' (grouped_title col1 col2 index_col) fig))))))"

text \<open>
  Two measurements per index value, as
  \<open>pd.DataFrame({'k': ['a', 'b'], 'raw': [2.675, 1.0], 'sr': [1.005, 2.0]})\<close>, and the
  same with the second column stored as \<open>object\<close>.
\<close>

definition pair_frame :: frame where
  "pair_frame = \<lparr>fcols = [(''k'', \<lparr>s_dtype = Object, s_values = [CStr ''a'', CStr ''b'']\<rparr>),
      (''raw'', \<lparr>s_dtype = Float64, s_values = [CFloat (to_double (2675 / 1000)), CFloat 1]\<rparr>),
      (''sr'', \<lparr>s_dtype = Float64, s_values = [CFloat (to_double (1005 / 1000)), CFloat 2]\<rparr>),
      (''sr_obj'', \<lparr>s_dtype = Object, s_values = [CFloat (to_double (1005 / 1000)), CFloat 2]\<rparr>)],
     nrows = 2\<rparr>"

declare object_round_error_def [py_eval] round_series_def [py_eval] empty_layout_def [py_eval]
  update_layout_def [py_eval] grouped_title_def [py_eval] named_bar_def [py_eval]
  plot_grouped_bar_def [py_eval] pair_frame_def [py_eval]

section \<open>Lemmas\<close>

lemma pair_ok: "\<exists>fig. plot_grouped_bar pair_frame ''k'' ''raw'' ''sr'' = Inr fig"
  by (simp add: py_eval get_col_def cong: let_weak_cong)

lemma round_series_ok:
  "series_wf s \<Longrightarrow> s_dtype s \<noteq> Object \<Longrightarrow>
   \<exists>vs. round_series d s = Inr (s\<lparr>s_values := vs\<rparr>) \<and> list_all2 (\<lambda>y t. np_round_cell d y = Inr t) (s_values s) vs"
proof -
  assume wf: "series_wf s" and nobj: "s_dtype s \<noteq> Object"
  have "\<forall>c\<in>set (s_values s). \<exists>t. np_round_cell d c = Inr t"
  proof
    fix c assume "c \<in> set (s_values s)"
    then have "conforms (s_dtype s) c" using wf by (simp add: series_wf_def list_all_iff)
    then show "\<exists>t. np_round_cell d c = Inr t"
      using nobj by (cases "s_dtype s"; cases c) simp_all
  qed
  then have "mapr (np_round_cell d) (s_values s) = Inr (map (\<lambda>c. projr (np_round_cell d c)) (s_values s))"
    by (intro mapr_map) auto
  then show ?thesis
    using nobj mapr_Inr_all2 by (fastforce simp: round_series_def)
qed

lemma plot_grouped_bar_Inr:
  assumes "plot_grouped_bar df i c1 c2 = Inr fig"
  obtains x y1 y2 t1 t2 where "get_col df i = Inr x" and "get_col df c1 = Inr y1" and "get_col df c2 = Inr y2"
    and "round_series 2 y1 = Inr t1" and "round_series 2 y2 = Inr t2"
    and "fig = update_layout ''group'' (grouped_title c1 c2 i)
                 \<lparr>fig_data = [named_bar ''raw'' x y1 t1, named_bar ''shadow removed'' x y2 t2],
                  fig_layout = empty_layout\<rparr>"
  using assms by (auto simp: plot_grouped_bar_def bindr_eq_Inr Let_def)

lemma list_all2_round_series:
  "round_series d s = Inr t \<Longrightarrow> list_all2 (\<lambda>y t. np_round_cell d y = Inr t) (s_values s) (s_values t)"
  by (auto simp: round_series_def bindr_eq_Inr split: if_splits dest: mapr_Inr_all2)

lemma wf_pair_frame: "frame_wf pair_frame"
  by (simp add: frame_wf_def series_wf_def pair_frame_def)

section \<open>Properties of \<open>plot_grouped_bar\<close>\<close>

text \<open>
  C21. The grouped chart has the bars \<open>raw\<close> and \<open>shadow removed\<close> over the index
  column; their heights are the columns' own values, unrounded, and only the texts are
  \<open>np.round(y, 2)\<close>, value by value; the bars are grouped.
\<close>

theorem plot_grouped_bar_values:
  assumes "plot_grouped_bar df i c1 c2 = Inr fig"
  shows "\<exists>x y1 y2 b1 b2. get_col df i = Inr x \<and> get_col df c1 = Inr y1 \<and> get_col df c2 = Inr y2
     \<and> fig_data fig = [Bar b1, Bar b2]
     \<and> bar_name b1 = Some ''raw'' \<and> bar_name b2 = Some ''shadow removed''
     \<and> bar_x b1 = s_values x \<and> bar_x b2 = s_values x
     \<and> bar_y b1 = s_values y1 \<and> bar_y b2 = s_values y2
     \<and> list_all2 (\<lambda>y t. np_round_cell 2 y = Inr t) (bar_y b1) (bar_text b1)
     \<and> list_all2 (\<lambda>y t. np_round_cell 2 y = Inr t) (bar_y b2) (bar_text b2)
     \<and> lay_barmode (fig_layout fig) = Some ''group''"
  using assms
proof (rule plot_grouped_bar_Inr)
  fix x y1 y2 t1 t2
  assume g: "get_col df i = Inr x" "get_col df c1 = Inr y1" "get_col df c2 = Inr y2"
    and r: "round_series 2 y1 = Inr t1" "round_series 2 y2 = Inr t2"
    and fig: "fig = update_layout ''group'' (grouped_title c1 c2 i)
                 \<lparr>fig_data = [named_bar ''raw'' x y1 t1, named_bar ''shadow removed'' x y2 t2],
                  fig_layout = empty_layout\<rparr>"
  show ?thesis
    using g list_all2_round_series [OF r(1)] list_all2_round_series [OF r(2)]
    by (simp add: fig update_layout_def named_bar_def)
qed

theorem plot_grouped_bar_values_witness:
  "\<exists>fig. plot_grouped_bar pair_frame ''k'' ''raw'' ''sr'' = Inr fig \<and> lay_barmode (fig_layout fig) = Some ''group''"
proof -
  obtain fig where f: "plot_grouped_bar pair_frame ''k'' ''raw'' ''sr'' = Inr fig" using pair_ok by blast
  show ?thesis using plot_grouped_bar_values [OF f] f by blast
qed

text \<open>
  C22. On a well-formed table \<open>plot_grouped_bar\<close> fails exactly with \<open>KeyError\<close> for
  the first missing of \<open>index_col\<close>, \<open>col1\<close>, \<open>col2\<close>, in that order, and
  otherwise with \<open>Series.round\<close>'s \<open>TypeError\<close> when a value column has dtype
  \<open>object\<close>, even if all its values are numbers.
\<close>

theorem plot_grouped_bar_error:
  assumes "frame_wf df"
  shows "plot_grouped_bar df i c1 c2 = Inl e \<longleftrightarrow>
     (i \<notin> fst ` set (fcols df) \<and> e = KeyError i) \<or>
     (i \<in> fst ` set (fcols df) \<and> c1 \<notin> fst ` set (fcols df) \<and> e = KeyError c1) \<or>
     (i \<in> fst ` set (fcols df) \<and> c1 \<in> fst ` set (fcols df) \<and> c2 \<notin> fst ` set (fcols df) \<and> e = KeyError c2) \<or>
     (i \<in> fst ` set (fcols df) \<and> (\<exists>y1 y2. get_col df c1 = Inr y1 \<and> get_col df c2 = Inr y2 \<and>
        (s_dtype y1 = Object \<or> s_dtype y2 = Object)) \<and> e = object_round_error)"
proof -
  have ok: "get_col df c = Inr y \<Longrightarrow> s_dtype y \<noteq> Object \<Longrightarrow> \<exists>t. round_series 2 y = Inr t" for c y
    using round_series_ok [of y 2] get_col_wf [OF assms] by blast
  have obj: "s_dtype y = Object \<Longrightarrow> round_series 2 y = Inl object_round_error" for y
    by (simp add: round_series_def)
  show ?thesis
    by (cases "get_col df i"; cases "get_col df c1"; cases "get_col df c2";
        simp add: plot_grouped_bar_def;
        auto simp: get_col_Inl_iff bindr_eq_Inl obj dest: get_col_Inr_mem ok)
qed

theorem plot_grouped_bar_error_witness:
  "plot_grouped_bar pair_frame ''k'' ''raw'' ''sr_obj'' = Inl object_round_error"
  using plot_grouped_bar_error [OF wf_pair_frame, of "''k''" "''raw''" "''sr_obj''" object_round_error]
  by (simp add: pair_frame_def get_col_def)

end
