(* ===== verification/Hist.thy ===== *)
theory Hist
  imports Frame Plotly
begin

text \<open>
  \<open>plot_hist(dataframe, col_name)\<close>
  (\<^verbatim>\<open>src/Plotting/HelperFunctionsPlotlyPlotting.py\<close>): a \<open>go.Histogram\<close> of
  one column in lava red, titled \<open>Histogram of col_name\<close>. Binning is left to plotly.
\<close>

definition hist_title :: "string \<Rightarrow> string" where
  "hist_title col_name = ''Histogram of '' @ col_name"

definition plot_hist :: "frame \<Rightarrow> string \<Rightarrow> figure result" where
  "plot_hist df col_name =
     bindr (get_col df col_name) (\<lambda>s.
       Inr \<lparr>fig_data = [Histogram \<lparr>hist_x = s_values s, hist_marker_color = Some ''#CC0E1D''\<rparr>],
            fig_layout = title_layout (hist_title col_name)\<rparr>)"

declare hist_title_def [py_eval] plot_hist_def [py_eval]

end
