(* ===== verification/Setup_Files.thy ===== *)
theory Setup_Files
  imports Py_Prelude
begin

text \<open>
  The file-reading part of the packaging script \<^verbatim>\<open>src/setup.py\<close>. A file is its
  contents, or \<open>None\<close> when it does not exist; \<open>read_file\<close> is
  \<open>io.open(path).read()\<close>, which raises \<open>FileNotFoundError\<close> on a missing file
  (caught only around \<open>requirements.txt\<close>). Modelled: \<open>get_long_description\<close>;
  \<open>get_version\<close>, which reads \<open>__init__.py\<close> and applies \<open>version_search\<close>, that is
  \<open>re.search(r'^__version__ = [\'"]([^\'"]*)[\'"]', text, re.M).group(1)\<close> with
  \<open>^\<close> matching at every line start (\<open>line_starts\<close>) and the leftmost match
  winning; the requirements list \<open>f.read().split("\n")\<close> (\<open>split_on\<close>, Python's
  \<open>str.split\<close> with a separator, and its inverse \<open>join_on\<close>); and
  \<open>get_test_requirements\<close> over \<open>sys.version_info\<close> compared as a tuple (the
  lexicographic order of \<open>List_Lexorder\<close>).
\<close>

section \<open>Reading files\<close>

definition read_file :: "string \<Rightarrow> string option \<Rightarrow> string result" where
  "read_file path file = (case file of None \<Rightarrow> Inl (FileNotFoundError path) | Some content \<Rightarrow> Inr content)"

text \<open>\<open>get_long_description()\<close>: the contents of \<open>README.md\<close>.\<close>

definition get_long_description :: "string option \<Rightarrow> string result" where
  "get_long_description readme = read_file ''README.md'' readme"

section \<open>\<open>get_version\<close>\<close>

definition quote_chars :: "char list" where
  "quote_chars = [CHR 0x27, CHR 0x22]"

definition version_prefix :: string where
  "version_prefix = ''__version__ = ''"

definition version_at :: "string \<Rightarrow> string option" where
  "version_at l =
     (if take (length version_prefix) l = version_prefix then
        (case drop (length version_prefix) l of
           [] \<Rightarrow> None
         | q # rest \<Rightarrow>
             if q \<in> set quote_chars then
               (let v = takeWhile (\<lambda>c. c \<notin> set quote_chars) rest
                in if length v < length rest then Some v else None)
             else None)
      else None)"

function line_starts :: "string \<Rightarrow> string list" where
  "line_starts s =
     s # (case dropWhile (\<lambda>c. c \<noteq> CHR 0x0A) s of [] \<Rightarrow> [] | _ # rest \<Rightarrow> line_starts rest)"
  by pat_completeness auto
termination
proof (relation "measure length")
  fix s x rest
  assume "dropWhile (\<lambda>c. c \<noteq> CHR 0x0A) s = x # rest"
  then have "length (x # rest) \<le> length s" by (metis length_dropWhile_le)
  then show "(rest, s) \<in> measure length" by simp
qed simp

definition no_match_error :: py_error where
  "no_match_error = AttributeError ''NoneType object has no attribute group''"

text \<open>\<open>re.search(..., text, re.M).group(1)\<close>: the first line start where the pattern matches.\<close>

definition version_search :: "string \<Rightarrow> string result" where
  "version_search content =
     (case List.map_filter version_at (line_starts content) of
        v # _ \<Rightarrow> Inr v
      | [] \<Rightarrow> Inl no_match_error)"

definition get_version :: "string option \<Rightarrow> string result" where
  "get_version init_py = bindr (read_file ''__init__.py'' init_py) version_search"

section \<open>Requirements and test requirements\<close>

text \<open>\<open>s.split(c)\<close> for a one-character separator.\<close>

fun split_on :: "char \<Rightarrow> string \<Rightarrow> string list" where
  "split_on c [] = [[]]"
| "split_on c (x # xs) =
     (let r = split_on c xs in if x = c then [] # r else (x # hd r) # tl r)"

text \<open>\<open>c.join(ws)\<close>.\<close>

fun join_on :: "char \<Rightarrow> string list \<Rightarrow> string" where
  "join_on c [] = []"
| "join_on c [w] = w"
| "join_on c (w # ws) = w @ c # join_on c ws"

definition read_requirements :: "string option \<Rightarrow> string list" where
  "read_requirements file =
     (case read_file ''requirements.txt'' file of Inl _ \<Rightarrow> [] | Inr content \<Rightarrow> split_on CHR 0x0A content)"

definition get_test_requirements :: "int list \<Rightarrow> string list" where
  "get_test_requirements version_info =
     (let requirements = [''pytest''] in
      if version_info < [3, 3] then requirements @ [''mock''] else requirements)"

declare read_file_def [py_eval] get_long_description_def [py_eval] version_search_def [py_eval]
  quote_chars_def [py_eval] version_prefix_def [py_eval] version_at_def [py_eval]
  no_match_error_def [py_eval] get_version_def [py_eval] read_requirements_def [py_eval]
  get_test_requirements_def [py_eval]
declare line_starts.simps [simp del]

section \<open>Lemmas\<close>

lemma split_on_not_Nil [simp]: "split_on c s \<noteq> []"
  by (induction s) (auto simp: Let_def)

lemma join_split_on: "join_on c (split_on c s) = s"
proof (induction s)
  case (Cons x xs)
  obtain w ws where r: "split_on c xs = w # ws" by (cases "split_on c xs") auto
  show ?case
  proof (cases "x = c")
    case True
    then show ?thesis using Cons r by (cases ws) auto
  next
    case False
    then show ?thesis using Cons r by (cases ws) auto
  qed
qed simp

lemma split_join_on:
  "ws \<noteq> [] \<Longrightarrow> \<forall>w\<in>set ws. c \<notin> set w \<Longrightarrow> split_on c (join_on c ws) = ws"
proof (induction ws rule: join_on.induct)
  case (2 c w)
  then show ?case by (induction w) (auto simp: Let_def)
next
  case (3 c w v vs)
  have "split_on c (w @ c # u) = w # split_on c u" if "c \<notin> set w" for u
    using that by (induction w) (auto simp: Let_def)
  with 3 show ?case by simp
qed simp

lemma dropWhile_line: "c \<notin> set l \<Longrightarrow> dropWhile (\<lambda>x. x \<noteq> c) (l @ c # s) = c # s"
  by (induction l) auto

lemma line_starts_line:
  "CHR 0x0A \<notin> set l \<Longrightarrow> line_starts (l @ CHR 0x0A # s) = (l @ CHR 0x0A # s) # line_starts s"
  by (subst line_starts.simps) (simp add: dropWhile_line)

lemma version_at_other:
  "CHR 0x0A \<notin> set l \<Longrightarrow> take (length version_prefix) l \<noteq> version_prefix \<Longrightarrow>
   version_at (l @ CHR 0x0A # s) = None"
proof -
  assume nl: "CHR 0x0A \<notin> set l" and np: "take (length version_prefix) l \<noteq> version_prefix"
  have "take (length version_prefix) (l @ CHR 0x0A # s) \<noteq> version_prefix"
  proof (cases "length version_prefix \<le> length l")
    case True
    then show ?thesis using np by simp
  next
    case False
    then obtain k where "length version_prefix - length l = Suc k"
      by (metis less_imp_Suc_add not_le zero_less_diff add.commute plus_1_eq_Suc add_Suc_right)
    then have "CHR 0x0A \<in> set (take (length version_prefix) (l @ CHR 0x0A # s))"
      by (simp add: take_append)
    moreover have "CHR 0x0A \<notin> set version_prefix" by (simp add: version_prefix_def)
    ultimately show ?thesis by (metis)
  qed
  then show ?thesis by (simp add: version_at_def)
qed

lemma version_at_line:
  "q \<in> set quote_chars \<Longrightarrow> q' \<in> set quote_chars \<Longrightarrow> \<forall>c\<in>set v. c \<notin> set quote_chars \<Longrightarrow>
   version_at (version_prefix @ q # v @ q' # rest) = Some v"
  by (simp add: version_at_def takeWhile_append2)

lemma version_search_lines:
  assumes "\<forall>l\<in>set pre. CHR 0x0A \<notin> set l \<and> take (length version_prefix) l \<noteq> version_prefix"
  shows "version_search (concat (map (\<lambda>l. l @ [CHR 0x0A]) pre) @ s) = version_search s"
  using assms
proof (induction pre)
  case (Cons l pre)
  then show ?case
    by (simp add: version_search_def line_starts_line version_at_other map_filter_simps)
qed simp

lemma version_search_first: "version_at s = Some v \<Longrightarrow> version_search s = Inr v"
  by (subst version_search_def, subst line_starts.simps) (simp add: map_filter_simps)

lemma get_version_Some [simp]: "get_version (Some content) = version_search content"
  by (simp add: get_version_def read_file_def)

lemma version_at_no_quote:
  assumes nl: "CHR 0x0A \<notin> set l"
    and nq: "\<forall>q\<in>set quote_chars. take (length version_prefix + 1) l \<noteq> version_prefix @ [q]"
    and t: "t = l \<or> t = l @ CHR 0x0A # s"
  shows "version_at t = None"
proof (cases "take (length version_prefix) t = version_prefix")
  case False
  then show ?thesis by (simp add: version_at_def)
next
  case True
  have pn: "CHR 0x0A \<notin> set version_prefix" by (simp add: version_prefix_def)
  have len: "length version_prefix \<le> length l"
  proof (rule ccontr)
    assume "\<not> length version_prefix \<le> length l"
    then have "length l < length version_prefix" by simp
    then obtain k where k: "length version_prefix = length l + Suc k"
      by (metis add_Suc_right less_iff_Suc_add)
    from t show False
    proof
      assume "t = l"
      then have "length (take (length version_prefix) t) < length version_prefix" using k by simp
      with True show False by simp
    next
      assume "t = l @ CHR 0x0A # s"
      then have "CHR 0x0A \<in> set (take (length version_prefix) t)" using k by (simp add: take_append)
      with True pn show False by simp
    qed
  qed
  have tl: "take (length version_prefix) l = version_prefix" using True t len by auto
  show ?thesis
  proof (cases "drop (length version_prefix) l")
    case Nil
    then have "drop (length version_prefix) t = [] \<or> drop (length version_prefix) t = CHR 0x0A # s"
      using t len by auto
    with True show ?thesis by (auto simp: version_at_def quote_chars_def)
  next
    case (Cons c rest)
    then have "take (length version_prefix + 1) l = version_prefix @ [c]"
      using tl by (metis take_add take_Suc_Cons take_eq_Nil2 zero_neq_one take_0 One_nat_def)
    with nq have c: "c \<notin> set quote_chars" by auto
    have "\<exists>r. drop (length version_prefix) t = c # r" using t Cons len by auto
    with True c show ?thesis by (auto simp: version_at_def)
  qed
qed

lemma version_search_no_quote:
  assumes "\<forall>l\<in>set (pre @ [lst]). CHR 0x0A \<notin> set l
             \<and> (\<forall>q\<in>set quote_chars. take (length version_prefix + 1) l \<noteq> version_prefix @ [q])"
  shows "version_search (concat (map (\<lambda>l. l @ [CHR 0x0A]) pre) @ lst) = Inl no_match_error"
  using assms
proof (induction pre)
  case Nil
  then have "version_at lst = None" by (intro version_at_no_quote) auto
  moreover have dw: "dropWhile (\<lambda>c. c \<noteq> CHR 0x0A) lst = []"
    using Nil by (auto simp: dropWhile_eq_Nil_conv)
  then have "line_starts lst = [lst]" by (subst line_starts.simps) (simp only: dw list.case)
  ultimately show ?case by (simp add: version_search_def map_filter_simps)
next
  case (Cons l pre)
  then have "version_at (l @ CHR 0x0A # concat (map (\<lambda>l. l @ [CHR 0x0A]) pre) @ lst) = None"
    by (intro version_at_no_quote [where s = "concat (map (\<lambda>l. l @ [CHR 0x0A]) pre) @ lst"]) auto
  with Cons show ?case
    by (simp add: version_search_def line_starts_line map_filter_simps)
qed

lemma split_on_sep: "split_on c (xs @ c # ys) = split_on c xs @ split_on c ys"
  by (induction xs) (auto simp: Let_def)

section \<open>Properties of reading the version and the requirements\<close>

text \<open>
  C23. \<open>get_version\<close> reads back the version written in \<open>__init__.py\<close>: if the file
  exists, after any
  lines that do not start with \<open>__version__ = \<close>, a line
  \<open>__version__ = 'v'\<close> (either quote) yields \<open>v\<close>, for any \<open>v\<close> without quotes.
\<close>

theorem get_version_roundtrip:
  assumes "\<forall>l\<in>set pre. CHR 0x0A \<notin> set l \<and> take (length version_prefix) l \<noteq> version_prefix"
    and "q \<in> set quote_chars" and "q' \<in> set quote_chars" and "\<forall>c\<in>set v. c \<notin> set quote_chars"
  shows "get_version (Some (concat (map (\<lambda>l. l @ [CHR 0x0A]) pre) @ version_prefix @ q # v @ q' # rest)) = Inr v"
  using assms by (simp add: version_search_lines version_search_first version_at_line)

theorem get_version_roundtrip_witness:
  "get_version (Some (''# helpers'' @ [CHR 0x0A] @ version_prefix @ CHR 0x27 # ''0.1.2'' @ [CHR 0x27, CHR 0x0A]))
     = Inr ''0.1.2''"
  using get_version_roundtrip [of "[''# helpers'']" "CHR 0x27" "CHR 0x27" "''0.1.2''" "[CHR 0x0A]"]
  by (simp add: version_prefix_def quote_chars_def)

text \<open>
  C24. When no line of \<open>__init__.py\<close> starts with \<open>__version__ = \<close> followed by a
  quote, \<open>re.search\<close> returns \<open>None\<close> and \<open>.group(1)\<close> raises
  \<open>AttributeError\<close>: \<open>get_version\<close> fails, whatever else the lines hold. In
  particular \<open>__version__='1.0'\<close>, without the spaces, is not read.
\<close>

theorem get_version_no_version_line:
  assumes "\<forall>l\<in>set (pre @ [lst]). CHR 0x0A \<notin> set l
             \<and> (\<forall>q\<in>set quote_chars. take (length version_prefix + 1) l \<noteq> version_prefix @ [q])"
  shows "get_version (Some (concat (map (\<lambda>l. l @ [CHR 0x0A]) pre) @ lst)) = Inl no_match_error"
  using version_search_no_quote [OF assms] by simp

theorem get_version_no_version_line_witness:
  "get_version (Some (concat (map (\<lambda>l. l @ [CHR 0x0A]) [''# helpers'']) @ ''__version__='' @ CHR 0x27 # ''1.0'' @ [CHR 0x27]))
     = Inl no_match_error"
  by (rule get_version_no_version_line) (simp add: version_prefix_def quote_chars_def)

text \<open>
  C26. For every interpreter that \<open>python_requires=">=3.6"\<close> admits,
  \<open>get_test_requirements\<close> is \<open>["pytest"]\<close>: the \<open>mock\<close> branch for versions
  below 3.3 (tuple comparison) is dead.
\<close>

theorem get_test_requirements_supported:
  "[3, 6] \<le> version_info \<Longrightarrow> get_test_requirements version_info = [''pytest'']"
proof -
  assume v: "[3, 6] \<le> version_info"
  have "([3, 3] :: int list) < [3, 6]" by simp
  then have "\<not> version_info < [3, 3]" using v by (meson less_le_not_le order.strict_trans1)
  then show ?thesis by (simp add: get_test_requirements_def)
qed

theorem get_test_requirements_supported_witness:
  "get_test_requirements [3, 11, 4] = [''pytest'']"
  using get_test_requirements_supported [of "[3, 11, 4]"] by simp
end
