(* ===== verification/Setup.thy ===== *)
theory Setup
  imports Setup_Files
begin

text \<open>
  The command part of the packaging script \<^verbatim>\<open>src/setup.py\<close>:
  \<open>UploadCommand\<close>, with \<open>run\<close> as the trace of effects it performs in an environment
  that fixes the exit status of every \<open>os.system\<close> command and whether \<open>rmtree\<close>
  raises \<open>OSError\<close>, and the setuptools protocol that runs it; the module-level
  assignments (\<open>setup_meta\<close>); the keyword arguments passed to \<open>setup()\<close> as an
  association list; and \<open>run_setup_py\<close>, the whole script as the trace of its effects
  and its uncaught exception.
\<close>

section \<open>\<open>UploadCommand.run\<close>\<close>

text \<open>
  What the script does to the outside world: \<open>print\<close> of a string or of a list,
  \<open>rmtree\<close>, \<open>os.system\<close> with the exit status it returned, \<open>sys.exit()\<close>, and
  a \<open>setup()\<close> command other than \<open>upload\<close>, which setuptools itself runs.
\<close>

datatype effect = Print string | PrintList "string list" | RemoveTree string | System string int | Exit
  | SetupCommand string

record upload_env =
  sys_status :: "string \<Rightarrow> int"
  rmtree_raises :: bool

definition path_join :: "string \<Rightarrow> string \<Rightarrow> string" where
  "path_join d f = (if d = [] then f else if last d = CHR ''/'' then d @ f else d @ CHR ''/'' # f)"

definition run_status :: "string \<Rightarrow> effect list \<Rightarrow> effect list" where
  "run_status msg tr = tr @ [Print msg]"

definition run_rmtree :: "upload_env \<Rightarrow> string \<Rightarrow> effect list \<Rightarrow> effect list" where
  "run_rmtree env path tr = (if rmtree_raises env then tr else tr @ [RemoveTree path])"

definition run_system :: "upload_env \<Rightarrow> string \<Rightarrow> effect list \<Rightarrow> effect list" where
  "run_system env cmd tr = tr @ [System cmd (sys_status env cmd)]"

text \<open>
  \<open>run(self)\<close>: every step appends its effect to the trace; the status returned by
  \<open>os.system\<close> is recorded but never inspected; \<open>sys.exit()\<close> ends it.
\<close>

definition upload_run :: "upload_env \<Rightarrow> string \<Rightarrow> string \<Rightarrow> string \<Rightarrow> effect list" where
  "upload_run env current_dir executable version =
     (let t0 = run_status ''Removing previous builds...'' [];
          t1 = run_rmtree env (path_join current_dir ''dist'') t0;
          t2 = run_status ''Building Source and Wheel (universal) distribution...'' t1;
          t3 = run_system env (executable @ '' setup.py sdist bdist_wheel --universal'') t2;
          t4 = run_status ''Uploading the package to PyPI via Twine...'' t3;
          t5 = run_system env ''twine upload dist/*'' t4;
          t6 = run_status ''Pushing git tags...'' t5;
          t7 = run_system env (''git tag v'' @ version) t6;
          t8 = run_system env ''git push --tags'' t7
      in t8 @ [Exit])"

fun system_cmd :: "effect \<Rightarrow> string option" where
  "system_cmd (System c _) = Some c"
| "system_cmd _ = None"

text \<open>
  The class \<open>UploadCommand(Command)\<close>: its \<open>description\<close> and its (empty)
  \<open>user_options\<close>, each option a triple (long name, short name, help).
\<close>

record upload_command =
  cmd_description :: string
  cmd_user_options :: "(string \<times> string option \<times> string) list"

definition upload_command :: upload_command where
  "upload_command = \<lparr>cmd_description = ''Build and publish the package.'', cmd_user_options = []\<rparr>"

text \<open>\<open>initialize_options\<close> and \<open>finalize_options\<close> are \<open>pass\<close>: they leave the command as it is.\<close>

definition initialize_options :: "upload_command \<Rightarrow> upload_command" where
  "initialize_options cmd = cmd"

definition finalize_options :: "upload_command \<Rightarrow> upload_command" where
  "finalize_options cmd = cmd"

text \<open>
  \<open>cmdclass={"upload": UploadCommand}\<close>: setuptools runs the command as
  \<open>initialize_options()\<close>, then (with no options to parse) \<open>finalize_options()\<close>,
  then \<open>run()\<close>, which reads nothing from the command object.
\<close>

definition run_upload_command ::
  "upload_env \<Rightarrow> string \<Rightarrow> string \<Rightarrow> string \<Rightarrow> upload_command \<times> effect list" where
  "run_upload_command env current_dir executable version =
     (let cmd = finalize_options (initialize_options upload_command)
      in (cmd, upload_run env current_dir executable version))"

section \<open>Module-level assignments and the \<open>setup()\<close> call\<close>

text \<open>The values of the module's variables after lines 18--27.\<close>

record setup_meta =
  meta_name :: string
  meta_packages :: "string list"
  meta_author :: string
  meta_author_email :: string
  meta_description :: string
  meta_long_description :: string
  meta_url :: string
  meta_license :: string
  meta_python_requires :: string

definition module_meta :: setup_meta where
  "module_meta =
     \<lparr>meta_name = ''chelperfunctions'', meta_packages = [''ML'' @ ''Plotting''],
      meta_author = ''SCK'', meta_author_email = ''chaithanyakumar.ds@gmail.com'',
      meta_description = ''Helper functions for ml and dl workflow, python visualization support(experimental)'',
      meta_long_description = ''Helper functions for ml workflow'',
      meta_url = ''https://github.com/SCK22/CHelperFunctions'', meta_license = ''MIT'',
      meta_python_requires = ''>=3.6''\<rparr>"

datatype pyval = PStr string | PList "string list" | PDict "(string \<times> string list) list" | PCmdclass

definition extras :: "(string \<times> string list) list" where
  "extras = [(''test'', [''pytest''])]"

definition classifiers :: "string list" where
  "classifiers =
     [''License :: OSI Approved :: MIT License'', ''Intended Audience :: Developers'',
      ''Intended Audience :: Science/Research'', ''Operating System :: OS Independent'',
      ''Programming Language :: Python'', ''Programming Language :: Python :: 3'',
      ''Topic :: Software Development :: Libraries'',
      ''Topic :: Software Development :: Libraries :: Python Modules'']"

text \<open>
  The keyword arguments of \<open>setup(...)\<close> (lines 103--126), given \<open>version\<close>, the
  files \<open>requirements.txt\<close> and \<open>README.md\<close>, and the result of
  \<open>find_packages(exclude=[...])\<close>; \<open>get_long_description()\<close> is the only call
  among them that can raise.
\<close>

definition setup_kwargs ::
  "string \<Rightarrow> string option \<Rightarrow> string option \<Rightarrow> string list \<Rightarrow> (string \<times> pyval) list result" where
  "setup_kwargs version requirements_txt readme found_packages =
     bindr (get_long_description readme) (\<lambda>long_description.
       Inr [(''name'', PStr (meta_name module_meta)), (''version'', PStr version),
            (''description'', PStr (meta_description module_meta)),
            (''long_description'', PStr long_description),
            (''long_description_content_type'', PStr ''text/markdown''),
            (''author'', PStr ''Vladimir Iglovikov''), (''license'', PStr ''MIT''),
            (''url'', PStr (meta_url module_meta)), (''packages'', PList found_packages),
            (''install_requires'', PList (read_requirements requirements_txt)),
            (''extras_require'', PDict extras), (''classifiers'', PList classifiers),
            (''cmdclass'', PCmdclass)])"

text \<open>
  \<open>python setup.py argv\<close> as a whole: the module-level \<open>print\<close> calls (lines 13--15),
  the requirements read (lines 44--49, which cannot fail), \<open>version = get_version()\<close>
  (line 99), then \<open>setup(...)\<close>, which for the \<open>upload\<close> command runs
  \<open>UploadCommand.run\<close> with \<open>about["__version__"]\<close>, after the no-op
  \<open>initialize_options\<close> and \<open>finalize_options\<close>. The result is the trace of
  effects and the uncaught exception, if any.
\<close>

record script_env =
  env_cwd :: string
  env_script_dir :: string
  env_executable :: string
  env_all_packages :: "string list"
  env_found_packages :: "string list"
  env_init_py :: "string option"
  env_requirements_txt :: "string option"
  env_readme :: "string option"
  env_sys :: upload_env

text \<open>
  Lines 13--15: \<open>print(os.path.join(os.getcwd()))\<close>, then
  \<open>packages = find_packages()\<close> and \<open>print(packages)\<close>.
\<close>

definition module_prints :: "script_env \<Rightarrow> effect list" where
  "module_prints env = [Print (env_cwd env), PrintList (env_all_packages env)]"

text \<open>
  The commands of \<open>argv\<close>, which \<open>setup()\<close> runs one after the other:
  \<open>upload\<close> runs \<open>UploadCommand\<close>, whose \<open>sys.exit()\<close> ends the script
  and so the remaining commands; any other command is run by setuptools.
\<close>

fun run_commands :: "upload_env \<Rightarrow> string \<Rightarrow> string \<Rightarrow> string \<Rightarrow> string list \<Rightarrow> effect list" where
  "run_commands env current_dir executable version [] = []"
| "run_commands env current_dir executable version (c # cs) =
     (if c = ''upload'' then snd (run_upload_command env current_dir executable version)
      else SetupCommand c # run_commands env current_dir executable version cs)"

definition run_setup_py :: "script_env \<Rightarrow> string list \<Rightarrow> effect list \<times> py_error option" where
  "run_setup_py env argv =
     (let t0 = module_prints env in
      case get_version (env_init_py env) of
        Inl e \<Rightarrow> (t0, Some e)
      | Inr version \<Rightarrow>
          (case setup_kwargs version (env_requirements_txt env) (env_readme env) (env_found_packages env) of
             Inl e \<Rightarrow> (t0, Some e)
           | Inr kw \<Rightarrow>
               (t0 @ run_commands (env_sys env) (env_script_dir env) (env_executable env) version argv, None)))"

declare path_join_def [py_eval] run_status_def [py_eval] upload_command_def [py_eval]
  initialize_options_def [py_eval] finalize_options_def [py_eval] run_upload_command_def [py_eval]
  run_rmtree_def [py_eval] run_system_def [py_eval] upload_run_def [py_eval] module_meta_def [py_eval]
  extras_def [py_eval] classifiers_def [py_eval] setup_kwargs_def [py_eval] module_prints_def [py_eval] run_commands.simps [py_eval]
  run_setup_py_def [py_eval]

section \<open>Lemmas\<close>

lemma setup_kwargs_Inr:
  "setup_kwargs ver req readme pkgs = Inr kw \<Longrightarrow>
   \<exists>long. readme = Some long \<and>
     kw = [(''name'', PStr (meta_name module_meta)), (''version'', PStr ver),
           (''description'', PStr (meta_description module_meta)),
           (''long_description'', PStr long),
           (''long_description_content_type'', PStr ''text/markdown''),
           (''author'', PStr ''Vladimir Iglovikov''), (''license'', PStr ''MIT''),
           (''url'', PStr (meta_url module_meta)), (''packages'', PList pkgs),
           (''install_requires'', PList (read_requirements req)),
           (''extras_require'', PDict extras), (''classifiers'', PList classifiers),
           (''cmdclass'', PCmdclass)]"
  by (cases readme) (auto simp: setup_kwargs_def get_long_description_def read_file_def bindr_eq_Inr)

lemma upload_run_commands:
  "List.map_filter system_cmd (upload_run env current_dir executable version) =
     [executable @ '' setup.py sdist bdist_wheel --universal'', ''twine upload dist/*'',
      ''git tag v'' @ version, ''git push --tags''] \<and>
   last (upload_run env current_dir executable version) = Exit"
  by (cases "rmtree_raises env")
     (simp_all add: upload_run_def run_status_def run_rmtree_def run_system_def map_filter_def Let_def)

lemma upload_run_not_Nil: "upload_run env current_dir executable version \<noteq> []"
  by (simp add: upload_run_def Let_def)

lemma run_setup_py_ok:
  "env_init_py env = Some content \<Longrightarrow> version_search content = Inr v \<Longrightarrow> env_readme env = Some long \<Longrightarrow>
   run_setup_py env argv =
     (module_prints env @ run_commands (env_sys env) (env_script_dir env) (env_executable env) v argv, None)"
  by (simp add: run_setup_py_def run_upload_command_def setup_kwargs_def get_long_description_def read_file_def)

section \<open>Properties of the commands and of the script\<close>

text \<open>
  C25. \<open>install_requires\<close> is \<open>requirements.txt\<close> split at every newline, so a file
  that ends in a newline, as most editors write it, passes the empty requirement
  \<open>""\<close> last; the other entries join back to the file without its final newline.
\<close>

theorem setup_install_requires_trailing_newline:
  assumes "setup_kwargs ver (Some (content @ [CHR 0x0A])) readme pkgs = Inr kw"
  shows "\<exists>rs. map_of kw ''install_requires'' = Some (PList (rs @ [[]])) \<and> join_on CHR 0x0A rs = content"
  using setup_kwargs_Inr [OF assms]
  by (auto simp: read_requirements_def read_file_def split_on_sep join_split_on)

theorem setup_install_requires_trailing_newline_witness:
  "\<exists>kw. setup_kwargs ''0.1'' (Some (''numpy'' @ [CHR 0x0A])) (Some ''#'') [] = Inr kw
     \<and> (\<exists>rs. map_of kw ''install_requires'' = Some (PList (rs @ [[]])) \<and> join_on CHR 0x0A rs = ''numpy'')"
proof -
  obtain kw where kw: "setup_kwargs ''0.1'' (Some (''numpy'' @ [CHR 0x0A])) (Some ''#'') [] = Inr kw"
    by (simp add: setup_kwargs_def get_long_description_def read_file_def)
  show ?thesis using setup_install_requires_trailing_newline [OF kw] kw by blast
qed

text \<open>
  C27. \<open>python setup.py upload\<close>, with \<open>__init__.py\<close> holding a version line for
  \<open>v\<close> and \<open>README.md\<close> present, runs the build, the upload, \<open>git tag v\<close>\<open>v\<close> and the
  push, in this order, whatever the exit statuses of \<open>os.system\<close> and whether
  removing \<open>dist\<close> fails, then exits: the tag pushed is the version read from
  \<open>__init__.py\<close> at module level.
\<close>

theorem setup_py_upload:
  assumes "env_init_py env = Some content" and "version_search content = Inr v" and "env_readme env = Some long"
  shows "List.map_filter system_cmd (fst (run_setup_py env [''upload''])) =
           [env_executable env @ '' setup.py sdist bdist_wheel --universal'', ''twine upload dist/*'',
            ''git tag v'' @ v, ''git push --tags'']
         \<and> last (fst (run_setup_py env [''upload''])) = Exit \<and> snd (run_setup_py env [''upload'']) = None"
  using upload_run_commands [of "env_sys env" "env_script_dir env" "env_executable env" v] upload_run_not_Nil
  by (simp add: run_setup_py_ok [OF assms] run_upload_command_def module_prints_def map_filter_simps)

theorem setup_py_upload_witness:
  "List.map_filter system_cmd (fst (run_setup_py
      \<lparr>env_cwd = ''/src'', env_script_dir = ''/src'', env_executable = ''python3'', env_all_packages = [''Plotting''],
       env_found_packages = [''Plotting''], env_init_py = Some (version_prefix @ CHR 0x27 # ''0.1.2'' @ [CHR 0x27]),
       env_requirements_txt = None, env_readme = Some ''#'', env_sys = \<lparr>sys_status = \<lambda>c. 1, rmtree_raises = True\<rparr>\<rparr>
      [''upload''])) =
     [''python3 setup.py sdist bdist_wheel --universal'', ''twine upload dist/*'', ''git tag v0.1.2'', ''git push --tags'']"
proof -
  have "version_search (version_prefix @ CHR 0x27 # ''0.1.2'' @ [CHR 0x27]) = Inr ''0.1.2''"
    using version_search_first version_at_line [of "CHR 0x27" "CHR 0x27" "''0.1.2''" "[]"]
    by (simp add: quote_chars_def)
  from setup_py_upload [OF _ this, of _ "''#''"] show ?thesis by simp
qed

text \<open>
  C28. The script stops with an uncaught exception exactly as follows, in this order: a
  missing \<open>__init__.py\<close> raises \<open>FileNotFoundError\<close>, a file without a version line
  raises \<open>AttributeError\<close> (\<open>.group\<close> on \<open>None\<close>), and otherwise a missing
  \<open>README.md\<close> raises \<open>FileNotFoundError\<close> inside the \<open>setup(...)\<close> call; a missing
  \<open>requirements.txt\<close> never fails.
\<close>

theorem setup_py_errors:
  "snd (run_setup_py env argv) = Some e \<longleftrightarrow>
     (case env_init_py env of
        None \<Rightarrow> e = FileNotFoundError ''__init__.py''
      | Some content \<Rightarrow> (case version_search content of
          Inl e' \<Rightarrow> e = e'
        | Inr _ \<Rightarrow> env_readme env = None \<and> e = FileNotFoundError ''README.md''))"
  by (auto simp: run_setup_py_def run_upload_command_def setup_kwargs_def get_version_def get_long_description_def read_file_def
      Let_def split: option.splits sum.splits)

end
