(* ===== verification/Spec2Isabelle.thy ===== *)
theory Spec2Isabelle
  imports CountBar PlotBar MultiBox GroupedBar Hist Setup
begin

text \<open>
  \<^bold>\<open>Verification of CHelperFunctions.\<close> The repository has two programs:
  \<^verbatim>\<open>src/Plotting/HelperFunctionsPlotlyPlotting.py\<close>, five plotting helpers that read
  columns of a pandas \<open>DataFrame\<close>, compute with pandas/numpy and hand a plotly
  \<open>go.Figure\<close> to \<open>iplot\<close>, and \<^verbatim>\<open>src/setup.py\<close>, the packaging script. The
  development is a shallow embedding: every helper is a total HOL function from its
  arguments to \<open>figure result\<close>, i.e. \<open>py_error + figure\<close>, whose \<open>Inl\<close> branch is the
  exception Python raises (\<open>KeyError\<close>, \<open>TypeError\<close>, \<open>AttributeError\<close>) and whose
  \<open>Inr\<close> branch is the figure passed to \<open>iplot\<close>.

  \<^bold>\<open>Theories and what they model.\<close>
  \<^item> \<open>Py_Prelude\<close>: cells (\<open>cell\<close>: int64, finite float64 as a rational, \<open>inf\<close> and
    \<open>-inf\<close>, str, NaN), hash keys
    and Python \<open>==\<close> (\<open>cell_key\<close>, \<open>py_eq\<close>: NaN equals nothing), results (\<open>bindr\<close>,
    \<open>mapr\<close>), \<open>Series.head\<close> with slice semantics (\<open>py_head\<close>), \<open>Series.unique\<close>
    (\<open>unique\<close>), \<open>take\<close> by positions (\<open>take_idx\<close>) and pandas' \<open>nargsort\<close>, which
    puts NaN last and calls numpy's \<open>argsort(kind='quicksort')\<close> on the reversed
    non-missing keys. That kernel is not stable, so it is the parameter \<open>srt\<close> of
    every sorting helper, constrained only by \<open>is_argsort\<close> (a permutation that sorts);
    \<open>stable_argsort\<close> is one instance.
  \<^item> \<open>Frame\<close>: \<open>series\<close> and \<open>frame\<close> records, well-formedness \<open>frame_wf\<close>, \<open>df[c]\<close>
    (\<open>get_col\<close>), \<open>df.take\<close> and \<open>df.head\<close> by row position.
  \<^item> \<open>Py_Float\<close>, \<open>Py_Format\<close>: IEEE binary64 rounding \<open>to_double\<close> (nearest, ties to
    even, subnormals, unbounded exponent) and overflow to infinity as the test
    \<open>overflows\<close> (the rounded magnitude reaches \<open>2^1024\<close>), \<open>fmul\<close>, \<open>fdiv\<close>, \<open>np.round\<close> (\<open>np_round\<close>:
    scale, \<open>rint\<close>, unscale, each step rounded), Python's shortest round-trip
    \<open>repr\<close> of a float (\<open>float_repr\<close>), \<open>str\<close> of a cell and \<open>np.round\<close> of a cell.
  \<^item> \<open>Plotly\<close>: the figure as records (\<open>layout\<close>, \<open>bar_trace\<close>, \<open>hist_trace\<close>,
    \<open>box_trace\<close>, \<open>figure\<close>) and \<open>generate_layout_bar\<close>.
  \<^item> \<open>CountBar\<close> (\<open>plot_count_bar\<close>, \<open>value_counts\<close>, \<open>count_percentages\<close>),
    \<open>PlotBar\<close> (\<open>plot_bar\<close>, \<open>sort_values_desc\<close>, \<open>bar_label\<close>), \<open>MultiBox\<close>
    (\<open>plot_multi_box\<close> with its \<open>for\<close> loop as the accumulator recursion \<open>box_loop\<close>,
    masks \<open>eq_mask\<close>/\<open>select_mask\<close>), \<open>GroupedBar\<close> (\<open>plot_grouped_bar\<close>,
    \<open>Series.round\<close> as \<open>round_series\<close>, \<open>fig.update_layout\<close> as a record update) and
    \<open>Hist\<close> (\<open>plot_hist\<close>): one theory per helper, each definition named after the
    Python function it translates.
  \<^item> \<open>Setup_Files\<close> and \<open>Setup\<close>: reading a file (\<open>read_file\<close>: its contents, or \<open>FileNotFoundError\<close>
    when it is missing, a file being a \<open>string option\<close>), \<open>get_long_description\<close>,
    \<open>get_version\<close> (the file read, then the \<open>re.M\<close> search \<open>version_search\<close> as a
    scan of line starts, \<open>line_starts\<close>, and \<open>version_at\<close>), the requirements list (\<open>split_on\<close> is
    \<open>str.split\<close>), \<open>get_test_requirements\<close>, \<open>UploadCommand.run\<close> as a list of
    effects (\<open>upload_run\<close>) run by setuptools after the no-op
    \<open>initialize_options\<close> and \<open>finalize_options\<close> (\<open>run_upload_command\<close>), the
    keyword arguments of \<open>setup()\<close>, and the whole
    script \<open>python setup.py argv\<close> (\<open>run_setup_py\<close>: module-level prints, the
    version read, the \<open>setup()\<close> call dispatching \<open>upload\<close>), whose inputs
    (\<open>script_env\<close>) are the files, the working directory, \<open>find_packages\<close>' results
    and the outcomes of \<open>os.system\<close> and \<open>rmtree\<close>.

  \<^bold>\<open>What is proved.\<close> Per helper: the result on every branch, errors included and in
  the order the code raises them (C4, C15, C19, C22, C24, C28); the shape of the figure
  (C5, C8, C12, C17, C20, C21); sortedness and top-N selection for every argsort kernel
  (C2, C3, C11, C13), with the stable kernel's tie order (C6, C7); that the plotted rows
  are rows of the table (C14) and that \<open>sort_values\<close> keeps the frame well-formed and
  permutes its rows (C30, type invariant); that the boxes of \<open>plot_multi_box\<close>
  partition the rows with a group (C18) and that the mask loop refines an abstract
  group-by (C31, \<open>box_spec\<close>, \<open>abs_boxes\<close>); the float64 error of the bar heights,
  each within \<open>1/200 + 2^-40\<close> of the exact percentage and summing to 100 up to that
  error per bar (C29), which \<open>plot_count_bar\<close> meets for every \<open>top_n\<close> (C9), and
  the monotonicity of the float64 arithmetic that keeps the heights descending (C3);
  the labels of \<open>plot_bar\<close> (C16) and the overflow of \<open>np.round(x, 2)\<close> beyond about
  \<open>1.8e306\<close>, which labels such a bar \<open>inf%\<close> (C10). For \<open>setup.py\<close>: the
  round trip of the version line (C23) and the failure without one (C24), the
  requirements passed to \<open>setup()\<close> with the empty entry a final newline adds (C25),
  the dead \<open>mock\<close> branch of \<open>get_test_requirements\<close> (C26), the effect trace of
  \<open>setup.py upload\<close>, whose git tag is the version read from \<open>__init__.py\<close>
  (C27), and the order in which missing files and a missing version line abort the
  script (C28). \<open>plot_hist\<close> is modelled but has no property of its own: it passes
  the column through, and its only failure is that of \<open>get_col\<close>.
  Hypotheses are witnessed on small tables (\<open>city_frame\<close>, \<open>shop_frame\<close>,
  \<open>grp_frame\<close>, \<open>pair_frame\<close>).

  \<^bold>\<open>Bounds and parameters.\<close> No fuel is needed: every loop is structural (\<open>box_loop\<close>,
  \<open>unique_from\<close>, \<open>split_on\<close>, \<open>run_commands\<close>) or has a measure
  (\<open>line_starts\<close>: the length of the text; \<open>digits_int\<close>, \<open>strip_mp\<close>: the
  integer). Floats are exact rationals rounded by \<open>to_double\<close>, so integers below
  \<open>2^53\<close> are exact; C9 and C29 assume fewer than \<open>2^53\<close> counted cells, which
  every table that fits in memory meets. The shortest-repr search tries 1 to 17
  significant digits, the range in which a binary64 value always has a round-trip
  representation.

  \<^bold>\<open>Not modelled.\<close> \<open>init_notebook_mode\<close> and \<open>iplot\<close> (rendering and I/O: the model
  stops at the figure); plotly's own defaults, histogram binning and box statistics
  (library code the helpers only call); pandas index labels (rows are addressed by
  position, which is all the helpers use); dtypes other than int64, float64 and object,
  and the \<open>use_inf_as_na\<close> option. Float values are rationals, so the signed zero
  \<open>-0.0\<close> is not distinguished from \<open>0.0\<close> (numpy prints \<open>-0.0\<close> where the model
  prints \<open>0.0\<close>, e.g. for \<open>np.round(-0.001, 2)\<close>). \<open>None\<close> and \<open>NaN\<close> in an
  object column are one cell \<open>CNaN\<close>: every helper treats them alike except
  \<open>str\<close>, which prints \<open>None\<close> for the former. \<open>round_series\<close> follows pandas
  2.2 and later, where \<open>Series.round\<close> on an object column raises \<open>TypeError\<close>;
  what earlier versions do with such a column is not modelled. In \<open>setup.py\<close>: the file system
  beyond whether a file exists and what it holds, \<open>find_packages\<close> (its result is
  an input), setuptools' parsing of options in \<open>argv\<close> (every word is taken as a
  command) and its machinery for commands other than \<open>upload\<close>, which are I/O or
  library code. Apart from these, the imports and the comments, every line of the two
  source files is translated by a definition of the development.
\<close>

end
